theory Spec2Isabelle
  imports Main "HOL-Library.Multiset"
begin

chapter \<open>The model\<close>

section \<open>Python values, exceptions and dataframes\<close>

text \<open>
  The two DAG scripts are Python. A call either returns a value or raises; a raise is the
  left injection of a sum. Only \<open>KeyboardInterrupt\<close> and \<open>SystemExit\<close> of the
  exceptions below are outside the class \<open>Exception\<close>.
\<close>

datatype exn =
  KeyError | AttributeError | ValueError | TypeError | OverflowError | IndexError
  | AssertionError | StopIteration | OSError | ConnectionError
  | NonExistentTimeError | AmbiguousTimeError
  | KeyboardInterrupt | SystemExit

definition is_Exception :: "exn \<Rightarrow> bool" where
  "is_Exception e = (e \<noteq> KeyboardInterrupt \<and> e \<noteq> SystemExit)"

text \<open>
  A double is \<open>Finite m e\<close> (the number \<open>m * 2 ^ e\<close>), an infinity or NaN.
\<close>

datatype pyfloat = Finite int int | PosInf | NegInf | NaN

text \<open>
  The values a dataframe cell holds here: \<open>None\<close>, an int, a float, a string, a
  datetime without a time zone (\<open>PyDatetime\<close>, seconds of wall-clock time) or a
  timestamp in UTC (\<open>PyTimestamp\<close>, seconds since the epoch).
\<close>

datatype cell =
  PyNone | PyInt int | PyFloat pyfloat | PyStr string | PyDatetime int | PyTimestamp int

type_synonym row = "string \<rightharpoonup> cell"

record frame =
  cols :: "string list"
  rws :: "row list"

section \<open>parse_columns\<close>

text \<open>\<open>str.endswith\<close>: the last \<open>length suf\<close> characters of \<open>s\<close> are \<open>suf\<close>.\<close>

definition endswith :: "string \<Rightarrow> string \<Rightarrow> bool" where
  "endswith s suf = (length suf \<le> length s \<and> drop (length s - length suf) s = suf)"

text \<open>
  The loop of \<open>parse_columns\<close>, with its two accumulators \<open>id_vars\<close> and \<open>dates\<close>;
  \<open>append\<close> adds at the end.
\<close>

fun parse_columns_loop :: "string list \<Rightarrow> string list \<Rightarrow> string list \<Rightarrow> string list \<times> string list" where
  "parse_columns_loop [] id_vars dates = (id_vars, dates)"
| "parse_columns_loop (c # columns) id_vars dates =
     (if endswith c ''20'' then parse_columns_loop columns id_vars (dates @ [c])
      else parse_columns_loop columns (id_vars @ [c]) dates)"

definition parse_columns :: "frame \<Rightarrow> string list \<times> string list" where
  "parse_columns df = parse_columns_loop (cols df) [] []"


section \<open>atoi\<close>

text \<open>
  \<open>str.strip(chars)\<close> removes, from both ends, the characters that occur in \<open>chars\<close>.
\<close>

definition lstrip :: "string \<Rightarrow> string \<Rightarrow> string" where
  "lstrip chars s = dropWhile (\<lambda>c. c \<in> set chars) s"

definition rstrip :: "string \<Rightarrow> string \<Rightarrow> string" where
  "rstrip chars s = rev (dropWhile (\<lambda>c. c \<in> set chars) (rev s))"

definition strip :: "string \<Rightarrow> string \<Rightarrow> string" where
  "strip chars s = rstrip chars (lstrip chars s)"

text \<open>
  \<open>str.replace(old, new)\<close> for a non-empty \<open>old\<close>: the occurrences of \<open>old\<close>, found
  from the left and not overlapping, become \<open>new\<close>.
\<close>

fun starts_with :: "string \<Rightarrow> string \<Rightarrow> bool" where
  "starts_with [] s = True"
| "starts_with (a # old) [] = False"
| "starts_with (a # old) (c # s) = (a = c \<and> starts_with old s)"

function replace :: "string \<Rightarrow> string \<Rightarrow> string \<Rightarrow> string" where
  "replace old new [] = []"
| "replace old new (c # s) =
     (if old \<noteq> [] \<and> starts_with old (c # s) then new @ replace old new (drop (length old) (c # s))
      else c # replace old new s)"
  by pat_completeness auto
termination
  by (relation "measure (\<lambda>(old, new, s). length s)") auto

text \<open>
  The part of \<open>locale.localeconv()\<close> that \<open>locale.delocalize\<close> reads. The script never
  calls \<open>setlocale\<close>, so it runs in the C locale, which groups no digits.
\<close>

record localeconv =
  thousands_sep :: string
  decimal_point :: string

definition C_locale :: localeconv where
  "C_locale = \<lparr>thousands_sep = [], decimal_point = ''.''\<rparr>"

definition delocalize :: "localeconv \<Rightarrow> string \<Rightarrow> string" where
  "delocalize conv string =
     (let ts = thousands_sep conv;
          string1 = (if ts \<noteq> [] then replace ts [] string else string);
          dd = decimal_point conv
      in if dd \<noteq> [] then replace dd ''.'' string1 else string1)"

text \<open>
  \<open>int(s)\<close> on a string, base ten: white space around the number is dropped, one sign
  may lead, and the rest is decimal digits, where a single underscore may stand between
  two digits. Anything else raises \<open>ValueError\<close>. A character is its code point, up to
  255. The white space that \<open>int\<close> drops is the ASCII space, tab, line feed, vertical
  tab, form feed and carriage return, and the spaces beyond ASCII, here U+0085 and
  U+00A0; the separators U+001C to U+001F are not dropped.
\<close>

definition whitespace :: string where
  "whitespace = [CHR '' '', CHR 0x09, CHR 0x0A, CHR 0x0B, CHR 0x0C, CHR 0x0D, CHR 0x85, CHR 0xA0]"

definition digit_val :: "char \<Rightarrow> nat option" where
  "digit_val c =
     (let n = (of_char c :: nat) in if 48 \<le> n \<and> n \<le> 57 then Some (n - 48) else None)"

fun py_digits :: "string \<Rightarrow> nat \<Rightarrow> nat option" where
  "py_digits [] acc = Some acc"
| "py_digits [c] acc =
     (case digit_val c of None \<Rightarrow> None | Some v \<Rightarrow> Some (10 * acc + v))"
| "py_digits (c # d # s) acc =
     (if c = CHR ''_'' then
        (case digit_val d of None \<Rightarrow> None | Some v \<Rightarrow> py_digits s (10 * acc + v))
      else (case digit_val c of None \<Rightarrow> None | Some v \<Rightarrow> py_digits (d # s) (10 * acc + v)))"

definition py_unsigned :: "string \<Rightarrow> exn + int" where
  "py_unsigned s =
     (case s of
        [] \<Rightarrow> Inl ValueError
      | c # t \<Rightarrow>
          (case digit_val c of
             None \<Rightarrow> Inl ValueError
           | Some v \<Rightarrow> (case py_digits t v of None \<Rightarrow> Inl ValueError | Some n \<Rightarrow> Inr (int n))))"

definition py_int :: "string \<Rightarrow> exn + int" where
  "py_int string =
     (case strip whitespace string of
        [] \<Rightarrow> Inl ValueError
      | c # t \<Rightarrow>
          if c = CHR ''-'' then map_sum id uminus (py_unsigned t)
          else if c = CHR ''+'' then py_unsigned t
          else py_unsigned (c # t))"

definition locale_atoi :: "localeconv \<Rightarrow> string \<Rightarrow> exn + int" where
  "locale_atoi conv string = py_int (delocalize conv string)"

text \<open>\<open>atoi\<close> of the script; \<open>conv\<close> is the locale the process runs in.\<close>

definition atoi :: "localeconv \<Rightarrow> string \<Rightarrow> exn + int" where
  "atoi conv string = locale_atoi conv (strip ''*'' string)"

text \<open>
  The reference for \<open>atoi\<close>: the number a string of decimal digits denotes.
\<close>


definition is_digit :: "char \<Rightarrow> bool" where
  "is_digit c = (digit_val c \<noteq> None)"

definition decimal_value :: "string \<Rightarrow> nat" where
  "decimal_value s = foldl (\<lambda>acc c. 10 * acc + (of_char c - 48)) 0 s"

section \<open>Sequencing calls that may raise\<close>

definition bnd :: "exn + 'a \<Rightarrow> ('a \<Rightarrow> exn + 'b) \<Rightarrow> exn + 'b" where
  "bnd m f = (case m of Inl e \<Rightarrow> Inl e | Inr x \<Rightarrow> f x)"

text \<open>Applying a function that may raise to each element, in order, stops at the first raise.\<close>

fun traverse :: "('a \<Rightarrow> exn + 'b) \<Rightarrow> 'a list \<Rightarrow> exn + 'b list" where
  "traverse f [] = Inr []"
| "traverse f (x # xs) = bnd (f x) (\<lambda>y. bnd (traverse f xs) (\<lambda>ys. Inr (y # ys)))"

section \<open>Columns of a frame\<close>

text \<open>A cell that a row does not have is missing, which pandas shows as NaN.\<close>

definition cell_of :: "row \<Rightarrow> string \<Rightarrow> cell" where
  "cell_of r c = (case r c of None \<Rightarrow> PyFloat NaN | Some v \<Rightarrow> v)"

text \<open>\<open>df[c]\<close>: the column as a list, \<open>KeyError\<close> when the frame has no such column.\<close>

definition getitem :: "frame \<Rightarrow> string \<Rightarrow> exn + cell list" where
  "getitem df c = (if c \<in> set (cols df) then Inr (map (\<lambda>r. cell_of r c) (rws df)) else Inl KeyError)"

text \<open>
  \<open>df[c] = series\<close> and \<open>df.assign(c=series)\<close>, the series indexed \<open>0, 1, ...\<close> as the
  frame is: row \<open>i\<close> takes the series' value at \<open>i\<close>, and NaN where the series is
  shorter. A new column goes last.
\<close>

definition set_column :: "string \<Rightarrow> cell list \<Rightarrow> frame \<Rightarrow> frame" where
  "set_column c vs df =
     \<lparr>cols = (if c \<in> set (cols df) then cols df else cols df @ [c]),
      rws = map (\<lambda>(i, r). r(c \<mapsto> (if i < length vs then vs ! i else PyFloat NaN)))
                (enumerate 0 (rws df))\<rparr>"

text \<open>\<open>df.assign(c=v)\<close> for a scalar \<open>v\<close>.\<close>

definition assign_scalar :: "string \<Rightarrow> cell \<Rightarrow> frame \<Rightarrow> frame" where
  "assign_scalar c v df =
     \<lparr>cols = (if c \<in> set (cols df) then cols df else cols df @ [c]),
      rws = map (\<lambda>r. r(c \<mapsto> v)) (rws df)\<rparr>"

section \<open>coerce_integer\<close>

text \<open>\<open>pd.isna\<close> on a scalar.\<close>

fun isna :: "cell \<Rightarrow> bool" where
  "isna PyNone = True"
| "isna (PyFloat NaN) = True"
| "isna x = False"

text \<open>\<open>int.bit_length\<close> of a natural number.\<close>

fun bit_length :: "nat \<Rightarrow> nat" where
  "bit_length n = (if n = 0 then 0 else Suc (bit_length (n div 2)))"

declare bit_length.simps [simp del]

text \<open>
  \<open>float(n)\<close> for an int: the nearest double, ties to the even significand of 53 bits,
  and \<open>OverflowError\<close> when that is beyond the largest double.
\<close>

definition float_of_int :: "int \<Rightarrow> exn + pyfloat" where
  "float_of_int n =
     (let a = nat \<bar>n\<bar>; b = bit_length a in
      if b \<le> 53 then Inr (Finite n 0)
      else
        let k = b - 53; q = a div 2 ^ k; r = a mod 2 ^ k; half = 2 ^ (k - 1);
            q' = (if half < r \<or> (r = half \<and> odd q) then q + 1 else q)
        in if 2 ^ 1024 \<le> q' * 2 ^ k then Inl OverflowError
           else Inr (Finite (sgn n * int q') (int k)))"

text \<open>
  \<open>float(x)\<close>. Parsing a string is the Python runtime's work: \<open>float_of_str\<close> stands for
  it.
\<close>

fun py_float :: "(string \<Rightarrow> exn + pyfloat) \<Rightarrow> cell \<Rightarrow> exn + pyfloat" where
  "py_float float_of_str (PyInt n) = float_of_int n"
| "py_float float_of_str (PyFloat f) = Inr f"
| "py_float float_of_str (PyStr s) = float_of_str s"
| "py_float float_of_str PyNone = Inl TypeError"
| "py_float float_of_str (PyDatetime t) = Inl TypeError"
| "py_float float_of_str (PyTimestamp t) = Inl TypeError"

text \<open>\<open>int(f)\<close> for a float: towards zero; the infinities and NaN raise.\<close>

fun int_of_float :: "pyfloat \<Rightarrow> exn + int" where
  "int_of_float (Finite m e) =
     Inr (if 0 \<le> e then m * 2 ^ nat e else sgn m * (\<bar>m\<bar> div 2 ^ nat (- e)))"
| "int_of_float PosInf = Inl OverflowError"
| "int_of_float NegInf = Inl OverflowError"
| "int_of_float NaN = Inl ValueError"

definition integrify :: "(string \<Rightarrow> exn + pyfloat) \<Rightarrow> cell \<Rightarrow> exn + cell" where
  "integrify float_of_str x =
     (if \<not> isna x then bnd (py_float float_of_str x) (\<lambda>f. bnd (int_of_float f) (\<lambda>n. Inr (PyInt n)))
      else Inr PyNone)"

definition coerce_cols :: "string list" where
  "coerce_cols = [''cases'', ''deaths'', ''recovered'', ''travel_based'', ''locally_acquired'',
                  ''ca_total'', ''non_scag_total'']"

text \<open>
  \<open>coerce_integer\<close>: the dict comprehension builds every new column from \<open>df\<close>, in the
  order of \<open>cols\<close>, before \<open>assign\<close> stores them.
\<close>

definition coerce_integer :: "(string \<Rightarrow> exn + pyfloat) \<Rightarrow> frame \<Rightarrow> exn + frame" where
  "coerce_integer float_of_str df =
     bnd (traverse (\<lambda>c. bnd (getitem df c) (\<lambda>s. bnd (traverse (integrify float_of_str) s)
                                                   (\<lambda>s'. Inr (c, s')))) coerce_cols)
         (\<lambda>new_cols. Inr (fold (\<lambda>(c, s'). set_column c s') new_cols df))"

section \<open>Appending frames and dropping duplicates\<close>

text \<open>
  \<open>a.append(b, sort=False)\<close>: the rows of \<open>a\<close>, then those of \<open>b\<close>; the columns of
  \<open>a\<close>, then the columns only \<open>b\<close> has. A row has no cell for a column of the other
  frame, which reads as NaN.
\<close>

definition append_frame :: "frame \<Rightarrow> frame \<Rightarrow> frame" where
  "append_frame a b =
     \<lparr>cols = cols a @ filter (\<lambda>c. c \<notin> set (cols a)) (cols b), rws = rws a @ rws b\<rparr>"

text \<open>
  What \<open>drop_duplicates\<close> compares. Two cells are the same key when both are missing
  (\<open>None\<close> or NaN), or both are numbers of the same value (the int 1 and the float 1.0
  are equal and hash alike), or they are the same string or the same timestamp.
  \<open>canon\<close> gives every finite number one form: an odd significand, or zero.
\<close>

function canon :: "int \<Rightarrow> int \<Rightarrow> pyfloat" where
  "canon m e =
     (if m = 0 then Finite 0 0
      else if even m then canon (m div 2) (e + 1)
      else Finite m e)"
  by pat_completeness auto
termination
  by (relation "measure (\<lambda>(m, e). nat \<bar>m\<bar>)") auto

declare canon.simps [simp del]

fun key_cell :: "cell \<Rightarrow> cell" where
  "key_cell PyNone = PyFloat NaN"
| "key_cell (PyInt n) = PyFloat (canon n 0)"
| "key_cell (PyFloat (Finite m e)) = PyFloat (canon m e)"
| "key_cell x = x"

definition row_key :: "string list \<Rightarrow> row \<Rightarrow> cell list" where
  "row_key key_cols r = map (\<lambda>c. key_cell (cell_of r c)) key_cols"

text \<open>
  \<open>keep="last"\<close>: a row stays when no later row has its key; the rows that stay keep
  their order.
\<close>

fun keep_last :: "('a \<Rightarrow> 'k) \<Rightarrow> 'a list \<Rightarrow> 'a list" where
  "keep_last k [] = []"
| "keep_last k (r # rs) =
     (if k r \<in> set (map k rs) then keep_last k rs else r # keep_last k rs)"

text \<open>\<open>df.drop_duplicates(subset=..., keep="last")\<close>; a column of the \<open>subset\<close> that the frame
  does not have raises \<open>KeyError\<close>.\<close>

definition drop_duplicates :: "string list \<Rightarrow> frame \<Rightarrow> exn + frame" where
  "drop_duplicates key_cols df =
     (if set key_cols \<subseteq> set (cols df)
      then Inr \<lparr>cols = cols df, rws = keep_last (row_key key_cols) (rws df)\<rparr>
      else Inl KeyError)"

text \<open>
  \<open>reset_index(drop=True)\<close> numbers the rows \<open>0, 1, ...\<close> again. The rows of a frame are a
  list here, so their position is their index.
\<close>

definition reset_index :: "frame \<Rightarrow> frame" where
  "reset_index df = df"

text \<open>
  The merge in \<open>load_county_covid_data\<close>: the published history, then the scraped rows,
  one row for every date and county, the numeric columns coerced.
\<close>

definition merge_county :: "(string \<Rightarrow> exn + pyfloat) \<Rightarrow> frame \<Rightarrow> frame \<Rightarrow> exn + frame" where
  "merge_county float_of_str prev_data county_data =
     bnd (drop_duplicates [''date'', ''county''] (append_frame prev_data county_data))
         (\<lambda>d. coerce_integer float_of_str (reset_index d))"

text \<open>
  The reference for the merge: \<open>r'\<close> is the row \<open>r\<close> after coercion when the seven
  numeric cells of \<open>r'\<close> are \<open>integrify\<close> of those of \<open>r\<close> and every other cell is
  that of \<open>r\<close>.
\<close>

definition coerced :: "(string \<Rightarrow> exn + pyfloat) \<Rightarrow> row \<Rightarrow> row \<Rightarrow> bool" where
  "coerced float_of_str r r' =
     ((\<forall>c. c \<notin> set coerce_cols \<longrightarrow> r' c = r c)
      \<and> (\<forall>c\<in>set coerce_cols. integrify float_of_str (cell_of r c) = Inr (cell_of r' c)))"

text \<open>The key of the merge: the date and the county of a row.\<close>

definition date_county :: "row \<Rightarrow> cell list" where
  "date_county = row_key [''date'', ''county'']"

text \<open>The columns of the county time series, as the script lists them.\<close>

definition columns :: "string list" where
  "columns = [''state'', ''county'', ''date'', ''latitude'', ''longitude'', ''cases'', ''deaths'',
              ''recovered'', ''travel_based'', ''locally_acquired'', ''ca_total'', ''non_scag_total'']"

section \<open>load_jhu_time_series\<close>

text \<open>
  \<open>pd.melt(frame, id_vars, value_vars, var_name, value_name)\<close>: for every column of
  \<open>value_vars\<close>, in order, one row for every row of the frame, in order; the row keeps
  the \<open>id_vars\<close> cells and gets the column's name under \<open>var_name\<close> and the cell
  under \<open>value_name\<close>. A column the frame does not have raises \<open>KeyError\<close>.
\<close>

definition melt :: "frame \<Rightarrow> string list \<Rightarrow> string list \<Rightarrow> string \<Rightarrow> string \<Rightarrow> exn + frame" where
  "melt fr id_vars value_vars var_name value_name =
     (if set id_vars \<union> set value_vars \<subseteq> set (cols fr)
      then Inr \<lparr>cols = id_vars @ [var_name, value_name],
                rws = concat (map (\<lambda>v. map (\<lambda>r. (r |` set id_vars)(var_name \<mapsto> PyStr v,
                                                                      value_name \<mapsto> cell_of r v))
                                             (rws fr))
                                  value_vars)\<rparr>
      else Inl KeyError)"

text \<open>\<open>df.name\<close> for a column: as \<open>df[name]\<close>, but a missing column is an \<open>AttributeError\<close>.\<close>

definition getattr_col :: "frame \<Rightarrow> string \<Rightarrow> exn + cell list" where
  "getattr_col df c = (case getitem df c of Inl e \<Rightarrow> Inl AttributeError | Inr s \<Rightarrow> Inr s)"

text \<open>
  \<open>load_jhu_time_series\<close>. The three arguments are what the three \<open>pd.read_csv\<close> calls
  give: a frame, or the exception of a failed download or parse. The value variables
  of the recovered table are those of the deaths table, as in the script.
\<close>

definition load_jhu_time_series :: "exn + frame \<Rightarrow> exn + frame \<Rightarrow> exn + frame \<Rightarrow> exn + frame" where
  "load_jhu_time_series read_cases read_deaths read_recovered =
     bnd read_cases (\<lambda>cases.
     bnd read_deaths (\<lambda>deaths.
     bnd read_recovered (\<lambda>recovered.
     bnd (case parse_columns cases of (id_vars, dates) \<Rightarrow>
            melt cases id_vars dates ''date'' ''cases'') (\<lambda>df.
     bnd (case parse_columns deaths of (id_vars, dates) \<Rightarrow>
            melt deaths id_vars dates ''variable'' ''deaths'') (\<lambda>deaths_df.
     bnd (case parse_columns deaths of (id_vars, dates) \<Rightarrow>
            melt recovered id_vars dates ''variable'' ''recovered'') (\<lambda>recovered_df.
     bnd (getattr_col deaths_df ''deaths'') (\<lambda>deaths_col.
     bnd (getattr_col recovered_df ''recovered'') (\<lambda>recovered_col.
     Inr (set_column ''recovered'' recovered_col (set_column ''deaths'' deaths_col df))))))))))"

text \<open>
  The region key of a row of a wide table: its cells in the table's identifying columns.
\<close>

definition region_key :: "string list \<Rightarrow> row \<Rightarrow> cell list" where
  "region_key id_vars r = map (cell_of r) id_vars"

section \<open>Dates: local midnight in the reporting time zone, as UTC\<close>

text \<open>
  A wall-clock time: a calendar day and the seconds since its midnight. An aware timestamp
  is a wall-clock time with the UTC offset (seconds east of Greenwich) in force then.
\<close>

record civil =
  year :: int
  month :: int
  day :: int
  secs :: int

record aware =
  wall :: civil
  utcoffset :: int

text \<open>The days from 1970-01-01 to a day of the proleptic Gregorian calendar.\<close>

definition days_from_civil :: "int \<Rightarrow> int \<Rightarrow> int \<Rightarrow> int" where
  "days_from_civil y m d =
     (let y' = (if m \<le> 2 then y - 1 else y);
          era = y' div 400;
          yoe = y' - era * 400;
          doy = (153 * (if 2 < m then m - 3 else m + 9) + 2) div 5 + d - 1;
          doe = yoe * 365 + yoe div 4 - yoe div 100 + doy
      in era * 146097 + doe - 719468)"

definition wall_seconds :: "civil \<Rightarrow> int" where
  "wall_seconds c = days_from_civil (year c) (month c) (day c) * 86400 + secs c"

text \<open>The day of the week, Sunday being 0; 1970-01-01 was a Thursday.\<close>

definition weekday :: "int \<Rightarrow> int \<Rightarrow> int \<Rightarrow> int" where
  "weekday y m d = (days_from_civil y m d + 4) mod 7"

text \<open>
  A time zone gives the offset in force at a wall-clock time, or raises for a wall-clock
  time that a transition skips or repeats (\<open>tz_localize\<close> with its defaults).

  \<open>US_Pacific\<close> is the zone of the tz database under the rule in force since 2007:
  daylight time (UTC-7) from 02:00 on the second Sunday of March to 02:00 on the first
  Sunday of November, standard time (UTC-8) otherwise.
\<close>

type_synonym timezone = "civil \<Rightarrow> exn + int"

definition second_sunday_march :: "int \<Rightarrow> int" where
  "second_sunday_march y = 8 + (7 - weekday y 3 8) mod 7"

definition first_sunday_november :: "int \<Rightarrow> int" where
  "first_sunday_november y = 1 + (7 - weekday y 11 1) mod 7"

definition US_Pacific :: timezone where
  "US_Pacific c =
     (let t = wall_seconds c;
          start = days_from_civil (year c) 3 (second_sunday_march (year c)) * 86400;
          stop = days_from_civil (year c) 11 (first_sunday_november (year c)) * 86400
      in if t < start + 7200 then Inr (- 28800)
         else if t < start + 10800 then Inl NonExistentTimeError
         else if t < stop + 3600 then Inr (- 25200)
         else if t < stop + 7200 then Inl AmbiguousTimeError
         else Inr (- 28800))"

definition tz_localize :: "timezone \<Rightarrow> civil \<Rightarrow> exn + aware" where
  "tz_localize tz c = bnd (tz c) (\<lambda>off. Inr \<lparr>wall = c, utcoffset = off\<rparr>)"

text \<open>\<open>normalize\<close>: midnight of the same local day, in the same zone.\<close>

definition normalize :: "timezone \<Rightarrow> aware \<Rightarrow> exn + aware" where
  "normalize tz a = tz_localize tz ((wall a)\<lparr>secs := 0\<rparr>)"

text \<open>\<open>tz_convert("UTC")\<close>: the instant, in seconds since the epoch.\<close>

definition tz_convert_utc :: "aware \<Rightarrow> int" where
  "tz_convert_utc a = wall_seconds (wall a) - utcoffset a"

text \<open>
  The module's \<open>date\<close>: \<open>pd.Timestamp.now(tz).normalize().tz_convert("UTC")\<close>, from
  what the clock reads.
\<close>

definition date :: "timezone \<Rightarrow> aware \<Rightarrow> exn + int" where
  "date tz now = bnd (normalize tz now) (\<lambda>n. Inr (tz_convert_utc n))"

text \<open>
  The date column of \<open>load_jhu_county_time_series\<close>, for the wall-clock time that
  \<open>pd.to_datetime\<close> parsed: \<open>tz_localize(tz)\<close>, \<open>normalize()\<close>, \<open>tz_convert("UTC")\<close>.
\<close>

definition county_date :: "timezone \<Rightarrow> civil \<Rightarrow> exn + int" where
  "county_date tz c =
     bnd (tz_localize tz c) (\<lambda>a. bnd (normalize tz a) (\<lambda>n. Inr (tz_convert_utc n)))"

text \<open>The time of day of an instant, in UTC: the seconds since the last UTC midnight.\<close>

definition utc_time_of_day :: "int \<Rightarrow> int" where
  "utc_time_of_day t = t mod 86400"

section \<open>The world of a run, and actions on it\<close>

text \<open>
  What a run of the DAG can change or leave behind: the files it writes, the hosted
  feature layers (by item id, holding the table last uploaded), the HTTP requests it
  sends, and the log.
\<close>

datatype level = Info | Warning

record world =
  files :: "string \<rightharpoonup> frame"
  layers :: "string \<rightharpoonup> frame"
  requests :: "string list"
  log :: "(level \<times> string) list"

type_synonym 'a action = "world \<Rightarrow> (exn + 'a) \<times> world"

definition ret :: "'a \<Rightarrow> 'a action" where
  "ret x w = (Inr x, w)"

definition lift :: "exn + 'a \<Rightarrow> 'a action" where
  "lift r w = (r, w)"

definition seq :: "'a action \<Rightarrow> ('a \<Rightarrow> 'b action) \<Rightarrow> 'b action" where
  "seq m f w = (case m w of (Inl e, w') \<Rightarrow> (Inl e, w') | (Inr x, w') \<Rightarrow> f x w')"

text \<open>
  \<open>try: m except Exception: h\<close> (and \<open>except (Exception, ArithmeticError)\<close>, which names
  a subclass again): the handler runs for an instance of \<open>Exception\<close>; anything else
  goes on up.
\<close>

definition try_except :: "'a action \<Rightarrow> (exn \<Rightarrow> 'a action) \<Rightarrow> 'a action" where
  "try_except m h w =
     (case m w of
        (Inl e, w') \<Rightarrow> if is_Exception e then h e w' else (Inl e, w')
      | (Inr x, w') \<Rightarrow> (Inr x, w'))"

definition logging :: "level \<Rightarrow> string \<Rightarrow> unit action" where
  "logging lvl msg w = (Inr (), w\<lparr>log := log w @ [(lvl, msg)]\<rparr>)"

text \<open>An HTTP GET: the request goes out; what comes back is given from outside.\<close>

definition http_get :: "string \<Rightarrow> exn + 'a \<Rightarrow> 'a action" where
  "http_get url response w = (response, w\<lparr>requests := requests w @ [url]\<rparr>)"

section \<open>The county fetchers\<close>

text \<open>
  What one run meets outside the process. For every county page: the numbers the
  fetcher reads off it (after \<open>atoi\<close>), or the exception that the request, the
  parser, an assertion or \<open>atoi\<close> raises. \<open>today\<close> is the module's \<open>date\<close>.
\<close>

record pages =
  today :: int
  la_county :: "exn + int \<times> int"
  imperial_county :: "exn + int"
  orange_county :: "exn + int \<times> int \<times> int \<times> int"
  san_bernardino_county :: "exn + int"
  riverside_county :: "exn + int option \<times> int option \<times> int option"
  ventura_county :: "exn + int \<times> int"

definition opt_int :: "int option \<Rightarrow> cell" where
  "opt_int x = (case x of None \<Rightarrow> PyNone | Some n \<Rightarrow> PyInt n)"

text \<open>The dict every fetcher returns; the coordinates are the doubles of the literals.\<close>

definition county_record ::
  "string \<Rightarrow> pyfloat \<Rightarrow> pyfloat \<Rightarrow> int \<Rightarrow> cell \<Rightarrow> cell \<Rightarrow> cell \<Rightarrow> cell \<Rightarrow> row" where
  "county_record name lat long dt cases deaths travel_based locally_acquired =
     [''state'' \<mapsto> PyStr ''CA'', ''county'' \<mapsto> PyStr name, ''latitude'' \<mapsto> PyFloat lat,
      ''longitude'' \<mapsto> PyFloat long, ''date'' \<mapsto> PyTimestamp dt, ''cases'' \<mapsto> cases,
      ''deaths'' \<mapsto> deaths, ''recovered'' \<mapsto> PyNone, ''travel_based'' \<mapsto> travel_based,
      ''locally_acquired'' \<mapsto> locally_acquired]"

definition la_county_record :: "pages \<Rightarrow> int \<times> int \<Rightarrow> row" where
  "la_county_record p = (\<lambda>(cases, deaths).
     county_record ''Los Angeles'' (Finite 2396055739249459 (- 46)) (Finite (- 473) (- 2)) (today p)
       (PyInt cases) (PyInt deaths) PyNone PyNone)"

definition scrape_la_county_public_health_data :: "pages \<Rightarrow> row action" where
  "scrape_la_county_public_health_data p =
     seq (http_get ''http://publichealth.lacounty.gov/media/Coronavirus/'' (la_county p))
       (\<lambda>counts. ret (la_county_record p counts))"

definition imperial_county_record :: "pages \<Rightarrow> int \<Rightarrow> row" where
  "imperial_county_record p = (\<lambda>cases.
     county_record ''Imperial'' (Finite 2308094809027379 (- 46)) (Finite (- 2033128941153157) (- 44))
       (today p) (PyInt cases) PyNone PyNone PyNone)"

definition scrape_imperial_county_public_health_data :: "pages \<Rightarrow> row action" where
  "scrape_imperial_county_public_health_data p =
     seq (http_get ''http://www.icphd.org/health-information-and-resources/healthy-facts/covid-19/''
            (imperial_county p))
       (\<lambda>cases. ret (imperial_county_record p cases))"

definition orange_county_record :: "pages \<Rightarrow> int \<times> int \<times> int \<times> int \<Rightarrow> row" where
  "orange_county_record p = (\<lambda>(cases, deaths, travel_based, locally_acquired).
     county_record ''Orange'' (Finite 4748482857108767 (- 47)) (Finite (- 1036883445457879) (- 43))
       (today p) (PyInt cases) (PyInt deaths) (PyInt travel_based) (PyInt locally_acquired))"

definition scrape_orange_county_public_health_data :: "pages \<Rightarrow> row action" where
  "scrape_orange_county_public_health_data p =
     seq (http_get ''http://www.ochealthinfo.com/phs/about/epidasmt/epi/dip/prevention/novel_coronavirus''
            (orange_county p))
       (\<lambda>counts. ret (orange_county_record p counts))"

definition san_bernardino_county_record :: "pages \<Rightarrow> int \<Rightarrow> row" where
  "san_bernardino_county_record p = (\<lambda>cases.
     county_record ''San Bernardino'' (Finite 4799148352916685 (- 47))
       (Finite (- 8254253692039987) (- 46)) (today p) (PyInt cases) PyNone PyNone PyNone)"

definition scrape_san_bernardino_county_public_health_data :: "pages \<Rightarrow> row action" where
  "scrape_san_bernardino_county_public_health_data p =
     seq (http_get ''http://wp.sbcounty.gov/dph/coronavirus/'' (san_bernardino_county p))
       (\<lambda>cases. ret (san_bernardino_county_record p cases))"

definition riverside_county_record :: "pages \<Rightarrow> int option \<times> int option \<times> int option \<Rightarrow> row" where
  "riverside_county_record p = (\<lambda>(cases, travel_based, locally_acquired).
     county_record ''Riverside'' (Finite 4777756254686675 (- 47)) (Finite (- 8261009091481043) (- 46))
       (today p) (opt_int cases) PyNone (opt_int travel_based) (opt_int locally_acquired))"

definition scrape_riverside_county_public_health_data :: "pages \<Rightarrow> row action" where
  "scrape_riverside_county_public_health_data p =
     seq (http_get ''https://www.rivcoph.org/coronavirus'' (riverside_county p))
       (\<lambda>counts. ret (riverside_county_record p counts))"

definition ventura_county_record :: "pages \<Rightarrow> int \<times> int \<Rightarrow> row" where
  "ventura_county_record p = (\<lambda>(cases, deaths).
     county_record ''Ventura'' (Finite 4823777413378867 (- 47)) (Finite (- 8389924630814523) (- 46))
       (today p) (PyInt cases) (PyInt deaths) PyNone PyNone)"

definition scrape_ventura_county_public_health_data :: "pages \<Rightarrow> row action" where
  "scrape_ventura_county_public_health_data p =
     seq (http_get ''https://www.vcemergency.com/'' (ventura_county p))
       (\<lambda>counts. ret (ventura_county_record p counts))"

text \<open>
  One \<open>try\<close> block of \<open>scrape_county_public_health_data\<close>: log, call the fetcher, append
  its record; on an exception log the warning and go on with the list as it was.
\<close>

definition try_county :: "string \<Rightarrow> row action \<Rightarrow> string \<Rightarrow> row list \<Rightarrow> row list action" where
  "try_county info fetch warning county_dfs =
     try_except
       (seq (logging Info info) (\<lambda>_. seq fetch (\<lambda>r. ret (county_dfs @ [r]))))
       (\<lambda>e. seq (logging Warning warning) (\<lambda>_. ret county_dfs))"

text \<open>
  \<open>df.append(county_dfs, ignore_index=True)\<close> on the empty frame with the columns of
  \<open>columns\<close>: the records become the rows (their keys are among the columns, so the
  columns stay). The script runs on a pandas before 0.25 (the note in \<open>coerce_integer\<close>
  says so), where \<open>append\<close> looks at the first element of a list to see what the list
  holds: an empty list raises \<open>IndexError\<close>.
\<close>

definition append_records :: "frame \<Rightarrow> row list \<Rightarrow> exn + frame" where
  "append_records df records =
     (if records = [] then Inl IndexError else Inr \<lparr>cols = cols df, rws = rws df @ records\<rparr>)"

definition scrape_county_public_health_data :: "pages \<Rightarrow> frame action" where
  "scrape_county_public_health_data p =
     seq (try_county ''Loading data from LA County'' (scrape_la_county_public_health_data p)
            ''Failed to load data from Orange County'' []) (\<lambda>county_dfs.
     seq (try_county ''Loading data from Imperial County'' (scrape_imperial_county_public_health_data p)
            ''Failed to load data from Orange County'' county_dfs) (\<lambda>county_dfs.
     seq (try_county ''Loading data from Orange County'' (scrape_orange_county_public_health_data p)
            ''Failed to load data from Orange County'' county_dfs) (\<lambda>county_dfs.
     seq (try_county ''Loading data from San Bernardino County''
            (scrape_san_bernardino_county_public_health_data p)
            ''Failed to load data from San Bernardino County'' county_dfs) (\<lambda>county_dfs.
     seq (try_county ''Loading data from Riverside County'' (scrape_riverside_county_public_health_data p)
            ''Failed to load data from Riverside County'' county_dfs) (\<lambda>county_dfs.
     seq (try_county ''Loading data from Ventura County'' (scrape_ventura_county_public_health_data p)
            ''Failed to load data from Ventura County'' county_dfs) (\<lambda>county_dfs.
     lift (append_records \<lparr>cols = columns, rws = []\<rparr> county_dfs)))))))"

section \<open>The two jobs\<close>

text \<open>
  The services and library calls whose results come from outside the scripts: the
  Airflow connection, the ArcGIS login, the county layer as \<open>from_layer\<close> returns it,
  the lookup of a hosted item, the outcome of an overwrite (it raises, or returns
  whether it succeeded), \<open>pd.read_csv\<close> of a URL, and the parsers and the sort of
  Python and pandas (\<open>float\<close> of a string, \<open>pd.to_numeric\<close>, \<open>pd.to_datetime\<close>,
  \<open>sort_values\<close>, \<open>str\<close> of an exception).
\<close>

record services =
  arcgis_connection :: "exn + string \<times> string"
  gis_login :: "exn + unit"
  esri_layer :: "exn + frame"
  content_item :: "string \<Rightarrow> exn + unit"
  overwrite_result :: "string \<Rightarrow> exn + bool"
  read_csv :: "string \<Rightarrow> exn + frame"
  float_of_str :: "string \<Rightarrow> exn + pyfloat"
  to_numeric :: "cell list \<Rightarrow> exn + cell list"
  to_datetime :: "cell list \<Rightarrow> exn + cell list"
  sort_values :: "string list \<Rightarrow> frame \<Rightarrow> exn + frame"
  exn_text :: "exn \<Rightarrow> string"

definition time_series_featureid :: string where
  "time_series_featureid = ''d61924e1d8344a09a1298707cfff388c''"

definition current_featureid :: string where
  "current_featureid = ''523a372d71014bd491064d74e3eba2c7''"

definition jhu_time_series_featureid :: string where
  "jhu_time_series_featureid = ''20271474d3c3404d9c79bed0dbd48580''"

definition jhu_current_featureid :: string where
  "jhu_current_featureid = ''191df200230642099002039816dc8c59''"

definition CASES_URL :: "string \<Rightarrow> string" where
  "CASES_URL branch = ''https://github.com/CSSEGISandData/COVID-19/raw/'' @ branch
     @ ''/csse_covid_19_data/csse_covid_19_time_series/time_series_19-covid-Confirmed.csv''"

definition DEATHS_URL :: "string \<Rightarrow> string" where
  "DEATHS_URL branch = ''https://github.com/CSSEGISandData/COVID-19/raw/'' @ branch
     @ ''/csse_covid_19_data/csse_covid_19_time_series/time_series_19-covid-Deaths.csv''"

definition RECOVERED_URL :: "string \<Rightarrow> string" where
  "RECOVERED_URL branch = ''https://github.com/CSSEGISandData/COVID-19/raw/'' @ branch
     @ ''/csse_covid_19_data/csse_covid_19_time_series/time_series_19-covid-Recovered.csv''"

text \<open>\<open>df.drop(columns=names)\<close>.\<close>

definition drop_columns :: "string list \<Rightarrow> frame \<Rightarrow> exn + frame" where
  "drop_columns names df =
     (if set names \<subseteq> set (cols df)
      then Inr \<lparr>cols = filter (\<lambda>c. c \<notin> set names) (cols df),
                rws = map (\<lambda>r. r |` (- set names)) (rws df)\<rparr>
      else Inl KeyError)"

text \<open>\<open>df.rename(columns=mapping)\<close>.\<close>

definition rename_columns :: "(string \<rightharpoonup> string) \<Rightarrow> frame \<Rightarrow> frame" where
  "rename_columns mapping df =
     (let new_name = (\<lambda>c. case mapping c of None \<Rightarrow> c | Some c' \<Rightarrow> c')
      in \<lparr>cols = map new_name (cols df),
          rws = map (\<lambda>r. map_of (map (\<lambda>c. (new_name c, cell_of r c)) (cols df))) (rws df)\<rparr>)"

text \<open>
  \<open>series.dt.tz_localize("UTC")\<close>: the \<open>dt\<close> accessor wants a column of datetimes
  (\<open>AttributeError\<close> otherwise), and a column that has a time zone already cannot be
  localized (\<open>TypeError\<close>).
\<close>

fun is_naive :: "cell \<Rightarrow> bool" where
  "is_naive (PyDatetime t) = True"
| "is_naive x = False"

fun is_aware :: "cell \<Rightarrow> bool" where
  "is_aware (PyTimestamp t) = True"
| "is_aware x = False"

fun localize_utc :: "cell \<Rightarrow> cell" where
  "localize_utc (PyDatetime t) = PyTimestamp t"
| "localize_utc x = x"

definition dt_tz_localize_utc :: "cell list \<Rightarrow> exn + cell list" where
  "dt_tz_localize_utc s =
     (if list_all (\<lambda>x. is_naive x \<or> isna x) s then Inr (map localize_utc s)
      else if list_all (\<lambda>x. is_aware x \<or> isna x) s then Inl TypeError
      else Inl AttributeError)"

definition load_esri_time_series :: "services \<Rightarrow> exn + frame" where
  "load_esri_time_series sv =
     bnd (esri_layer sv) (\<lambda>sdf.
     bnd (drop_columns [''ObjectId'', ''SHAPE''] sdf) (\<lambda>sdf.
     bnd (drop_duplicates [''date'', ''county''] sdf) (\<lambda>sdf.
     bnd (getattr_col sdf ''date'') (\<lambda>d.
     bnd (dt_tz_localize_utc d) (\<lambda>d'.
     Inr (set_column ''date'' d' sdf))))))"

text \<open>
  \<open>series.max()\<close> of a date column: the latest of its datetimes, missing values left
  out; missing when there is none; \<open>TypeError\<close> for values that do not compare.
\<close>

fun time_of :: "cell \<Rightarrow> int" where
  "time_of (PyDatetime t) = t"
| "time_of (PyTimestamp t) = t"
| "time_of x = 0"

definition date_max :: "cell list \<Rightarrow> exn + cell" where
  "date_max s =
     (let present = filter (\<lambda>x. \<not> isna x) s in
      if present = [] then Inr (PyFloat NaN)
      else if list_all is_naive present then Inr (PyDatetime (Max (set (map time_of present))))
      else if list_all is_aware present then Inr (PyTimestamp (Max (set (map time_of present))))
      else Inl TypeError)"

text \<open>\<open>df[df.date == m]\<close>: the rows whose date is \<open>m\<close>; a missing value equals nothing.\<close>

definition rows_with_date :: "cell \<Rightarrow> frame \<Rightarrow> frame" where
  "rows_with_date m df =
     \<lparr>cols = cols df, rws = filter (\<lambda>r. \<not> isna m \<and> cell_of r ''date'' = m) (rws df)\<rparr>"

text \<open>\<open>df.to_csv(filename, index=False)\<close>, \<open>os.remove\<close>, and the overwrite of a layer.\<close>

definition to_csv :: "string \<Rightarrow> frame \<Rightarrow> unit action" where
  "to_csv filename df w = (Inr (), w\<lparr>files := (files w)(filename \<mapsto> df)\<rparr>)"

definition os_remove :: "string \<Rightarrow> unit action" where
  "os_remove filename w =
     (if filename \<in> dom (files w) then (Inr (), w\<lparr>files := (files w)(filename := None)\<rparr>)
      else (Inl OSError, w))"

definition manager_overwrite :: "services \<Rightarrow> string \<Rightarrow> string \<Rightarrow> unit action" where
  "manager_overwrite sv item filename w =
     (case files w filename of
        None \<Rightarrow> (Inl OSError, w)
      | Some data \<Rightarrow>
          (case overwrite_result sv item of
             Inl e \<Rightarrow> (Inl e, w)
           | Inr done \<Rightarrow> (Inr (), if done then w\<lparr>layers := (layers w)(item \<mapsto> data)\<rparr> else w)))"

text \<open>
  \<open>load_jhu_state_time_series\<close>: the series of the master branch, without the county
  rows of the US (a province with a comma), with the three columns renamed, sorted.
  The \<open>str\<close> accessor wants a column that holds strings.
\<close>

definition is_county_row :: "row \<Rightarrow> bool" where
  "is_county_row r =
     (cell_of r ''Country/Region'' = PyStr ''US''
      \<and> (case cell_of r ''Province/State'' of PyStr s \<Rightarrow> CHR '','' \<in> set s | _ \<Rightarrow> False))"

definition str_accessor :: "cell list \<Rightarrow> exn + cell list" where
  "str_accessor s =
     (if s = [] \<or> list_ex (\<lambda>x. case x of PyStr _ \<Rightarrow> True | _ \<Rightarrow> False) s then Inr s
      else Inl AttributeError)"

definition load_jhu_state_time_series :: "services \<Rightarrow> exn + frame" where
  "load_jhu_state_time_series sv =
     bnd (load_jhu_time_series (read_csv sv (CASES_URL ''master''))
            (read_csv sv (DEATHS_URL ''master'')) (read_csv sv (RECOVERED_URL ''master''))) (\<lambda>df.
     bnd (getitem df ''Country/Region'') (\<lambda>country.
     bnd (getitem df ''Province/State'') (\<lambda>province.
     bnd (str_accessor province) (\<lambda>_.
     bnd (sort_values sv [''date'', ''Country/Region'', ''Province/State'']
            (rename_columns [''cases'' \<mapsto> ''number_of_cases'', ''deaths'' \<mapsto> ''number_of_deaths'',
                             ''recovered'' \<mapsto> ''number_of_recovered'']
               \<lparr>cols = cols df, rws = filter (\<lambda>r. \<not> is_county_row r) (rws df)\<rparr>)) (\<lambda>df.
     Inr (reset_index df))))))"

definition load_state_covid_data :: "services \<Rightarrow> unit action" where
  "load_state_covid_data sv =
     seq (lift (arcgis_connection sv)) (\<lambda>arcconnection.
     seq (lift (gis_login sv)) (\<lambda>gis.
     seq (lift (load_jhu_state_time_series sv)) (\<lambda>df.
     seq (to_csv ''/tmp/jhu_covid19_time_series.csv'' df) (\<lambda>_.
     seq (lift (bnd (getattr_col df ''date'') (to_datetime sv))) (\<lambda>dates.
     seq (lift (date_max dates)) (\<lambda>latest.
     seq (to_csv ''/tmp/jhu_covid19_current.csv''
            (rows_with_date latest (set_column ''date'' dates df))) (\<lambda>_.
     seq (lift (content_item sv jhu_time_series_featureid)) (\<lambda>_.
     seq (manager_overwrite sv jhu_time_series_featureid ''/tmp/jhu_covid19_time_series.csv'') (\<lambda>_.
     seq (lift (content_item sv jhu_current_featureid)) (\<lambda>_.
     seq (manager_overwrite sv jhu_current_featureid ''/tmp/jhu_covid19_current.csv'') (\<lambda>_.
     seq (os_remove ''/tmp/jhu_covid19_time_series.csv'') (\<lambda>_.
     os_remove ''/tmp/jhu_covid19_current.csv''))))))))))))"

definition load_county_covid_data :: "pages \<Rightarrow> services \<Rightarrow> unit action" where
  "load_county_covid_data p sv =
     seq (lift (arcgis_connection sv)) (\<lambda>arcconnection.
     seq (lift (gis_login sv)) (\<lambda>gis.
     seq (lift (load_esri_time_series sv)) (\<lambda>prev_data.
     seq (scrape_county_public_health_data p) (\<lambda>county_data.
     seq (lift (merge_county (float_of_str sv) prev_data county_data)) (\<lambda>df.
     seq (ret (assign_scalar ''non_scag_total'' (PyInt 0) (assign_scalar ''ca_total'' (PyInt 0) df))) (\<lambda>df.
     seq (lift (bnd (getitem df ''number_of_cases'') (to_numeric sv))) (\<lambda>cases.
     seq (ret (set_column ''number_of_cases'' cases df)) (\<lambda>df.
     seq (to_csv ''/tmp/covid19_time_series.csv'' df) (\<lambda>_.
     seq (lift (bnd (getattr_col df ''date'') date_max)) (\<lambda>latest.
     seq (to_csv ''/tmp/covid19_current.csv'' (rows_with_date latest df)) (\<lambda>_.
     seq (lift (content_item sv time_series_featureid)) (\<lambda>_.
     seq (manager_overwrite sv time_series_featureid ''/tmp/covid19_time_series.csv'') (\<lambda>_.
     seq (lift (content_item sv current_featureid)) (\<lambda>_.
     seq (manager_overwrite sv current_featureid ''/tmp/covid19_current.csv'') (\<lambda>_.
     seq (os_remove ''/tmp/covid19_time_series.csv'') (\<lambda>_.
     os_remove ''/tmp/covid19_current.csv''))))))))))))))))"


section \<open>References for the error handling\<close>

text \<open>
  The record of a source that succeeded, and nothing for a source that failed; the log
  entries of one source: the announcement, and the warning when it failed.
\<close>

definition succeeded :: "exn + 'a \<Rightarrow> ('a \<Rightarrow> row) \<Rightarrow> row list" where
  "succeeded outcome rec = (case outcome of Inl e \<Rightarrow> [] | Inr v \<Rightarrow> [rec v])"

definition attempt_log :: "exn + 'a \<Rightarrow> string \<Rightarrow> string \<Rightarrow> (level \<times> string) list" where
  "attempt_log outcome info warning =
     (case outcome of Inl e \<Rightarrow> [(Info, info), (Warning, warning)] | Inr v \<Rightarrow> [(Info, info)])"

definition raises_only_Exception :: "exn + 'a \<Rightarrow> bool" where
  "raises_only_Exception outcome = (case outcome of Inl e \<Rightarrow> is_Exception e | Inr v \<Rightarrow> True)"

text \<open>
  What \<open>scrape_county_public_health_data\<close> is to do: one request to every county page,
  in the order of the script; the records of the pages that succeeded; the log.
\<close>

definition county_urls :: "string list" where
  "county_urls = [''http://publichealth.lacounty.gov/media/Coronavirus/'',
      ''http://www.icphd.org/health-information-and-resources/healthy-facts/covid-19/'',
      ''http://www.ochealthinfo.com/phs/about/epidasmt/epi/dip/prevention/novel_coronavirus'',
      ''http://wp.sbcounty.gov/dph/coronavirus/'',
      ''https://www.rivcoph.org/coronavirus'',
      ''https://www.vcemergency.com/'']"

definition scraped_records :: "pages \<Rightarrow> row list" where
  "scraped_records p =
     succeeded (la_county p) (la_county_record p)
     @ succeeded (imperial_county p) (imperial_county_record p)
     @ succeeded (orange_county p) (orange_county_record p)
     @ succeeded (san_bernardino_county p) (san_bernardino_county_record p)
     @ succeeded (riverside_county p) (riverside_county_record p)
     @ succeeded (ventura_county p) (ventura_county_record p)"

definition scrape_log :: "pages \<Rightarrow> (level \<times> string) list" where
  "scrape_log p =
     attempt_log (la_county p) ''Loading data from LA County'' ''Failed to load data from Orange County''
     @ attempt_log (imperial_county p) ''Loading data from Imperial County''
         ''Failed to load data from Orange County''
     @ attempt_log (orange_county p) ''Loading data from Orange County''
         ''Failed to load data from Orange County''
     @ attempt_log (san_bernardino_county p) ''Loading data from San Bernardino County''
         ''Failed to load data from San Bernardino County''
     @ attempt_log (riverside_county p) ''Loading data from Riverside County''
         ''Failed to load data from Riverside County''
     @ attempt_log (ventura_county p) ''Loading data from Ventura County''
         ''Failed to load data from Ventura County''"

definition pages_raise_only_Exception :: "pages \<Rightarrow> bool" where
  "pages_raise_only_Exception p =
     (raises_only_Exception (la_county p) \<and> raises_only_Exception (imperial_county p)
      \<and> raises_only_Exception (orange_county p) \<and> raises_only_Exception (san_bernardino_county p)
      \<and> raises_only_Exception (riverside_county p) \<and> raises_only_Exception (ventura_county p))"


text \<open>An action keeps the store when it leaves the files and the layers as they were.\<close>

definition keeps_store :: "'a action \<Rightarrow> bool" where
  "keeps_store m = (\<forall>w. files (snd (m w)) = files w \<and> layers (snd (m w)) = layers w)"

section \<open>An example run\<close>

text \<open>
  A run for the examples below: three county pages answer and three fail; the county
  layer holds one row and has the columns of the script and the columns \<open>extra\<close>; the
  overwrite of a layer behaves as \<open>ow\<close> says; every JHU file is one small table, and
  \<open>to_datetime\<close> reads its one date.
\<close>

definition example_pages :: pages where
  "example_pages =
     \<lparr>today = 1584342000, la_county = Inl ConnectionError, imperial_county = Inr 4,
      orange_county = Inl AssertionError, san_bernardino_county = Inr 9,
      riverside_county = Inr (Some 14, Some 6, None), ventura_county = Inl IndexError\<rparr>"

definition example_row :: row where
  "example_row =
     [''ObjectId'' \<mapsto> PyInt 1, ''state'' \<mapsto> PyStr ''CA'', ''county'' \<mapsto> PyStr ''Orange'',
      ''date'' \<mapsto> PyDatetime 1584255600, ''cases'' \<mapsto> PyFloat (Finite 17 0),
      ''deaths'' \<mapsto> PyFloat (Finite 0 0), ''ca_total'' \<mapsto> PyInt 0, ''non_scag_total'' \<mapsto> PyInt 0]"

definition example_layer :: "string list \<Rightarrow> frame" where
  "example_layer extra =
     \<lparr>cols = [''ObjectId'', ''SHAPE'', ''state'', ''county'', ''date'', ''latitude'', ''longitude'',
              ''cases'', ''deaths'', ''recovered'', ''travel_based'', ''locally_acquired'',
              ''ca_total'', ''non_scag_total''] @ extra,
      rws = [example_row]\<rparr>"

definition example_jhu :: frame where
  "example_jhu =
     \<lparr>cols = [''Province/State'', ''Country/Region'', ''1/22/20''],
      rws = [[''Province/State'' \<mapsto> PyStr ''Hubei'', ''Country/Region'' \<mapsto> PyStr ''China'',
              ''1/22/20'' \<mapsto> PyInt 444]]\<rparr>"

definition example_services :: "string list \<Rightarrow> (string \<Rightarrow> exn + bool) \<Rightarrow> services" where
  "example_services extra ow =
     \<lparr>arcgis_connection = Inr (''user'', ''secret''), gis_login = Inr (),
      esri_layer = Inr (example_layer extra), content_item = (\<lambda>item. Inr ()), overwrite_result = ow,
      read_csv = (\<lambda>url. Inr example_jhu), float_of_str = (\<lambda>s. Inl ValueError),
      to_numeric = Inr, to_datetime = (\<lambda>s. Inr (map (\<lambda>x. PyDatetime 1579651200) s)),
      sort_values = (\<lambda>by df. Inr df), exn_text = (\<lambda>e. ''error'')\<rparr>"

text \<open>
  An overwrite that answers \<open>first\<close> for the two time-series layers, which each job
  overwrites first, and \<open>second\<close> for the others.
\<close>

definition example_overwrite :: "exn + bool \<Rightarrow> exn + bool \<Rightarrow> string \<Rightarrow> exn + bool" where
  "example_overwrite first second item =
     (if item = time_series_featureid \<or> item = jhu_time_series_featureid then first else second)"

text \<open>What \<open>load_esri_time_series\<close> makes of the example layer.\<close>

definition example_prev :: "string list \<Rightarrow> frame" where
  "example_prev extra =
     \<lparr>cols = [''state'', ''county'', ''date'', ''latitude'', ''longitude'',
              ''cases'', ''deaths'', ''recovered'', ''travel_based'', ''locally_acquired'',
              ''ca_total'', ''non_scag_total''] @ filter (\<lambda>c. c \<notin> set [''ObjectId'', ''SHAPE'']) extra,
      rws = [(example_row |` (- set [''ObjectId'', ''SHAPE'']))(''date'' \<mapsto> PyTimestamp 1584255600)]\<rparr>"

definition empty_world :: world where
  "empty_world = \<lparr>files = Map.empty, layers = Map.empty, requests = [], log = []\<rparr>"

section \<open>The scooter job: set_xcom_variables\<close>












chapter \<open>Properties\<close>

section \<open>parse_columns splits the columns\<close>

lemma endswith_iff: "endswith s suf \<longleftrightarrow> (\<exists>p. s = p @ suf)"
proof
  assume h: "endswith s suf"
  have "s = take (length s - length suf) s @ drop (length s - length suf) s"
    by simp
  with h show "\<exists>p. s = p @ suf"
    unfolding endswith_def by metis
next
  assume "\<exists>p. s = p @ suf"
  then show "endswith s suf"
    by (auto simp: endswith_def)
qed

lemma parse_columns_loop_filter:
  "parse_columns_loop cs ids ds =
     (ids @ filter (\<lambda>c. \<not> endswith c ''20'') cs, ds @ filter (\<lambda>c. endswith c ''20'') cs)"
  by (induction cs arbitrary: ids ds) simp_all

text \<open>
  C10. \<open>parse_columns\<close> splits the column names into \<open>id_vars\<close> and \<open>dates\<close>: both
  keep the order of the columns, together they hold every column as often as the frame
  does, and a column is a date exactly when its name ends with the two characters
  \<open>20\<close>. So a column named \<open>Area20\<close> counts as a date and the date \<open>1/22/21\<close>
  does not.
\<close>

theorem parse_columns_partition:
  "parse_columns df =
     (filter (\<lambda>c. \<not> (\<exists>p. c = p @ ''20'')) (cols df), filter (\<lambda>c. \<exists>p. c = p @ ''20'') (cols df))
   \<and> mset (fst (parse_columns df)) + mset (snd (parse_columns df)) = mset (cols df)
   \<and> set (fst (parse_columns df)) \<inter> set (snd (parse_columns df)) = {}
   \<and> parse_columns \<lparr>cols = [''Area20'', ''1/22/20'', ''Lat'', ''1/22/21''], rws = []\<rparr>
       = ([''Lat'', ''1/22/21''], [''Area20'', ''1/22/20''])"
proof -
  have a: "parse_columns df =
     (filter (\<lambda>c. \<not> endswith c ''20'') (cols df), filter (\<lambda>c. endswith c ''20'') (cols df))"
    by (simp add: parse_columns_def parse_columns_loop_filter)
  have b: "mset (fst (parse_columns df)) + mset (snd (parse_columns df)) = mset (cols df)"
    unfolding a by (induction "cols df") (simp_all add: add.commute)
  have c: "set (fst (parse_columns df)) \<inter> set (snd (parse_columns df)) = {}"
    unfolding a by auto
  have d: "parse_columns \<lparr>cols = [''Area20'', ''1/22/20'', ''Lat'', ''1/22/21''], rws = []\<rparr>
       = ([''Lat'', ''1/22/21''], [''Area20'', ''1/22/20''])"
    by (simp add: parse_columns_def endswith_def)
  from a b c d show ?thesis
    by (simp add: endswith_iff)
qed

section \<open>atoi drops asterisks\<close>

lemma digit_val_Some: "is_digit c \<Longrightarrow> digit_val c = Some (of_char c - 48)"
  by (simp add: is_digit_def digit_val_def Let_def split: if_splits)

lemma digit_not_special:
  assumes "is_digit c"
  shows "c \<noteq> CHR ''*''" "c \<noteq> CHR ''_''" "c \<noteq> CHR ''-''" "c \<noteq> CHR ''+''" "c \<notin> set whitespace"
  using assms by (auto simp: is_digit_def digit_val_def Let_def whitespace_def split: if_splits)

lemma dropWhile_replicate_append:
  "ys \<noteq> [] \<Longrightarrow> \<not> P (hd ys) \<Longrightarrow> (\<And>x. x \<in> set xs \<Longrightarrow> P x) \<Longrightarrow> dropWhile P (xs @ ys) = ys"
  by (cases ys) (simp_all add: dropWhile_append3 dropWhile_append)

lemma strip_unchanged:
  assumes "s \<noteq> []" "hd s \<notin> set chars" "last s \<notin> set chars"
  shows "strip chars s = s"
proof -
  have 1: "lstrip chars s = s"
    using assms by (cases s) (simp_all add: lstrip_def)
  have "rev s \<noteq> []" "hd (rev s) \<notin> set chars"
    using assms by (simp_all add: hd_rev)
  then have "dropWhile (\<lambda>c. c \<in> set chars) (rev s) = rev s"
    by (cases "rev s") simp_all
  then show ?thesis
    by (simp add: strip_def 1 rstrip_def)
qed

lemma strip_asterisks:
  assumes "ds \<noteq> []" "hd ds \<noteq> CHR ''*''" "last ds \<noteq> CHR ''*''"
  shows "strip ''*'' (replicate m (CHR ''*'') @ ds @ replicate n (CHR ''*'')) = ds"
proof -
  have 1: "lstrip ''*'' (replicate m (CHR ''*'') @ ds @ replicate n (CHR ''*'')) = ds @ replicate n (CHR ''*'')"
    unfolding lstrip_def using assms
    by (intro dropWhile_replicate_append) auto
  have "dropWhile (\<lambda>c. c \<in> set ''*'') (replicate n (CHR ''*'') @ rev ds) = rev ds"
    using assms by (intro dropWhile_replicate_append) (auto simp: hd_rev)
  then have 2: "rstrip ''*'' (ds @ replicate n (CHR ''*'')) = ds"
    by (simp add: rstrip_def)
  show ?thesis by (simp add: strip_def 1 2)
qed

lemma replace_absent:
  assumes "old \<noteq> []" "\<not> is_digit (hd old)" "\<forall>c\<in>set s. is_digit c"
  shows "replace old new s = s"
  using assms
proof (induction s)
  case Nil
  then show ?case by simp
next
  case (Cons c s)
  then have "\<not> starts_with old (c # s)"
    by (cases old) auto
  with Cons show ?case by simp
qed

lemma delocalize_digits:
  assumes "thousands_sep conv = [] \<or> \<not> is_digit (hd (thousands_sep conv))"
      and "decimal_point conv = [] \<or> \<not> is_digit (hd (decimal_point conv))"
      and "\<forall>c\<in>set s. is_digit c"
  shows "delocalize conv s = s"
  using assms by (auto simp: delocalize_def Let_def replace_absent)

lemma py_digits_digits:
  "\<forall>c\<in>set s. is_digit c \<Longrightarrow>
   py_digits s acc = Some (foldl (\<lambda>acc c. 10 * acc + (of_char c - 48)) acc s)"
proof (induction s acc rule: py_digits.induct)
  case (1 acc)
  then show ?case by simp
next
  case (2 c acc)
  then show ?case by (simp add: digit_val_Some)
next
  case (3 c d s acc)
  then show ?case
    using digit_not_special(2)[of c] by (simp add: digit_val_Some)
qed

lemma py_int_digits:
  assumes "ds \<noteq> []" "\<forall>c\<in>set ds. is_digit c"
  shows "py_int ds = Inr (int (decimal_value ds))"
proof -
  obtain c t where ds: "ds = c # t" using assms(1) by (cases ds) auto
  have c: "is_digit c" and t: "\<forall>c\<in>set t. is_digit c" using assms(2) ds by auto
  have "hd ds \<notin> set whitespace" "last ds \<notin> set whitespace"
    using assms digit_not_special(5) by (auto simp: ds)
  then have s: "strip whitespace (c # t) = c # t"
    using strip_unchanged[of ds whitespace] assms(1) ds by simp
  have u: "py_unsigned (c # t) = Inr (int (decimal_value (c # t)))"
    using c t by (simp add: py_unsigned_def digit_val_Some py_digits_digits decimal_value_def)
  show ?thesis
    using digit_not_special(3,4)[OF c] by (simp add: py_int_def s u ds)
qed

text \<open>
  C8. A scraped number with asterisks around it parses to the number: for every non-empty
  string of decimal digits with any number of asterisks before and after it, \<open>atoi\<close>
  returns the value of the digits, in the C locale and in every locale whose separators
  do not start with a digit. The input \<open>123*\<close> gives 123.
\<close>

theorem atoi_strips_asterisks:
  assumes "ds \<noteq> []" and "\<forall>c\<in>set ds. is_digit c"
      and "thousands_sep conv = [] \<or> \<not> is_digit (hd (thousands_sep conv))"
      and "decimal_point conv = [] \<or> \<not> is_digit (hd (decimal_point conv))"
  shows "atoi conv (replicate m (CHR ''*'') @ ds @ replicate n (CHR ''*'')) = Inr (int (decimal_value ds))"
proof -
  have "is_digit (hd ds)" "is_digit (last ds)"
    using assms(1,2) by auto
  then have "hd ds \<noteq> CHR ''*''" "last ds \<noteq> CHR ''*''"
    using digit_not_special(1) by auto
  then have "strip ''*'' (replicate m (CHR ''*'') @ ds @ replicate n (CHR ''*'')) = ds"
    using assms(1) by (rule strip_asterisks[rotated])
  then show ?thesis
    using assms by (simp add: atoi_def locale_atoi_def delocalize_digits py_int_digits)
qed

theorem atoi_123_star: "atoi C_locale ''123*'' = Inr 123"
proof -
  have "atoi C_locale (replicate 0 (CHR ''*'') @ ''123'' @ replicate 1 (CHR ''*'')) = Inr (int (decimal_value ''123''))"
    by (rule atoi_strips_asterisks) (simp_all add: is_digit_def digit_val_def C_locale_def)
  then show ?thesis by (simp add: decimal_value_def)
qed

text \<open>
  Only asterisks, and only at the two ends, are dropped. An asterisk between the digits,
  another punctuation mark, or the comma of \<open>1,234\<close> in the C locale (the Riverside
  page's pattern lets commas through) makes \<open>int\<close> raise \<open>ValueError\<close>.
\<close>

theorem atoi_other_punctuation_raises:
  "atoi C_locale ''12*3'' = Inl ValueError
   \<and> atoi C_locale ''123!'' = Inl ValueError
   \<and> atoi C_locale ''123.'' = Inl ValueError
   \<and> atoi C_locale ''1,234'' = Inl ValueError"
  by (simp add: atoi_def locale_atoi_def delocalize_def C_locale_def strip_def lstrip_def rstrip_def
      py_int_def py_unsigned_def digit_val_def whitespace_def Let_def)

section \<open>Helper facts on sequencing and columns\<close>



lemma bnd_Inr_iff: "bnd m f = Inr y \<longleftrightarrow> (\<exists>x. m = Inr x \<and> f x = Inr y)"
  by (cases m) (simp_all add: bnd_def)

lemma traverse_Inr:
  "traverse f xs = Inr ys \<Longrightarrow> list_all2 (\<lambda>x y. f x = Inr y) xs ys"
proof (induction xs arbitrary: ys)
  case Nil
  then show ?case by simp
next
  case (Cons x xs)
  then show ?case
    by (auto simp: bnd_Inr_iff)
qed

lemma cols_set_column_known: "c \<in> set (cols df) \<Longrightarrow> cols (set_column c vs df) = cols df"
  by (simp add: set_column_def)

lemma length_rws_set_column: "length (rws (set_column c vs df)) = length (rws df)"
  by (simp add: set_column_def)

lemma rws_set_column_nth:
  "i < length (rws df) \<Longrightarrow>
   rws (set_column c vs df) ! i = (rws df ! i)(c \<mapsto> (if i < length vs then vs ! i else PyFloat NaN))"
  by (simp add: set_column_def nth_enumerate_eq)

lemma fold_set_column_cols:
  "\<forall>(c, s)\<in>set ncs. c \<in> set (cols df) \<Longrightarrow>
   cols (fold (\<lambda>(c, s'). set_column c s') ncs df) = cols df"
proof (induction ncs arbitrary: df)
  case Nil
  then show ?case by simp
next
  case (Cons a ncs)
  obtain c s where a: "a = (c, s)" by (cases a)
  with Cons.prems have "cols (set_column c s df) = cols df"
    by (simp add: cols_set_column_known)
  with Cons a show ?case by simp
qed

lemma fold_set_column_length:
  "length (rws (fold (\<lambda>(c, s'). set_column c s') ncs df)) = length (rws df)"
  by (induction ncs arbitrary: df) (auto simp: length_rws_set_column)

lemma fold_set_column_other:
  "i < length (rws df) \<Longrightarrow> c \<notin> fst ` set ncs \<Longrightarrow>
   (rws (fold (\<lambda>(c, s'). set_column c s') ncs df) ! i) c = (rws df ! i) c"
proof (induction ncs arbitrary: df)
  case Nil
  then show ?case by simp
next
  case (Cons a ncs)
  obtain c' s where a: "a = (c', s)" by (cases a)
  have "(rws (fold (\<lambda>(c, s'). set_column c s') ncs (set_column c' s df)) ! i) c
        = (rws (set_column c' s df) ! i) c"
    using Cons.prems by (intro Cons.IH) (simp_all add: length_rws_set_column)
  then show ?case
    using Cons.prems a by (simp add: rws_set_column_nth)
qed

lemma fold_set_column_cell:
  "i < length (rws df) \<Longrightarrow> distinct (map fst ncs) \<Longrightarrow> (c, s) \<in> set ncs \<Longrightarrow> i < length s \<Longrightarrow>
   (rws (fold (\<lambda>(c, s'). set_column c s') ncs df) ! i) c = Some (s ! i)"
proof (induction ncs arbitrary: df)
  case Nil
  then show ?case by simp
next
  case (Cons a ncs)
  obtain c' s' where a: "a = (c', s')" by (cases a)
  show ?case
  proof (cases "(c, s) = a")
    case True
    then have "fst a = c" by auto
    then have "c \<notin> fst ` set ncs" using Cons.prems(2) by simp
    then have "(rws (fold (\<lambda>(c, s'). set_column c s') ncs (set_column c s df)) ! i) c
        = (rws (set_column c s df) ! i) c"
      using Cons.prems by (intro fold_set_column_other) (simp_all add: length_rws_set_column)
    then show ?thesis
      using True Cons.prems by (auto simp: rws_set_column_nth)
  next
    case False
    then have "(c, s) \<in> set ncs" using Cons.prems by auto
    then have "(rws (fold (\<lambda>(c, s'). set_column c s') ncs (set_column c' s' df)) ! i) c = Some (s ! i)"
      using Cons.prems by (intro Cons.IH) (simp_all add: length_rws_set_column)
    then show ?thesis by (simp add: a)
  qed
qed

lemma coerce_integer_Inr:
  assumes "coerce_integer fs df = Inr df'"
  shows "cols df' = cols df"
    and "length (rws df') = length (rws df)"
    and "set coerce_cols \<subseteq> set (cols df)"
    and "i < length (rws df) \<Longrightarrow> c \<notin> set coerce_cols \<Longrightarrow> (rws df' ! i) c = (rws df ! i) c"
    and "i < length (rws df) \<Longrightarrow> c \<in> set coerce_cols \<Longrightarrow>
         \<exists>v. (rws df' ! i) c = Some v \<and> integrify fs (cell_of (rws df ! i) c) = Inr v"
proof -
  let ?g = "\<lambda>c. bnd (getitem df c) (\<lambda>s. bnd (traverse (integrify fs) s) (\<lambda>s'. Inr (c, s')))"
  from assms obtain ncs where t: "traverse ?g coerce_cols = Inr ncs"
    and df': "df' = fold (\<lambda>(c, s'). set_column c s') ncs df"
    by (auto simp: coerce_integer_def bnd_Inr_iff)
  have la: "list_all2 (\<lambda>c p. ?g c = Inr p) coerce_cols ncs"
    using traverse_Inr[OF t] .
  have each: "c \<in> set (cols df) \<and> c' = c \<and> length s' = length (rws df)
       \<and> (\<forall>i<length (rws df). integrify fs (cell_of (rws df ! i) c) = Inr (s' ! i))"
    if "?g c = Inr (c', s')" for c c' s'
  proof -
    from that obtain s where g: "getitem df c = Inr s" and tr: "traverse (integrify fs) s = Inr s'"
      and "c' = c"
      by (auto simp: bnd_Inr_iff)
    from g have cin: "c \<in> set (cols df)" and s: "s = map (\<lambda>r. cell_of r c) (rws df)"
      by (auto simp: getitem_def split: if_splits)
    from traverse_Inr[OF tr] have l2: "list_all2 (\<lambda>x y. integrify fs x = Inr y) s s'" .
    then have "length s' = length (rws df)"
      using s by (auto dest: list_all2_lengthD)
    moreover have "\<forall>i<length (rws df). integrify fs (cell_of (rws df ! i) c) = Inr (s' ! i)"
      using l2 s by (auto simp: list_all2_conv_all_nth)
    ultimately show ?thesis using cin \<open>c' = c\<close> by simp
  qed
  have fsts: "map fst ncs = coerce_cols"
  proof (rule nth_equalityI)
    show "length (map fst ncs) = length coerce_cols"
      using la by (auto dest: list_all2_lengthD)
  next
    fix j assume "j < length (map fst ncs)"
    then have j: "j < length coerce_cols" "j < length ncs"
      using la by (auto dest: list_all2_lengthD)
    then have "?g (coerce_cols ! j) = Inr (ncs ! j)"
      using la by (simp add: list_all2_conv_all_nth)
    then have "fst (ncs ! j) = coerce_cols ! j"
      using each[of "coerce_cols ! j" "fst (ncs ! j)" "snd (ncs ! j)"] by simp
    then show "map fst ncs ! j = coerce_cols ! j" using j by simp
  qed
  have mem: "c \<in> set coerce_cols \<and> ?g c = Inr (c, s)" if "(c, s) \<in> set ncs" for c s
  proof -
    from that obtain j where j: "j < length ncs" "ncs ! j = (c, s)"
      by (auto simp: in_set_conv_nth)
    then have "?g (coerce_cols ! j) = Inr (c, s)" "j < length coerce_cols"
      using la by (auto simp: list_all2_conv_all_nth)
    moreover from this have "coerce_cols ! j = c"
      using each[of "coerce_cols ! j" c s] by simp
    ultimately show ?thesis by auto
  qed
  have known: "\<forall>(c, s)\<in>set ncs. c \<in> set (cols df)"
    using mem each by blast
  show "cols df' = cols df"
    unfolding df' using known by (rule fold_set_column_cols)
  show "length (rws df') = length (rws df)"
    unfolding df' by (rule fold_set_column_length)
  show "set coerce_cols \<subseteq> set (cols df)"
  proof
    fix c assume "c \<in> set coerce_cols"
    then have "c \<in> fst ` set ncs" using fsts by (metis set_map)
    then show "c \<in> set (cols df)" using known by auto
  qed
  show "(rws df' ! i) c = (rws df ! i) c" if "i < length (rws df)" "c \<notin> set coerce_cols"
    unfolding df' using that fsts by (intro fold_set_column_other) (auto simp flip: set_map)
  show "\<exists>v. (rws df' ! i) c = Some v \<and> integrify fs (cell_of (rws df ! i) c) = Inr v"
    if "i < length (rws df)" "c \<in> set coerce_cols"
  proof -
    from that(2) fsts have "c \<in> fst ` set ncs" by (metis set_map)
    then obtain s where cs: "(c, s) \<in> set ncs" by auto
    from mem[OF cs] each[of c c s]
    have l: "length s = length (rws df)"
      and v: "integrify fs (cell_of (rws df ! i) c) = Inr (s ! i)"
      using that(1) by auto
    have "distinct (map fst ncs)"
      unfolding fsts by (simp add: coerce_cols_def)
    then have "(rws df' ! i) c = Some (s ! i)"
      unfolding df' using that(1) cs l by (intro fold_set_column_cell) auto
    with v show ?thesis by simp
  qed
qed



section \<open>coerce_integer keeps unknown and zero apart\<close>

lemma bit_length_le: "a < 2 ^ k \<Longrightarrow> bit_length a \<le> k"
proof (induction k arbitrary: a)
  case 0
  then show ?case by (simp add: bit_length.simps)
next
  case (Suc k)
  then have "a div 2 < 2 ^ k" by auto
  then have "bit_length (a div 2) \<le> k" by (rule Suc.IH)
  then show ?case by (subst bit_length.simps) simp
qed

lemma bit_length_double: "0 < n \<Longrightarrow> bit_length (2 * n) = Suc (bit_length n)"
  by (subst bit_length.simps) simp

lemma bit_length_pow: "bit_length (2 ^ k) = Suc k"
proof (induction k)
  case 0
  have "bit_length 1 = Suc (bit_length 0)" by (subst bit_length.simps) simp
  then show ?case by (simp add: bit_length.simps[of 0])
next
  case (Suc k)
  then show ?case by (simp add: bit_length_double)
qed

lemma float_of_int_small: "\<bar>n\<bar> < 2 ^ 53 \<Longrightarrow> float_of_int n = Inr (Finite n 0)"
proof -
  assume "\<bar>n\<bar> < 2 ^ 53"
  then have "nat \<bar>n\<bar> < 2 ^ 53" by (simp add: nat_less_iff)
  then have "bit_length (nat \<bar>n\<bar>) \<le> 53" by (rule bit_length_le)
  then show ?thesis by (simp add: float_of_int_def Let_def)
qed

lemma float_of_int_pow53:
  "float_of_int (2 ^ 53) = Inr (Finite (2 ^ 52) 1)"
  "float_of_int (- (2 ^ 53)) = Inr (Finite (- (2 ^ 52)) 1)"
proof -
  have n: "nat \<bar>2 ^ 53 :: int\<bar> = 2 ^ 53" "nat \<bar>- (2 ^ 53) :: int\<bar> = 2 ^ 53"
    by (simp_all add: nat_power_eq)
  have b: "bit_length (2 ^ 53) = 54" using bit_length_pow[of 53] by simp
  show "float_of_int (2 ^ 53) = Inr (Finite (2 ^ 52) 1)"
    unfolding float_of_int_def n b Let_def by simp
  show "float_of_int (- (2 ^ 53)) = Inr (Finite (- (2 ^ 52)) 1)"
    unfolding float_of_int_def n b Let_def by simp
qed

lemma integrify_int: "\<bar>n\<bar> \<le> 2 ^ 53 \<Longrightarrow> integrify fs (PyInt n) = Inr (PyInt n)"
proof -
  assume "\<bar>n\<bar> \<le> 2 ^ 53"
  then consider "\<bar>n\<bar> < 2 ^ 53" | "n = 2 ^ 53" | "n = - (2 ^ 53)" by linarith
  then show ?thesis
  proof cases
    case 1
    then show ?thesis by (simp add: integrify_def bnd_def float_of_int_small)
  next
    case 2
    then show ?thesis by (simp add: integrify_def bnd_def float_of_int_pow53[simplified])
  next
    case 3
    then show ?thesis by (simp add: integrify_def bnd_def float_of_int_pow53[simplified])
  qed
qed

lemma integrify_None_iff: "integrify fs x = Inr PyNone \<longleftrightarrow> isna x"
  by (auto simp: integrify_def bnd_def split: sum.splits)




section \<open>The merge keeps the last row of every date and county\<close>

lemma keep_last_keys: "set (map k (keep_last k rs)) = set (map k rs)"
  by (induction rs) auto

lemma keep_last_subset: "set (keep_last k rs) \<subseteq> set rs"
  by (induction rs) auto

lemma keep_last_distinct: "distinct (map k (keep_last k rs))"
proof (induction rs)
  case Nil
  then show ?case by simp
next
  case (Cons r rs)
  have "k r \<notin> set (map k (keep_last k rs))" if "k r \<notin> set (map k rs)"
    using that keep_last_keys[of k rs] by simp
  with Cons show ?case by auto
qed

lemma keep_last_index:
  "keep_last k rs =
     map (\<lambda>i. rs ! i) (filter (\<lambda>i. k (rs ! i) \<notin> set (map k (drop (Suc i) rs))) [0..<length rs])"
proof (induction rs)
  case Nil
  then show ?case by simp
next
  case (Cons r rs)
  have up: "[0..<length (r # rs)] = 0 # map Suc [0..<length rs]"
    by (simp add: upt_conv_Cons map_Suc_upt del: upt_Suc)
  have "map (\<lambda>i. (r # rs) ! i)
          (filter (\<lambda>i. k ((r # rs) ! i) \<notin> set (map k (drop (Suc i) (r # rs)))) (map Suc [0..<length rs]))
        = map (\<lambda>i. rs ! i) (filter (\<lambda>i. k (rs ! i) \<notin> set (map k (drop (Suc i) rs))) [0..<length rs])"
    by (simp add: filter_map comp_def)
  with Cons show ?case
    unfolding up by simp
qed

lemma keep_last_append:
  "\<exists>zs. keep_last k (xs @ ys) = zs @ keep_last k ys \<and> set zs \<subseteq> set xs"
proof (induction xs)
  case Nil
  then show ?case by simp
next
  case (Cons x xs)
  then obtain zs where zs: "keep_last k (xs @ ys) = zs @ keep_last k ys" "set zs \<subseteq> set xs"
    by blast
  show ?case
  proof (cases "k x \<in> set (map k (xs @ ys))")
    case True
    with zs show ?thesis by auto
  next
    case False
    then have "keep_last k ((x # xs) @ ys) = (x # zs) @ keep_last k ys"
      using zs by simp
    moreover have "set (x # zs) \<subseteq> set (x # xs)" using zs by auto
    ultimately show ?thesis by blast
  qed
qed

lemma keep_last_later_wins:
  assumes "r \<in> set ys"
  shows "\<exists>r2\<in>set ys. k r2 = k r \<and> r2 \<in> set (keep_last k (xs @ ys))"
proof -
  from assms have "k r \<in> set (map k ys)" by simp
  then have "k r \<in> set (map k (keep_last k ys))"
    by (simp only: keep_last_keys)
  then obtain r2 where r2: "r2 \<in> set (keep_last k ys)" "k r2 = k r"
    by (auto simp: image_iff)
  have sub: "set (keep_last k ys) \<subseteq> set ys" by (rule keep_last_subset)
  from r2(1) sub have in_ys: "r2 \<in> set ys" by (rule subsetD[rotated])
  obtain zs where zs: "keep_last k (xs @ ys) = zs @ keep_last k ys"
    using keep_last_append[of k xs ys] by blast
  from r2(1) have "r2 \<in> set (keep_last k (xs @ ys))"
    unfolding zs by simp
  with in_ys r2(2) show ?thesis by blast
qed

lemma coerced_key: "coerced fs r r' \<Longrightarrow> date_county r' = date_county r"
  by (simp add: coerced_def date_county_def row_key_def cell_of_def coerce_cols_def)

lemma coerce_integer_coerced:
  assumes "coerce_integer fs df = Inr df'"
  shows "list_all2 (coerced fs) (rws df) (rws df')"
  unfolding list_all2_conv_all_nth coerced_def
proof (intro conjI allI impI ballI)
  show "length (rws df) = length (rws df')"
    using coerce_integer_Inr(2)[OF assms] by simp
next
  fix i c assume "i < length (rws df)" "c \<notin> set coerce_cols"
  then show "(rws df' ! i) c = (rws df ! i) c"
    by (rule coerce_integer_Inr(4)[OF assms])
next
  fix i c assume "i < length (rws df)" "c \<in> set coerce_cols"
  from coerce_integer_Inr(5)[OF assms this]
  show "integrify fs (cell_of (rws df ! i) c) = Inr (cell_of (rws df' ! i) c)"
    by (auto simp: cell_of_def)
qed

lemma list_all2_coerced_keys:
  "list_all2 (coerced fs) xs ys \<Longrightarrow> map date_county ys = map date_county xs"
  by (induction rule: list_all2_induct) (simp_all add: coerced_key)

lemma merge_county_Inr:
  assumes "merge_county fs prev_data county_data = Inr df"
  shows "list_all2 (coerced fs) (keep_last date_county (rws prev_data @ rws county_data)) (rws df)"
    and "cols df = cols prev_data @ filter (\<lambda>c. c \<notin> set (cols prev_data)) (cols county_data)"
proof -
  from assms obtain d where d: "drop_duplicates [''date'', ''county''] (append_frame prev_data county_data) = Inr d"
    and c: "coerce_integer fs d = Inr df"
    by (auto simp: merge_county_def bnd_Inr_iff reset_index_def)
  from d have rd: "rws d = keep_last date_county (rws prev_data @ rws county_data)"
    and cd: "cols d = cols prev_data @ filter (\<lambda>c. c \<notin> set (cols prev_data)) (cols county_data)"
    by (auto simp: drop_duplicates_def append_frame_def date_county_def split: if_splits)
  show "list_all2 (coerced fs) (keep_last date_county (rws prev_data @ rws county_data)) (rws df)"
    using coerce_integer_coerced[OF c] rd by simp
  show "cols df = cols prev_data @ filter (\<lambda>c. c \<notin> set (cols prev_data)) (cols county_data)"
    using coerce_integer_Inr(1)[OF c] cd by simp
qed

lemma traverse_total:
  "\<forall>x\<in>set xs. \<exists>y. f x = Inr y \<Longrightarrow> \<exists>ys. traverse f xs = Inr ys"
proof (induction xs)
  case Nil
  then show ?case by simp
next
  case (Cons x xs)
  then obtain y ys where "f x = Inr y" "traverse f xs = Inr ys" by auto
  then show ?case by (simp add: bnd_def)
qed

lemma coerce_integer_total:
  assumes "set coerce_cols \<subseteq> set (cols df)"
      and "\<forall>r\<in>set (rws df). \<forall>c\<in>set coerce_cols. \<exists>v. integrify fs (cell_of r c) = Inr v"
  shows "\<exists>df'. coerce_integer fs df = Inr df'"
proof -
  let ?g = "\<lambda>c. bnd (getitem df c) (\<lambda>s. bnd (traverse (integrify fs) s) (\<lambda>s'. Inr (c, s')))"
  have "\<exists>p. ?g c = Inr p" if c: "c \<in> set coerce_cols" for c
  proof -
    from c assms(1) have g: "getitem df c = Inr (map (\<lambda>r. cell_of r c) (rws df))"
      by (auto simp: getitem_def)
    have "\<forall>x\<in>set (map (\<lambda>r. cell_of r c) (rws df)). \<exists>y. integrify fs x = Inr y"
      using assms(2) c by auto
    then obtain s' where "traverse (integrify fs) (map (\<lambda>r. cell_of r c) (rws df)) = Inr s'"
      using traverse_total by blast
    with g show ?thesis by (simp add: bnd_def)
  qed
  then have "\<forall>c\<in>set coerce_cols. \<exists>p. ?g c = Inr p" by blast
  then obtain ncs where "traverse ?g coerce_cols = Inr ncs"
    using traverse_total[of coerce_cols ?g] by blast
  then show ?thesis by (simp add: coerce_integer_def bnd_def)
qed

text \<open>
  C1. When the merge returns, its rows have pairwise different (date, county) keys, every
  key of the appended rows (history, then scraped) is the key of one of them, and the rows
  are, in order and coerced, exactly the appended rows that no later row shares its key
  with. So for every scraped row the surviving row with its key is a scraped row.
\<close>

theorem merge_county_keeps_last:
  assumes "merge_county fs prev_data county_data = Inr df"
  shows "distinct (map date_county (rws df))
    \<and> set (map date_county (rws df)) = set (map date_county (rws prev_data @ rws county_data))
    \<and> list_all2 (coerced fs)
        (map (\<lambda>i. (rws prev_data @ rws county_data) ! i)
           (filter (\<lambda>i. date_county ((rws prev_data @ rws county_data) ! i)
                          \<notin> set (map date_county (drop (Suc i) (rws prev_data @ rws county_data))))
                   [0..<length (rws prev_data @ rws county_data)]))
        (rws df)
    \<and> (\<forall>r\<in>set (rws county_data). \<exists>r2\<in>set (rws county_data). \<exists>r'\<in>set (rws df).
          date_county r2 = date_county r \<and> coerced fs r2 r')"
proof -
  let ?rs = "rws prev_data @ rws county_data"
  have la: "list_all2 (coerced fs) (keep_last date_county ?rs) (rws df)"
    using merge_county_Inr(1)[OF assms] .
  then have keys: "map date_county (rws df) = map date_county (keep_last date_county ?rs)"
    by (rule list_all2_coerced_keys)
  have 1: "distinct (map date_county (rws df))"
    unfolding keys by (rule keep_last_distinct)
  have 2: "set (map date_county (rws df)) = set (map date_county ?rs)"
    unfolding keys by (rule keep_last_keys)
  have 3: "list_all2 (coerced fs)
        (map (\<lambda>i. ?rs ! i)
           (filter (\<lambda>i. date_county (?rs ! i) \<notin> set (map date_county (drop (Suc i) ?rs)))
                   [0..<length ?rs]))
        (rws df)"
    using la keep_last_index[of date_county ?rs] by simp
  have 4: "\<exists>r2\<in>set (rws county_data). \<exists>r'\<in>set (rws df).
          date_county r2 = date_county r \<and> coerced fs r2 r'" if "r \<in> set (rws county_data)" for r
  proof -
    from keep_last_later_wins[OF that, of date_county "rws prev_data"]
    obtain r2 where r2: "r2 \<in> set (rws county_data)" "date_county r2 = date_county r"
      "r2 \<in> set (keep_last date_county ?rs)" by blast
    from r2(3) obtain i where i: "i < length (keep_last date_county ?rs)"
      "keep_last date_county ?rs ! i = r2"
      by (auto simp: in_set_conv_nth)
    from la i(1) have "i < length (rws df)"
      by (simp add: list_all2_lengthD)
    moreover from la i have "coerced fs r2 (rws df ! i)"
      by (auto simp: list_all2_conv_all_nth)
    ultimately have "rws df ! i \<in> set (rws df)" "coerced fs r2 (rws df ! i)"
      by simp_all
    with r2 show ?thesis by blast
  qed
  from 1 2 3 4 show ?thesis by blast
qed


theorem merge_county_keeps_last_witness:
  "\<exists>df. merge_county (\<lambda>s. Inl ValueError)
          \<lparr>cols = columns,
           rws = [[''county'' \<mapsto> PyStr ''Orange'', ''date'' \<mapsto> PyTimestamp 1584342000, ''cases'' \<mapsto> PyFloat (Finite 17 0)],
                  [''county'' \<mapsto> PyStr ''Ventura'', ''date'' \<mapsto> PyTimestamp 1584342000, ''cases'' \<mapsto> PyFloat (Finite 5 0)]]\<rparr>
          \<lparr>cols = columns,
           rws = [[''county'' \<mapsto> PyStr ''Orange'', ''date'' \<mapsto> PyTimestamp 1584342000, ''cases'' \<mapsto> PyInt 22]]\<rparr> = Inr df
     \<and> distinct (map date_county (rws df))
     \<and> map (\<lambda>r. (cell_of r ''county'', cell_of r ''cases'', cell_of r ''deaths'')) (rws df)
         = [(PyStr ''Ventura'', PyInt 5, PyNone), (PyStr ''Orange'', PyInt 22, PyNone)]"
proof -
  define rO :: row where "rO = [''county'' \<mapsto> PyStr ''Orange'', ''date'' \<mapsto> PyTimestamp 1584342000, ''cases'' \<mapsto> PyFloat (Finite 17 0)]"
  define rV :: row where "rV = [''county'' \<mapsto> PyStr ''Ventura'', ''date'' \<mapsto> PyTimestamp 1584342000, ''cases'' \<mapsto> PyFloat (Finite 5 0)]"
  define rN :: row where "rN = [''county'' \<mapsto> PyStr ''Orange'', ''date'' \<mapsto> PyTimestamp 1584342000, ''cases'' \<mapsto> PyInt 22]"
  define fs :: "string \<Rightarrow> exn + pyfloat" where "fs = (\<lambda>s. Inl ValueError)"
  have kO: "date_county rO = [PyTimestamp 1584342000, PyStr ''Orange'']"
    and kV: "date_county rV = [PyTimestamp 1584342000, PyStr ''Ventura'']"
    and kN: "date_county rN = [PyTimestamp 1584342000, PyStr ''Orange'']"
    by (simp_all add: date_county_def row_key_def cell_of_def rO_def rV_def rN_def)
  have kl: "keep_last date_county ([rO, rV] @ [rN]) = [rV, rN]"
    by (simp add: kO kV kN)
  have sub: "set [''date'', ''county''] \<subseteq> set columns" "set coerce_cols \<subseteq> set columns"
    by (simp_all add: columns_def coerce_cols_def)
  have dd: "drop_duplicates [''date'', ''county'']
              (append_frame \<lparr>cols = columns, rws = [rO, rV]\<rparr> \<lparr>cols = columns, rws = [rN]\<rparr>)
            = Inr \<lparr>cols = columns, rws = [rV, rN]\<rparr>"
    unfolding drop_duplicates_def append_frame_def using sub(1) kl
    by (simp add: date_county_def)
  have cV: "cell_of rV ''cases'' = PyFloat (Finite 5 0)" "cell_of rV ''deaths'' = PyFloat NaN"
      "cell_of rV ''county'' = PyStr ''Ventura''"
    and cN: "cell_of rN ''cases'' = PyInt 22" "cell_of rN ''deaths'' = PyFloat NaN"
      "cell_of rN ''county'' = PyStr ''Orange''"
    by (simp_all add: cell_of_def rV_def rN_def)
  have iv: "integrify fs (PyFloat (Finite 5 0)) = Inr (PyInt 5)" "integrify fs (PyInt 22) = Inr (PyInt 22)"
      "integrify fs (PyFloat NaN) = Inr PyNone"
    by (simp_all add: integrify_def bnd_def float_of_int_small)
  have ok: "\<exists>v. integrify fs (cell_of r c) = Inr v" if "r = rV \<or> r = rN" "c \<in> set coerce_cols" for r c
  proof -
    have "cell_of r c = PyFloat NaN \<or> cell_of r c = PyFloat (Finite 5 0) \<or> cell_of r c = PyInt 22"
      using that by (auto simp: coerce_cols_def cell_of_def rV_def rN_def)
    then show ?thesis using iv by auto
  qed
  have "\<exists>df'. coerce_integer fs \<lparr>cols = columns, rws = [rV, rN]\<rparr> = Inr df'"
    by (rule coerce_integer_total) (use sub(2) ok in auto)
  then obtain df where co: "coerce_integer fs \<lparr>cols = columns, rws = [rV, rN]\<rparr> = Inr df" ..
  have m: "merge_county fs \<lparr>cols = columns, rws = [rO, rV]\<rparr> \<lparr>cols = columns, rws = [rN]\<rparr> = Inr df"
    by (simp add: merge_county_def dd bnd_def reset_index_def co)
  from merge_county_keeps_last[OF m] have di: "distinct (map date_county (rws df))" by blast
  from merge_county_Inr(1)[OF m] kl have "list_all2 (coerced fs) [rV, rN] (rws df)" by simp
  then obtain a b where ab: "rws df = [a, b]" "coerced fs rV a" "coerced fs rN b"
    by (auto simp: list_all2_Cons1)
  have cc: "''cases'' \<in> set coerce_cols" "''deaths'' \<in> set coerce_cols" "''county'' \<notin> set coerce_cols"
    by (simp_all add: coerce_cols_def)
  have a: "cell_of a ''cases'' = PyInt 5" "cell_of a ''deaths'' = PyNone" "cell_of a ''county'' = PyStr ''Ventura''"
    using ab(2) cc cV iv by (auto simp: coerced_def cell_of_def)
  have b: "cell_of b ''cases'' = PyInt 22" "cell_of b ''deaths'' = PyNone" "cell_of b ''county'' = PyStr ''Orange''"
    using ab(3) cc cN iv by (auto simp: coerced_def cell_of_def)
  from m di ab(1) a b show ?thesis
    unfolding rO_def rV_def rN_def fs_def by simp
qed

text \<open>
  The key is the date and the county name; the state is no part of it. A history row
  of Orange County in Florida and a scraped row of Orange County in California, of
  one date, are one key: only the scraped row stays, and the merged table has no row
  for the date and the county of Florida.
\<close>

theorem merge_county_ignores_the_state:
  "\<exists>df. merge_county (\<lambda>s. Inl ValueError)
          \<lparr>cols = columns,
           rws = [[''state'' \<mapsto> PyStr ''FL'', ''county'' \<mapsto> PyStr ''Orange'',
                   ''date'' \<mapsto> PyTimestamp 1584342000, ''cases'' \<mapsto> PyInt 3]]\<rparr>
          \<lparr>cols = columns,
           rws = [[''state'' \<mapsto> PyStr ''CA'', ''county'' \<mapsto> PyStr ''Orange'',
                   ''date'' \<mapsto> PyTimestamp 1584342000, ''cases'' \<mapsto> PyInt 22]]\<rparr> = Inr df
     \<and> map (\<lambda>r. (cell_of r ''date'', cell_of r ''state'', cell_of r ''county'', cell_of r ''cases'')) (rws df)
         = [(PyTimestamp 1584342000, PyStr ''CA'', PyStr ''Orange'', PyInt 22)]"
proof -
  define rF :: row where "rF = [''state'' \<mapsto> PyStr ''FL'', ''county'' \<mapsto> PyStr ''Orange'',
                   ''date'' \<mapsto> PyTimestamp 1584342000, ''cases'' \<mapsto> PyInt 3]"
  define rC :: row where "rC = [''state'' \<mapsto> PyStr ''CA'', ''county'' \<mapsto> PyStr ''Orange'',
                   ''date'' \<mapsto> PyTimestamp 1584342000, ''cases'' \<mapsto> PyInt 22]"
  define fs :: "string \<Rightarrow> exn + pyfloat" where "fs = (\<lambda>s. Inl ValueError)"
  have kF: "date_county rF = [PyTimestamp 1584342000, PyStr ''Orange'']"
    and kC: "date_county rC = [PyTimestamp 1584342000, PyStr ''Orange'']"
    by (simp_all add: date_county_def row_key_def cell_of_def rF_def rC_def)
  have kl: "keep_last date_county ([rF] @ [rC]) = [rC]"
    by (simp add: kF kC)
  have sub: "set [''date'', ''county''] \<subseteq> set columns" "set coerce_cols \<subseteq> set columns"
    by (simp_all add: columns_def coerce_cols_def)
  have dd: "drop_duplicates [''date'', ''county'']
              (append_frame \<lparr>cols = columns, rws = [rF]\<rparr> \<lparr>cols = columns, rws = [rC]\<rparr>)
            = Inr \<lparr>cols = columns, rws = [rC]\<rparr>"
    unfolding drop_duplicates_def append_frame_def using sub(1) kl
    by (simp add: date_county_def)
  have cC: "cell_of rC ''cases'' = PyInt 22" "cell_of rC ''state'' = PyStr ''CA''"
      "cell_of rC ''county'' = PyStr ''Orange''" "cell_of rC ''date'' = PyTimestamp 1584342000"
    by (simp_all add: cell_of_def rC_def)
  have iv: "integrify fs (PyInt 22) = Inr (PyInt 22)" "integrify fs (PyFloat NaN) = Inr PyNone"
    by (simp_all add: integrify_def bnd_def float_of_int_small)
  have ok: "\<exists>v. integrify fs (cell_of r c) = Inr v" if "r = rC" "c \<in> set coerce_cols" for r c
  proof -
    have "cell_of r c = PyFloat NaN \<or> cell_of r c = PyInt 22"
      using that by (auto simp: coerce_cols_def cell_of_def rC_def)
    then show ?thesis using iv by auto
  qed
  have "\<exists>df'. coerce_integer fs \<lparr>cols = columns, rws = [rC]\<rparr> = Inr df'"
    by (rule coerce_integer_total) (use sub(2) ok in auto)
  then obtain df where co: "coerce_integer fs \<lparr>cols = columns, rws = [rC]\<rparr> = Inr df" ..
  have m: "merge_county fs \<lparr>cols = columns, rws = [rF]\<rparr> \<lparr>cols = columns, rws = [rC]\<rparr> = Inr df"
    by (simp add: merge_county_def dd bnd_def reset_index_def co)
  from merge_county_Inr(1)[OF m] kl have "list_all2 (coerced fs) [rC] (rws df)" by simp
  then obtain b where ab: "rws df = [b]" "coerced fs rC b"
    by (auto simp: list_all2_Cons1)
  have cc: "''cases'' \<in> set coerce_cols" "''state'' \<notin> set coerce_cols" "''county'' \<notin> set coerce_cols"
    "''date'' \<notin> set coerce_cols"
    by (simp_all add: coerce_cols_def)
  have b: "cell_of b ''cases'' = PyInt 22" "cell_of b ''state'' = PyStr ''CA''"
    "cell_of b ''county'' = PyStr ''Orange''" "cell_of b ''date'' = PyTimestamp 1584342000"
    using ab(2) cc cC iv by (auto simp: coerced_def cell_of_def)
  from m ab(1) b show ?thesis
    unfolding rF_def rC_def fs_def by simp
qed

section \<open>The positional join of load_jhu_time_series\<close>

lemma concat_uniform_length:
  "\<forall>xs\<in>set xss. length xs = n \<Longrightarrow> length (concat xss) = length xss * n"
  by (induction xss) simp_all

lemma concat_uniform_nth:
  "\<forall>xs\<in>set xss. length xs = n \<Longrightarrow> j < length xss \<Longrightarrow> i < n \<Longrightarrow>
   concat xss ! (j * n + i) = xss ! j ! i"
proof (induction xss arbitrary: j)
  case Nil
  then show ?case by simp
next
  case (Cons xs xss)
  show ?case
  proof (cases j)
    case 0
    with Cons.prems show ?thesis by (simp add: nth_append)
  next
    case (Suc j')
    with Cons.prems have "concat xss ! (j' * n + i) = xss ! j' ! i"
      by (intro Cons.IH) auto
    moreover have "length xs = n" using Cons.prems by simp
    ultimately show ?thesis using Suc by (simp add: nth_append)
  qed
qed

lemma parse_columns_subset:
  "set (fst (parse_columns df)) \<subseteq> set (cols df)" "set (snd (parse_columns df)) \<subseteq> set (cols df)"
  by (auto simp: parse_columns_def parse_columns_loop_filter)

lemma melt_Inr:
  assumes "set id_vars \<union> set value_vars \<subseteq> set (cols fr)"
  shows "\<exists>m. melt fr id_vars value_vars var_name value_name = Inr m
     \<and> cols m = id_vars @ [var_name, value_name]
     \<and> length (rws m) = length value_vars * length (rws fr)
     \<and> (\<forall>j<length value_vars. \<forall>i<length (rws fr).
          rws m ! (j * length (rws fr) + i)
          = ((rws fr ! i) |` set id_vars)(var_name \<mapsto> PyStr (value_vars ! j),
                                           value_name \<mapsto> cell_of (rws fr ! i) (value_vars ! j)))"
proof -
  let ?f = "\<lambda>v. map (\<lambda>r. (r |` set id_vars)(var_name \<mapsto> PyStr v, value_name \<mapsto> cell_of r v)) (rws fr)"
  let ?xss = "map ?f value_vars"
  have u: "\<forall>xs\<in>set ?xss. length xs = length (rws fr)" by auto
  have l: "length (concat ?xss) = length value_vars * length (rws fr)"
    using concat_uniform_length[OF u] by simp
  have n: "concat ?xss ! (j * length (rws fr) + i)
      = ((rws fr ! i) |` set id_vars)(var_name \<mapsto> PyStr (value_vars ! j),
                                       value_name \<mapsto> cell_of (rws fr ! i) (value_vars ! j))"
    if "j < length value_vars" "i < length (rws fr)" for i j
    using concat_uniform_nth[OF u, of j i] that by simp
  show ?thesis
    using assms l n by (simp add: melt_def)
qed

lemma getattr_col_Inr:
  "c \<in> set (cols df) \<Longrightarrow> getattr_col df c = Inr (map (\<lambda>r. cell_of r c) (rws df))"
  by (simp add: getattr_col_def getitem_def)


text \<open>
  C5. Let the three tables list the same date columns in the same order (the date columns
  of the deaths table are those of the cases table, and the recovered table has the
  columns of the deaths table) and the same regions row by row. Then
  \<open>load_jhu_time_series\<close> returns, for the \<open>j\<close>-th date column and the \<open>i\<close>-th
  row, one row, at position \<open>j * n + i\<close>, that holds the date, the identifying cells of
  the cases row, and the cases, deaths and recovered cells that the three tables have
  for that row and that date.
\<close>

theorem load_jhu_time_series_aligned:
  assumes dates: "snd (parse_columns deaths) = snd (parse_columns cases)"
      and sub: "set (cols deaths) \<subseteq> set (cols recovered)"
      and kd: "map (region_key (fst (parse_columns cases))) (rws deaths)
               = map (region_key (fst (parse_columns cases))) (rws cases)"
      and kr: "map (region_key (fst (parse_columns cases))) (rws recovered)
               = map (region_key (fst (parse_columns cases))) (rws cases)"
  shows "\<exists>df. load_jhu_time_series (Inr cases) (Inr deaths) (Inr recovered) = Inr df
     \<and> length (rws df) = length (snd (parse_columns cases)) * length (rws cases)
     \<and> (\<forall>j<length (snd (parse_columns cases)). \<forall>i<length (rws cases).
          (rws df ! (j * length (rws cases) + i)) ''date'' = Some (PyStr (snd (parse_columns cases) ! j))
        \<and> (rws df ! (j * length (rws cases) + i)) ''cases''
            = Some (cell_of (rws cases ! i) (snd (parse_columns cases) ! j))
        \<and> (rws df ! (j * length (rws cases) + i)) ''deaths''
            = Some (cell_of (rws deaths ! i) (snd (parse_columns cases) ! j))
        \<and> (rws df ! (j * length (rws cases) + i)) ''recovered''
            = Some (cell_of (rws recovered ! i) (snd (parse_columns cases) ! j))
        \<and> region_key (fst (parse_columns cases)) (rws deaths ! i)
            = region_key (fst (parse_columns cases)) (rws cases ! i)
        \<and> region_key (fst (parse_columns cases)) (rws recovered ! i)
            = region_key (fst (parse_columns cases)) (rws cases ! i)
        \<and> (\<forall>c\<in>set (fst (parse_columns cases)).
              c \<notin> {''date'', ''cases'', ''deaths'', ''recovered''} \<longrightarrow>
              (rws df ! (j * length (rws cases) + i)) c = (rws cases ! i) c))"
proof -
  define ids where "ids = fst (parse_columns cases)"
  define ds where "ds = snd (parse_columns cases)"
  define ids' where "ids' = fst (parse_columns deaths)"
  define n where "n = length (rws cases)"
  have pc: "parse_columns cases = (ids, ds)" "parse_columns deaths = (ids', ds)"
    using dates by (simp_all add: ids_def ds_def ids'_def prod_eq_iff)
  have ld: "length (rws deaths) = n" and lr: "length (rws recovered) = n"
    using kd kr unfolding n_def by (metis length_map)+
  have s1: "set ids \<union> set ds \<subseteq> set (cols cases)"
    using parse_columns_subset[of cases] by (simp add: ids_def ds_def)
  have s2: "set ids' \<union> set ds \<subseteq> set (cols deaths)"
    using parse_columns_subset[of deaths] dates by (simp add: ids'_def ds_def)
  have s3: "set ids' \<union> set ds \<subseteq> set (cols recovered)"
    using s2 sub by blast
  from melt_Inr[OF s1, of "''date''" "''cases''"] obtain df0 where
    m1: "melt cases ids ds ''date'' ''cases'' = Inr df0"
    and l1: "length (rws df0) = length ds * n"
    and r1: "\<And>j i. j < length ds \<Longrightarrow> i < n \<Longrightarrow>
          rws df0 ! (j * n + i)
          = ((rws cases ! i) |` set ids)(''date'' \<mapsto> PyStr (ds ! j), ''cases'' \<mapsto> cell_of (rws cases ! i) (ds ! j))"
    unfolding n_def by blast
  from melt_Inr[OF s2, of "''variable''" "''deaths''"] obtain dm where
    m2: "melt deaths ids' ds ''variable'' ''deaths'' = Inr dm"
    and c2: "cols dm = ids' @ [''variable'', ''deaths'']"
    and l2: "length (rws dm) = length ds * n"
    and r2: "\<And>j i. j < length ds \<Longrightarrow> i < n \<Longrightarrow>
          rws dm ! (j * n + i)
          = ((rws deaths ! i) |` set ids')(''variable'' \<mapsto> PyStr (ds ! j), ''deaths'' \<mapsto> cell_of (rws deaths ! i) (ds ! j))"
    unfolding ld by blast
  from melt_Inr[OF s3, of "''variable''" "''recovered''"] obtain rm where
    m3: "melt recovered ids' ds ''variable'' ''recovered'' = Inr rm"
    and c3: "cols rm = ids' @ [''variable'', ''recovered'']"
    and l3: "length (rws rm) = length ds * n"
    and r3: "\<And>j i. j < length ds \<Longrightarrow> i < n \<Longrightarrow>
          rws rm ! (j * n + i)
          = ((rws recovered ! i) |` set ids')(''variable'' \<mapsto> PyStr (ds ! j), ''recovered'' \<mapsto> cell_of (rws recovered ! i) (ds ! j))"
    unfolding lr by blast
  define dcol where "dcol = map (\<lambda>r. cell_of r ''deaths'') (rws dm)"
  define rcol where "rcol = map (\<lambda>r. cell_of r ''recovered'') (rws rm)"
  have g2: "getattr_col dm ''deaths'' = Inr dcol"
    unfolding dcol_def by (rule getattr_col_Inr) (simp add: c2)
  have g3: "getattr_col rm ''recovered'' = Inr rcol"
    unfolding rcol_def by (rule getattr_col_Inr) (simp add: c3)
  define df where "df = set_column ''recovered'' rcol (set_column ''deaths'' dcol df0)"
  have run: "load_jhu_time_series (Inr cases) (Inr deaths) (Inr recovered) = Inr df"
    by (simp add: load_jhu_time_series_def bnd_def pc m1 m2 m3 g2 g3 df_def)
  have len: "length (rws df) = length ds * n"
    by (simp add: df_def length_rws_set_column l1)
  have idx: "j * n + i < length ds * n" if "j < length ds" "i < n" for i j
  proof -
    have "j * n + i < j * n + n" using that by simp
    also have "\<dots> = Suc j * n" by simp
    also have "\<dots> \<le> length ds * n" using that by (intro mult_le_mono1) simp
    finally show ?thesis .
  qed
  have row: "rws df ! (j * n + i)
      = ((rws cases ! i) |` set ids)(''date'' \<mapsto> PyStr (ds ! j),
           ''cases'' \<mapsto> cell_of (rws cases ! i) (ds ! j),
           ''deaths'' \<mapsto> cell_of (rws deaths ! i) (ds ! j),
           ''recovered'' \<mapsto> cell_of (rws recovered ! i) (ds ! j))"
    if "j < length ds" "i < n" for i j
  proof -
    have k: "j * n + i < length ds * n" using that by (rule idx)
    have d: "dcol ! (j * n + i) = cell_of (rws deaths ! i) (ds ! j)"
      using k that by (simp add: dcol_def l2 r2 cell_of_def)
    have r: "rcol ! (j * n + i) = cell_of (rws recovered ! i) (ds ! j)"
      using k that by (simp add: rcol_def l3 r3 cell_of_def)
    have "rws df ! (j * n + i)
        = (rws df0 ! (j * n + i))(''deaths'' \<mapsto> dcol ! (j * n + i), ''recovered'' \<mapsto> rcol ! (j * n + i))"
      using k by (simp add: df_def rws_set_column_nth length_rws_set_column l1 dcol_def rcol_def l2 l3)
    then show ?thesis
      using that by (simp add: r1 d r)
  qed
  have keys: "region_key ids (rws deaths ! i) = region_key ids (rws cases ! i)"
             "region_key ids (rws recovered ! i) = region_key ids (rws cases ! i)" if "i < n" for i
  proof -
    have "map (region_key ids) (rws deaths) ! i = map (region_key ids) (rws cases) ! i"
      using kd by (simp add: ids_def)
    then show "region_key ids (rws deaths ! i) = region_key ids (rws cases ! i)"
      using that ld by (simp add: n_def)
    have "map (region_key ids) (rws recovered) ! i = map (region_key ids) (rws cases) ! i"
      using kr by (simp add: ids_def)
    then show "region_key ids (rws recovered ! i) = region_key ids (rws cases ! i)"
      using that lr by (simp add: n_def)
  qed
  have "\<forall>j<length ds. \<forall>i<n.
          (rws df ! (j * n + i)) ''date'' = Some (PyStr (ds ! j))
        \<and> (rws df ! (j * n + i)) ''cases'' = Some (cell_of (rws cases ! i) (ds ! j))
        \<and> (rws df ! (j * n + i)) ''deaths'' = Some (cell_of (rws deaths ! i) (ds ! j))
        \<and> (rws df ! (j * n + i)) ''recovered'' = Some (cell_of (rws recovered ! i) (ds ! j))
        \<and> region_key ids (rws deaths ! i) = region_key ids (rws cases ! i)
        \<and> region_key ids (rws recovered ! i) = region_key ids (rws cases ! i)
        \<and> (\<forall>c\<in>set ids. c \<notin> {''date'', ''cases'', ''deaths'', ''recovered''} \<longrightarrow>
              (rws df ! (j * n + i)) c = (rws cases ! i) c)"
    using keys by (simp add: row)
  with run len show ?thesis
    unfolding ids_def ds_def n_def by blast
qed


theorem load_jhu_time_series_aligned_witness:
  "\<exists>df. load_jhu_time_series
        (Inr \<lparr>cols = [''Province/State'', ''1/22/20'', ''1/23/20''],
          rws = [[''Province/State'' \<mapsto> PyStr ''Hubei'', ''1/22/20'' \<mapsto> PyInt 444, ''1/23/20'' \<mapsto> PyInt 445]]\<rparr>)
        (Inr \<lparr>cols = [''Province/State'', ''1/22/20'', ''1/23/20''],
          rws = [[''Province/State'' \<mapsto> PyStr ''Hubei'', ''1/22/20'' \<mapsto> PyInt 17, ''1/23/20'' \<mapsto> PyInt 18]]\<rparr>)
        (Inr \<lparr>cols = [''Province/State'', ''1/22/20'', ''1/23/20''],
          rws = [[''Province/State'' \<mapsto> PyStr ''Hubei'', ''1/22/20'' \<mapsto> PyInt 28, ''1/23/20'' \<mapsto> PyInt 30]]\<rparr>)
       = Inr df
     \<and> length (rws df) = 2
     \<and> map (\<lambda>r. (r ''Province/State'', r ''date'', r ''cases'', r ''deaths'', r ''recovered''))
         [rws df ! 0, rws df ! 1]
       = [(Some (PyStr ''Hubei''), Some (PyStr ''1/22/20''), Some (PyInt 444), Some (PyInt 17), Some (PyInt 28)),
          (Some (PyStr ''Hubei''), Some (PyStr ''1/23/20''), Some (PyInt 445), Some (PyInt 18), Some (PyInt 30))]"
proof -
  define A where "A = \<lparr>cols = [''Province/State'', ''1/22/20'', ''1/23/20''],
          rws = [[''Province/State'' \<mapsto> PyStr ''Hubei'', ''1/22/20'' \<mapsto> PyInt 444, ''1/23/20'' \<mapsto> PyInt 445]]\<rparr>"
  define B where "B = \<lparr>cols = [''Province/State'', ''1/22/20'', ''1/23/20''],
          rws = [[''Province/State'' \<mapsto> PyStr ''Hubei'', ''1/22/20'' \<mapsto> PyInt 17, ''1/23/20'' \<mapsto> PyInt 18]]\<rparr>"
  define C where "C = \<lparr>cols = [''Province/State'', ''1/22/20'', ''1/23/20''],
          rws = [[''Province/State'' \<mapsto> PyStr ''Hubei'', ''1/22/20'' \<mapsto> PyInt 28, ''1/23/20'' \<mapsto> PyInt 30]]\<rparr>"
  have pc: "parse_columns A = ([''Province/State''], [''1/22/20'', ''1/23/20''])"
    "parse_columns B = ([''Province/State''], [''1/22/20'', ''1/23/20''])"
    by (simp_all add: A_def B_def parse_columns_def endswith_def)
  have rw: "rws A = [[''Province/State'' \<mapsto> PyStr ''Hubei'', ''1/22/20'' \<mapsto> PyInt 444, ''1/23/20'' \<mapsto> PyInt 445]]"
    "rws B = [[''Province/State'' \<mapsto> PyStr ''Hubei'', ''1/22/20'' \<mapsto> PyInt 17, ''1/23/20'' \<mapsto> PyInt 18]]"
    "rws C = [[''Province/State'' \<mapsto> PyStr ''Hubei'', ''1/22/20'' \<mapsto> PyInt 28, ''1/23/20'' \<mapsto> PyInt 30]]"
    "cols B = cols C"
    by (simp_all add: A_def B_def C_def)
  have h: "snd (parse_columns B) = snd (parse_columns A)" "set (cols B) \<subseteq> set (cols C)"
    "map (region_key (fst (parse_columns A))) (rws B) = map (region_key (fst (parse_columns A))) (rws A)"
    "map (region_key (fst (parse_columns A))) (rws C) = map (region_key (fst (parse_columns A))) (rws A)"
    by (simp_all add: pc rw region_key_def cell_of_def)
  from load_jhu_time_series_aligned[OF h] obtain df where
    run: "load_jhu_time_series (Inr A) (Inr B) (Inr C) = Inr df"
    and len: "length (rws df) = 2"
    and rows: "\<And>j i. j < 2 \<Longrightarrow> i < 1 \<Longrightarrow>
          (rws df ! (j * 1 + i)) ''date'' = Some (PyStr ([''1/22/20'', ''1/23/20''] ! j))
        \<and> (rws df ! (j * 1 + i)) ''cases'' = Some (cell_of (rws A ! i) ([''1/22/20'', ''1/23/20''] ! j))
        \<and> (rws df ! (j * 1 + i)) ''deaths'' = Some (cell_of (rws B ! i) ([''1/22/20'', ''1/23/20''] ! j))
        \<and> (rws df ! (j * 1 + i)) ''recovered'' = Some (cell_of (rws C ! i) ([''1/22/20'', ''1/23/20''] ! j))
        \<and> (\<forall>c\<in>set [''Province/State'']. c \<notin> {''date'', ''cases'', ''deaths'', ''recovered''} \<longrightarrow>
              (rws df ! (j * 1 + i)) c = (rws A ! i) c)"
    unfolding pc fst_conv snd_conv by (auto simp: rw(1))
  from rows[of 0 0] rows[of 1 0] run len show ?thesis
    unfolding A_def B_def C_def by (simp add: cell_of_def)
qed

text \<open>
  The same key sets and the same row order are not enough: when the deaths table lists
  the same date columns in another order, the row of a date takes the deaths and
  recovered values of another date.
\<close>

theorem load_jhu_time_series_misaligned:
  "fst (parse_columns \<lparr>cols = [''Province/State'', ''1/22/20'', ''1/23/20''],
          rws = [[''Province/State'' \<mapsto> PyStr ''Hubei'', ''1/22/20'' \<mapsto> PyInt 444, ''1/23/20'' \<mapsto> PyInt 445]]\<rparr>)
   = fst (parse_columns \<lparr>cols = [''Province/State'', ''1/23/20'', ''1/22/20''],
          rws = [[''Province/State'' \<mapsto> PyStr ''Hubei'', ''1/22/20'' \<mapsto> PyInt 17, ''1/23/20'' \<mapsto> PyInt 18]]\<rparr>)
   \<and> set (snd (parse_columns \<lparr>cols = [''Province/State'', ''1/22/20'', ''1/23/20''],
          rws = [[''Province/State'' \<mapsto> PyStr ''Hubei'', ''1/22/20'' \<mapsto> PyInt 444, ''1/23/20'' \<mapsto> PyInt 445]]\<rparr>))
   = set (snd (parse_columns \<lparr>cols = [''Province/State'', ''1/23/20'', ''1/22/20''],
          rws = [[''Province/State'' \<mapsto> PyStr ''Hubei'', ''1/22/20'' \<mapsto> PyInt 17, ''1/23/20'' \<mapsto> PyInt 18]]\<rparr>))
   \<and> \<not> isl (load_jhu_time_series
        (Inr \<lparr>cols = [''Province/State'', ''1/22/20'', ''1/23/20''],
          rws = [[''Province/State'' \<mapsto> PyStr ''Hubei'', ''1/22/20'' \<mapsto> PyInt 444, ''1/23/20'' \<mapsto> PyInt 445]]\<rparr>)
        (Inr \<lparr>cols = [''Province/State'', ''1/23/20'', ''1/22/20''],
          rws = [[''Province/State'' \<mapsto> PyStr ''Hubei'', ''1/22/20'' \<mapsto> PyInt 17, ''1/23/20'' \<mapsto> PyInt 18]]\<rparr>)
        (Inr \<lparr>cols = [''Province/State'', ''1/23/20'', ''1/22/20''],
          rws = [[''Province/State'' \<mapsto> PyStr ''Hubei'', ''1/22/20'' \<mapsto> PyInt 28, ''1/23/20'' \<mapsto> PyInt 30]]\<rparr>))
   \<and> map (\<lambda>r. (cell_of r ''Province/State'', cell_of r ''date'', cell_of r ''cases'', cell_of r ''deaths'',
                 cell_of r ''recovered''))
       (rws (projr (load_jhu_time_series
        (Inr \<lparr>cols = [''Province/State'', ''1/22/20'', ''1/23/20''],
          rws = [[''Province/State'' \<mapsto> PyStr ''Hubei'', ''1/22/20'' \<mapsto> PyInt 444, ''1/23/20'' \<mapsto> PyInt 445]]\<rparr>)
        (Inr \<lparr>cols = [''Province/State'', ''1/23/20'', ''1/22/20''],
          rws = [[''Province/State'' \<mapsto> PyStr ''Hubei'', ''1/22/20'' \<mapsto> PyInt 17, ''1/23/20'' \<mapsto> PyInt 18]]\<rparr>)
        (Inr \<lparr>cols = [''Province/State'', ''1/23/20'', ''1/22/20''],
          rws = [[''Province/State'' \<mapsto> PyStr ''Hubei'', ''1/22/20'' \<mapsto> PyInt 28, ''1/23/20'' \<mapsto> PyInt 30]]\<rparr>))))
     = [(PyStr ''Hubei'', PyStr ''1/22/20'', PyInt 444, PyInt 18, PyInt 30),
        (PyStr ''Hubei'', PyStr ''1/23/20'', PyInt 445, PyInt 17, PyInt 28)]"
  by (simp add: load_jhu_time_series_def bnd_def parse_columns_def endswith_def melt_def
      getattr_col_def getitem_def set_column_def cell_of_def insert_commute)

section \<open>Local midnight as a UTC instant\<close>

lemma US_Pacific_midnight:
  "US_Pacific \<lparr>year = y, month = m, day = d, secs = 0\<rparr> =
     Inr (if days_from_civil y 3 (second_sunday_march y) < days_from_civil y m d
             \<and> days_from_civil y m d \<le> days_from_civil y 11 (first_sunday_november y)
          then - 25200 else - 28800)"
proof -
  define D where "D = days_from_civil y m d"
  define S where "S = days_from_civil y 3 (second_sunday_march y)"
  define E where "E = days_from_civil y 11 (first_sunday_november y)"
  have 1: "D * 86400 < S * 86400 + 7200 \<longleftrightarrow> D \<le> S" by arith
  have 2: "D * 86400 < S * 86400 + 10800 \<longleftrightarrow> D \<le> S" by arith
  have 3: "D * 86400 < E * 86400 + 3600 \<longleftrightarrow> D \<le> E" by arith
  have 4: "D * 86400 < E * 86400 + 7200 \<longleftrightarrow> D \<le> E" by arith
  have "US_Pacific \<lparr>year = y, month = m, day = d, secs = 0\<rparr> =
     (if D * 86400 < S * 86400 + 7200 then Inr (- 28800)
         else if D * 86400 < S * 86400 + 10800 then Inl NonExistentTimeError
         else if D * 86400 < E * 86400 + 3600 then Inr (- 25200)
         else if D * 86400 < E * 86400 + 7200 then Inl AmbiguousTimeError
         else Inr (- 28800))"
    by (simp add: US_Pacific_def wall_seconds_def Let_def D_def S_def E_def)
  also have "\<dots> = Inr (if S < D \<and> D \<le> E then - 25200 else - 28800)"
    unfolding 1 2 3 4 by auto
  finally show ?thesis unfolding D_def S_def E_def .
qed

text \<open>
  C4. For a calendar day from 2007 on, the normalized date is the local midnight of that
  day in US/Pacific, as a UTC instant: midnight of the same day in UTC plus eight hours
  when standard time is in force at that local midnight, plus seven hours when daylight
  time is (the days after the second Sunday of March up to the first Sunday of
  November). The module's \<open>date\<close> and the date column of the county series are
  the same instant for the same local day.
\<close>

theorem local_midnight_in_utc:
  assumes "2007 \<le> y"
  shows "county_date US_Pacific \<lparr>year = y, month = m, day = d, secs = 0\<rparr>
           = Inr (days_from_civil y m d * 86400
                  + (if days_from_civil y 3 (second_sunday_march y) < days_from_civil y m d
                        \<and> days_from_civil y m d \<le> days_from_civil y 11 (first_sunday_november y)
                     then 25200 else 28800))
       \<and> date US_Pacific \<lparr>wall = \<lparr>year = y, month = m, day = d, secs = s\<rparr>, utcoffset = off\<rparr>
           = county_date US_Pacific \<lparr>year = y, month = m, day = d, secs = 0\<rparr>
       \<and> utc_time_of_day (days_from_civil y m d * 86400
                  + (if days_from_civil y 3 (second_sunday_march y) < days_from_civil y m d
                        \<and> days_from_civil y m d \<le> days_from_civil y 11 (first_sunday_november y)
                     then 25200 else 28800))
           = (if days_from_civil y 3 (second_sunday_march y) < days_from_civil y m d
                 \<and> days_from_civil y m d \<le> days_from_civil y 11 (first_sunday_november y)
              then 25200 else 28800)"
proof -
  have a: "county_date US_Pacific \<lparr>year = y, month = m, day = d, secs = 0\<rparr>
           = Inr (days_from_civil y m d * 86400
                  + (if days_from_civil y 3 (second_sunday_march y) < days_from_civil y m d
                        \<and> days_from_civil y m d \<le> days_from_civil y 11 (first_sunday_november y)
                     then 25200 else 28800))"
    by (simp add: county_date_def tz_localize_def normalize_def bnd_def US_Pacific_midnight
        tz_convert_utc_def wall_seconds_def)
  have b: "date US_Pacific \<lparr>wall = \<lparr>year = y, month = m, day = d, secs = s\<rparr>, utcoffset = off\<rparr>
           = county_date US_Pacific \<lparr>year = y, month = m, day = d, secs = 0\<rparr>"
    by (simp add: date_def county_date_def tz_localize_def normalize_def bnd_def US_Pacific_midnight
        tz_convert_utc_def wall_seconds_def)
  have c: "utc_time_of_day (D * 86400 + (if P then 25200 else 28800)) = (if P then 25200 else 28800)"
    for D P
    by (simp add: utc_time_of_day_def)
  from a b c show ?thesis by simp
qed

theorem local_midnight_in_utc_witness:
  "(2007::int) \<le> 2020
   \<and> county_date US_Pacific \<lparr>year = 2020, month = 3, day = 16, secs = 0\<rparr> = Inr 1584342000
   \<and> utc_time_of_day 1584342000 = 25200
   \<and> county_date US_Pacific \<lparr>year = 2020, month = 1, day = 22, secs = 0\<rparr> = Inr 1579680000
   \<and> utc_time_of_day 1579680000 = 28800"
proof -
  have d: "days_from_civil 2020 3 (second_sunday_march 2020) = 18329"
    "days_from_civil 2020 11 (first_sunday_november 2020) = 18567"
    "days_from_civil 2020 3 16 = 18337" "days_from_civil 2020 1 22 = 18283"
    by (simp_all add: second_sunday_march_def first_sunday_november_def weekday_def days_from_civil_def)
  have h: "(2007::int) \<le> 2020" by simp
  from local_midnight_in_utc[OF h, of 3 16] local_midnight_in_utc[OF h, of 1 22]
  show ?thesis unfolding d by simp
qed

text \<open>
  The UTC time of day is not the same for every day: 7 March 2020 gives 08:00 UTC and
  9 March 2020, after the change to daylight time, gives 07:00 UTC.
\<close>

theorem utc_time_of_day_differs_across_dst:
  "county_date US_Pacific \<lparr>year = 2020, month = 3, day = 7, secs = 0\<rparr> = Inr 1583568000
   \<and> county_date US_Pacific \<lparr>year = 2020, month = 3, day = 9, secs = 0\<rparr> = Inr 1583737200
   \<and> utc_time_of_day 1583568000 = 28800
   \<and> utc_time_of_day 1583737200 = 25200"
proof -
  have d: "days_from_civil 2020 3 (second_sunday_march 2020) = 18329"
    "days_from_civil 2020 11 (first_sunday_november 2020) = 18567"
    "days_from_civil 2020 3 7 = 18328" "days_from_civil 2020 3 9 = 18330"
    by (simp_all add: second_sunday_march_def first_sunday_november_def weekday_def days_from_civil_def)
  show ?thesis
    by (simp add: county_date_def tz_localize_def normalize_def bnd_def US_Pacific_midnight
        tz_convert_utc_def wall_seconds_def d utc_time_of_day_def)
qed

section \<open>The jobs, step by step\<close>

text \<open>
  How the actions compose, what the two publish jobs do when the steps before the
  overwrite calls succeed, and the example run.
\<close>

lemma seq_Inr: "m w = (Inr x, w') \<Longrightarrow> seq m f w = f x w'"
  by (simp add: seq_def)

lemma seq_Inl: "m w = (Inl e, w') \<Longrightarrow> seq m f w = (Inl e, w')"
  by (simp add: seq_def)

lemma seq_lift_Inr: "seq (lift (Inr x)) f w = f x w"
  by (simp add: seq_def lift_def)

lemma seq_lift_Inl: "seq (lift (Inl e)) f w = (Inl e, w)"
  by (simp add: seq_def lift_def)

lemma seq_ret: "seq (ret x) f w = f x w"
  by (simp add: seq_def ret_def)

lemma seq_to_csv: "seq (to_csv fn df) f w = f () (w\<lparr>files := (files w)(fn \<mapsto> df)\<rparr>)"
  by (simp add: seq_def to_csv_def)

lemma manager_overwrite_returns:
  "files w fn = Some data \<Longrightarrow> overwrite_result sv item = Inr b \<Longrightarrow>
   manager_overwrite sv item fn w
     = (Inr (), w\<lparr>layers := (if b then (layers w)(item \<mapsto> data) else layers w)\<rparr>)"
  by (simp add: manager_overwrite_def)

lemma manager_overwrite_raises:
  "files w fn = Some data \<Longrightarrow> overwrite_result sv item = Inl e \<Longrightarrow>
   manager_overwrite sv item fn w = (Inl e, w)"
  by (simp add: manager_overwrite_def)

lemma os_remove_present:
  "files w fn = Some data \<Longrightarrow> os_remove fn w = (Inr (), w\<lparr>files := (files w)(fn := None)\<rparr>)"
  by (auto simp: os_remove_def)

lemma seq_overwrite:
  "manager_overwrite sv item fn w = (Inr (), w') \<Longrightarrow> seq (manager_overwrite sv item fn) f w = f () w'"
  by (simp add: seq_def)

lemma seq_remove:
  "os_remove fn w = (Inr (), w') \<Longrightarrow> seq (os_remove fn) f w = f () w'"
  by (simp add: seq_def)

lemma state_job_completes:
  assumes "arcgis_connection sv = Inr c" "gis_login sv = Inr ()"
      and "load_jhu_state_time_series sv = Inr df"
      and "bnd (getattr_col df ''date'') (to_datetime sv) = Inr dates"
      and "date_max dates = Inr latest"
      and "content_item sv jhu_time_series_featureid = Inr ()"
      and "content_item sv jhu_current_featureid = Inr ()"
      and "overwrite_result sv jhu_time_series_featureid = Inr b1"
      and "overwrite_result sv jhu_current_featureid = Inr b2"
  shows "fst (load_state_covid_data sv w) = Inr ()"
    and "files (snd (load_state_covid_data sv w))
         = (files w)(''/tmp/jhu_covid19_time_series.csv'' := None, ''/tmp/jhu_covid19_current.csv'' := None)"
    and "layers (snd (load_state_covid_data sv w))
         = (let l1 = (if b1 then (layers w)(jhu_time_series_featureid \<mapsto> df) else layers w)
            in if b2 then l1(jhu_current_featureid \<mapsto>
                               rows_with_date latest (set_column ''date'' dates df)) else l1)"
proof -
  define w1 where "w1 = w\<lparr>files := (files w)(''/tmp/jhu_covid19_time_series.csv'' \<mapsto> df,
      ''/tmp/jhu_covid19_current.csv'' \<mapsto> rows_with_date latest (set_column ''date'' dates df))\<rparr>"
  define w2 where "w2 = w1\<lparr>layers := (if b1 then (layers w1)(jhu_time_series_featureid \<mapsto> df) else layers w1)\<rparr>"
  define w3 where "w3 = w2\<lparr>layers := (if b2 then (layers w2)(jhu_current_featureid \<mapsto>
                               rows_with_date latest (set_column ''date'' dates df)) else layers w2)\<rparr>"
  define w4 where "w4 = w3\<lparr>files := (files w3)(''/tmp/jhu_covid19_time_series.csv'' := None)\<rparr>"
  have o1: "manager_overwrite sv jhu_time_series_featureid ''/tmp/jhu_covid19_time_series.csv'' w1 = (Inr (), w2)"
    unfolding w2_def by (rule manager_overwrite_returns) (simp_all add: w1_def assms)
  have o2: "manager_overwrite sv jhu_current_featureid ''/tmp/jhu_covid19_current.csv'' w2 = (Inr (), w3)"
    unfolding w3_def by (rule manager_overwrite_returns) (simp_all add: w1_def w2_def assms)
  have r1: "os_remove ''/tmp/jhu_covid19_time_series.csv'' w3 = (Inr (), w4)"
    unfolding w4_def by (rule os_remove_present) (simp add: w1_def w2_def w3_def)
  have r2: "os_remove ''/tmp/jhu_covid19_current.csv'' w4
        = (Inr (), w4\<lparr>files := (files w4)(''/tmp/jhu_covid19_current.csv'' := None)\<rparr>)"
    by (rule os_remove_present) (simp add: w1_def w2_def w3_def w4_def)
  have run: "load_state_covid_data sv w
        = (Inr (), w4\<lparr>files := (files w4)(''/tmp/jhu_covid19_current.csv'' := None)\<rparr>)"
    unfolding load_state_covid_data_def
    by (simp add: assms seq_lift_Inr seq_to_csv seq_overwrite[OF o1] seq_overwrite[OF o2] seq_remove[OF r1] r2
        flip: w1_def)
  show "fst (load_state_covid_data sv w) = Inr ()"
    by (simp add: run)
  show "files (snd (load_state_covid_data sv w))
         = (files w)(''/tmp/jhu_covid19_time_series.csv'' := None, ''/tmp/jhu_covid19_current.csv'' := None)"
    by (simp add: run w1_def w2_def w3_def w4_def)
  show "layers (snd (load_state_covid_data sv w))
         = (let l1 = (if b1 then (layers w)(jhu_time_series_featureid \<mapsto> df) else layers w)
            in if b2 then l1(jhu_current_featureid \<mapsto>
                               rows_with_date latest (set_column ''date'' dates df)) else l1)"
    by (simp add: run w1_def w2_def w3_def w4_def Let_def)
qed


lemma keeps_store_ret: "keeps_store (ret x)"
  by (simp add: keeps_store_def ret_def)

lemma keeps_store_lift: "keeps_store (lift r)"
  by (simp add: keeps_store_def lift_def)

lemma keeps_store_logging: "keeps_store (logging lvl msg)"
  by (simp add: keeps_store_def logging_def)

lemma keeps_store_http_get: "keeps_store (http_get url response)"
  by (simp add: keeps_store_def http_get_def)

lemma keeps_store_seq: "keeps_store m \<Longrightarrow> (\<And>x. keeps_store (f x)) \<Longrightarrow> keeps_store (seq m f)"
  unfolding keeps_store_def seq_def
proof (intro allI)
  fix w
  assume m: "\<forall>w. files (snd (m w)) = files w \<and> layers (snd (m w)) = layers w"
    and f: "\<And>x. \<forall>w. files (snd (f x w)) = files w \<and> layers (snd (f x w)) = layers w"
  obtain r w' where mw: "m w = (r, w')" by (cases "m w")
  with m have w': "files w' = files w" "layers w' = layers w"
    by (metis snd_conv)+
  show "files (snd (case m w of (Inl e, w') \<Rightarrow> (Inl e, w') | (Inr x, w') \<Rightarrow> f x w')) = files w \<and>
        layers (snd (case m w of (Inl e, w') \<Rightarrow> (Inl e, w') | (Inr x, w') \<Rightarrow> f x w')) = layers w"
    using f w' by (cases r) (simp_all add: mw)
qed

lemma keeps_store_try_except:
  "keeps_store m \<Longrightarrow> (\<And>e. keeps_store (h e)) \<Longrightarrow> keeps_store (try_except m h)"
  unfolding keeps_store_def try_except_def
proof (intro allI)
  fix w
  assume m: "\<forall>w. files (snd (m w)) = files w \<and> layers (snd (m w)) = layers w"
    and h: "\<And>e. \<forall>w. files (snd (h e w)) = files w \<and> layers (snd (h e w)) = layers w"
  obtain r w' where mw: "m w = (r, w')" by (cases "m w")
  with m have w': "files w' = files w" "layers w' = layers w"
    by (metis snd_conv)+
  show "files (snd (case m w of (Inl e, w') \<Rightarrow> if is_Exception e then h e w' else (Inl e, w')
                    | (Inr x, w') \<Rightarrow> (Inr x, w'))) = files w \<and>
        layers (snd (case m w of (Inl e, w') \<Rightarrow> if is_Exception e then h e w' else (Inl e, w')
                    | (Inr x, w') \<Rightarrow> (Inr x, w'))) = layers w"
    using h w' by (cases r) (simp_all add: mw)
qed

lemma keeps_store_try_county:
  "keeps_store fetch \<Longrightarrow> keeps_store (try_county info fetch warning county_dfs)"
  unfolding try_county_def
  by (intro keeps_store_try_except keeps_store_seq keeps_store_logging keeps_store_ret)

lemma keeps_store_scrape: "keeps_store (scrape_county_public_health_data p)"
  unfolding scrape_county_public_health_data_def
    scrape_la_county_public_health_data_def scrape_imperial_county_public_health_data_def
    scrape_orange_county_public_health_data_def scrape_san_bernardino_county_public_health_data_def
    scrape_riverside_county_public_health_data_def scrape_ventura_county_public_health_data_def
  by (intro keeps_store_seq keeps_store_try_county keeps_store_http_get keeps_store_ret
      keeps_store_lift)

lemma seq_Inr_iff:
  "seq m f w = (Inr y, w') \<longleftrightarrow> (\<exists>x w1. m w = (Inr x, w1) \<and> f x w1 = (Inr y, w'))"
  by (cases "m w") (auto simp: seq_def split: sum.splits)

lemma scrape_cols:
  assumes "scrape_county_public_health_data p w = (Inr fr, w')"
  shows "cols fr = columns"
  using assms unfolding scrape_county_public_health_data_def
  by (auto simp: seq_Inr_iff lift_def append_records_def split: if_splits)


lemma load_esri_cols:
  assumes "load_esri_time_series sv = Inr prev"
  shows "\<exists>layer. esri_layer sv = Inr layer \<and> set (cols prev) \<subseteq> set (cols layer)"
proof -
  from assms obtain layer a b d d' where l: "esri_layer sv = Inr layer"
    and a: "drop_columns [''ObjectId'', ''SHAPE''] layer = Inr a"
    and b: "drop_duplicates [''date'', ''county''] a = Inr b"
    and p: "prev = set_column ''date'' d' b"
    by (auto simp: load_esri_time_series_def bnd_Inr_iff)
  from a have ca: "set (cols a) \<subseteq> set (cols layer)"
    by (auto simp: drop_columns_def split: if_splits)
  from b have cb: "cols b = cols a" "''date'' \<in> set (cols a)"
    by (auto simp: drop_duplicates_def split: if_splits)
  have "cols prev = cols b"
    using cb by (simp add: p set_column_def)
  with ca cb l show ?thesis by auto
qed

lemma assign_scalar_cols: "set (cols (assign_scalar c v df)) = insert c (set (cols df))"
  by (auto simp: assign_scalar_def)

lemma county_job_before_writing:
  assumes "\<And>layer. esri_layer sv = Inr layer \<Longrightarrow> ''number_of_cases'' \<notin> set (cols layer)"
  shows "\<exists>e. fst (load_county_covid_data p sv w) = Inl e"
    and "files (snd (load_county_covid_data p sv w)) = files w"
    and "layers (snd (load_county_covid_data p sv w)) = layers w"
    and "arcgis_connection sv = Inr c \<Longrightarrow> gis_login sv = Inr () \<Longrightarrow>
         load_esri_time_series sv = Inr prev \<Longrightarrow>
         scrape_county_public_health_data p w = (Inr county_data, w1) \<Longrightarrow>
         merge_county (float_of_str sv) prev county_data = Inr df \<Longrightarrow>
         load_county_covid_data p sv w = (Inl KeyError, w1)"
proof -
  define rest where "rest = (\<lambda>df. seq (lift (bnd (getitem df ''number_of_cases'') (to_numeric sv))) (\<lambda>cases.
     seq (ret (set_column ''number_of_cases'' cases df)) (\<lambda>df.
     seq (to_csv ''/tmp/covid19_time_series.csv'' df) (\<lambda>_.
     seq (lift (bnd (getattr_col df ''date'') date_max)) (\<lambda>latest.
     seq (to_csv ''/tmp/covid19_current.csv'' (rows_with_date latest df)) (\<lambda>_.
     seq (lift (content_item sv time_series_featureid)) (\<lambda>_.
     seq (manager_overwrite sv time_series_featureid ''/tmp/covid19_time_series.csv'') (\<lambda>_.
     seq (lift (content_item sv current_featureid)) (\<lambda>_.
     seq (manager_overwrite sv current_featureid ''/tmp/covid19_current.csv'') (\<lambda>_.
     seq (os_remove ''/tmp/covid19_time_series.csv'') (\<lambda>_.
     os_remove ''/tmp/covid19_current.csv'')))))))))))"
  define after_merge where "after_merge = (\<lambda>df.
     seq (ret (assign_scalar ''non_scag_total'' (PyInt 0) (assign_scalar ''ca_total'' (PyInt 0) df))) rest)"
  define after_scrape where "after_scrape = (\<lambda>prev_data county_data.
     seq (lift (merge_county (float_of_str sv) prev_data county_data)) after_merge)"
  define after_esri where "after_esri = (\<lambda>prev_data.
     seq (scrape_county_public_health_data p) (after_scrape prev_data))"
  have job: "load_county_covid_data p sv =
     seq (lift (arcgis_connection sv)) (\<lambda>arcconnection.
     seq (lift (gis_login sv)) (\<lambda>gis.
     seq (lift (load_esri_time_series sv)) after_esri))"
    unfolding load_county_covid_data_def after_esri_def after_scrape_def after_merge_def rest_def ..
  have merged: "after_merge df w' = (Inl KeyError, w')"
    if "''number_of_cases'' \<notin> set (cols df)" for df w'
  proof -
    have "''number_of_cases'' \<notin>
        set (cols (assign_scalar ''non_scag_total'' (PyInt 0) (assign_scalar ''ca_total'' (PyInt 0) df)))"
      using that by (simp add: assign_scalar_cols)
    then have "getitem (assign_scalar ''non_scag_total'' (PyInt 0) (assign_scalar ''ca_total'' (PyInt 0) df))
        ''number_of_cases'' = Inl KeyError"
      by (simp add: getitem_def)
    then show ?thesis
      by (simp add: after_merge_def rest_def seq_ret bnd_def seq_lift_Inl)
  qed
  have after: "(\<exists>e. fst (after_esri prev w) = Inl e)
      \<and> files (snd (after_esri prev w)) = files w \<and> layers (snd (after_esri prev w)) = layers w
      \<and> (\<forall>county_data w1 df. scrape_county_public_health_data p w = (Inr county_data, w1) \<longrightarrow>
            merge_county (float_of_str sv) prev county_data = Inr df \<longrightarrow>
            after_esri prev w = (Inl KeyError, w1))"
    if prev: "load_esri_time_series sv = Inr prev" for prev
  proof -
    from load_esri_cols[OF prev] assms have np: "''number_of_cases'' \<notin> set (cols prev)"
      by blast
    obtain r w1 where sc: "scrape_county_public_health_data p w = (r, w1)"
      by (cases "scrape_county_public_health_data p w")
    have "files (snd (scrape_county_public_health_data p w)) = files w
        \<and> layers (snd (scrape_county_public_health_data p w)) = layers w"
      using keeps_store_scrape[of p] by (simp add: keeps_store_def)
    then have st: "files w1 = files w" "layers w1 = layers w"
      by (simp_all add: sc)
    show ?thesis
    proof (cases r)
      case (Inl e)
      then show ?thesis using sc st by (simp add: after_esri_def seq_def)
    next
      case (Inr county_data)
      then have cc: "cols county_data = columns" using sc scrape_cols by blast
      have step: "after_esri prev w = after_scrape prev county_data w1"
        using sc Inr by (simp add: after_esri_def seq_def)
      show ?thesis
      proof (cases "merge_county (float_of_str sv) prev county_data")
        case (Inl e)
        then show ?thesis
          using step st sc Inr by (simp add: after_scrape_def seq_lift_Inl)
      next
        case (Inr df)
        have "cols df = cols prev @ filter (\<lambda>c. c \<notin> set (cols prev)) (cols county_data)"
          using merge_county_Inr(2)[OF Inr] .
        moreover have "''number_of_cases'' \<notin> set columns"
          by (simp add: columns_def)
        ultimately have "''number_of_cases'' \<notin> set (cols df)"
          using np cc by simp
        then have "after_merge df w1 = (Inl KeyError, w1)" by (rule merged)
        then show ?thesis
          using step st sc Inr \<open>r = Inr county_data\<close> by (simp add: after_scrape_def seq_lift_Inr)
      qed
    qed
  qed
  have all: "(\<exists>e. fst (load_county_covid_data p sv w) = Inl e)
      \<and> files (snd (load_county_covid_data p sv w)) = files w
      \<and> layers (snd (load_county_covid_data p sv w)) = layers w"
  proof (cases "arcgis_connection sv")
    case (Inl e)
    then show ?thesis by (simp add: job seq_lift_Inl)
  next
    case c: (Inr c)
    show ?thesis
    proof (cases "gis_login sv")
      case (Inl e)
      then show ?thesis by (simp add: job c seq_lift_Inl seq_lift_Inr)
    next
      case g: (Inr g)
      show ?thesis
      proof (cases "load_esri_time_series sv")
        case (Inl e)
        then show ?thesis by (simp add: job c g seq_lift_Inl seq_lift_Inr)
      next
        case (Inr prev)
        with after[OF Inr] show ?thesis by (simp add: job c g seq_lift_Inr)
      qed
    qed
  qed
  from all show "\<exists>e. fst (load_county_covid_data p sv w) = Inl e"
    and "files (snd (load_county_covid_data p sv w)) = files w"
    and "layers (snd (load_county_covid_data p sv w)) = layers w"
    by simp_all
  show "load_county_covid_data p sv w = (Inl KeyError, w1)"
    if "arcgis_connection sv = Inr c" "gis_login sv = Inr ()" "load_esri_time_series sv = Inr prev"
      "scrape_county_public_health_data p w = (Inr county_data, w1)"
      "merge_county (float_of_str sv) prev county_data = Inr df"
    using after[OF that(3)] that by (simp add: job seq_lift_Inr)
qed


lemma county_job_completes:
  assumes "arcgis_connection sv = Inr c" "gis_login sv = Inr ()"
      and "load_esri_time_series sv = Inr prev"
      and sc: "scrape_county_public_health_data p w = (Inr county_data, w1)"
      and "merge_county (float_of_str sv) prev county_data = Inr df0"
      and df1: "df1 = assign_scalar ''non_scag_total'' (PyInt 0) (assign_scalar ''ca_total'' (PyInt 0) df0)"
      and "bnd (getitem df1 ''number_of_cases'') (to_numeric sv) = Inr cases"
      and df: "df = set_column ''number_of_cases'' cases df1"
      and "bnd (getattr_col df ''date'') date_max = Inr latest"
      and "content_item sv time_series_featureid = Inr ()"
      and "content_item sv current_featureid = Inr ()"
      and "overwrite_result sv time_series_featureid = Inr b1"
      and "overwrite_result sv current_featureid = Inr b2"
  shows "fst (load_county_covid_data p sv w) = Inr ()"
    and "files (snd (load_county_covid_data p sv w))
         = (files w)(''/tmp/covid19_time_series.csv'' := None, ''/tmp/covid19_current.csv'' := None)"
    and "layers (snd (load_county_covid_data p sv w))
         = (let l1 = (if b1 then (layers w)(time_series_featureid \<mapsto> df) else layers w)
            in if b2 then l1(current_featureid \<mapsto> rows_with_date latest df) else l1)"
proof -
  have "files (snd (scrape_county_public_health_data p w)) = files w
        \<and> layers (snd (scrape_county_public_health_data p w)) = layers w"
    using keeps_store_scrape[of p] by (simp add: keeps_store_def)
  then have st: "files w1 = files w" "layers w1 = layers w"
    by (simp_all add: sc)
  define w2 where "w2 = w1\<lparr>files := (files w1)(''/tmp/covid19_time_series.csv'' \<mapsto> df,
      ''/tmp/covid19_current.csv'' \<mapsto> rows_with_date latest df)\<rparr>"
  define w3 where "w3 = w2\<lparr>layers := (if b1 then (layers w2)(time_series_featureid \<mapsto> df) else layers w2)\<rparr>"
  define w4 where "w4 = w3\<lparr>layers := (if b2 then (layers w3)(current_featureid \<mapsto>
                               rows_with_date latest df) else layers w3)\<rparr>"
  define w5 where "w5 = w4\<lparr>files := (files w4)(''/tmp/covid19_time_series.csv'' := None)\<rparr>"
  have o1: "manager_overwrite sv time_series_featureid ''/tmp/covid19_time_series.csv'' w2 = (Inr (), w3)"
    unfolding w3_def by (rule manager_overwrite_returns) (simp_all add: w2_def assms)
  have o2: "manager_overwrite sv current_featureid ''/tmp/covid19_current.csv'' w3 = (Inr (), w4)"
    unfolding w4_def by (rule manager_overwrite_returns) (simp_all add: w2_def w3_def assms)
  have r1: "os_remove ''/tmp/covid19_time_series.csv'' w4 = (Inr (), w5)"
    unfolding w5_def by (rule os_remove_present) (simp add: w2_def w3_def w4_def)
  have r2: "os_remove ''/tmp/covid19_current.csv'' w5
        = (Inr (), w5\<lparr>files := (files w5)(''/tmp/covid19_current.csv'' := None)\<rparr>)"
    by (rule os_remove_present) (simp add: w2_def w3_def w4_def w5_def)
  have s: "seq (scrape_county_public_health_data p) f w = f county_data w1" for f :: "frame \<Rightarrow> unit action"
    using sc by (simp add: seq_def)
  have run: "load_county_covid_data p sv w
        = (Inr (), w5\<lparr>files := (files w5)(''/tmp/covid19_current.csv'' := None)\<rparr>)"
    unfolding load_county_covid_data_def
    by (simp add: assms(1-3,5,7,9-13) s seq_lift_Inr seq_ret seq_to_csv seq_overwrite[OF o1]
        seq_overwrite[OF o2] seq_remove[OF r1] r2 flip: df1 df w2_def)
  show "fst (load_county_covid_data p sv w) = Inr ()"
    by (simp add: run)
  show "files (snd (load_county_covid_data p sv w))
         = (files w)(''/tmp/covid19_time_series.csv'' := None, ''/tmp/covid19_current.csv'' := None)"
    by (simp add: run w2_def w3_def w4_def w5_def st)
  show "layers (snd (load_county_covid_data p sv w))
         = (let l1 = (if b1 then (layers w)(time_series_featureid \<mapsto> df) else layers w)
            in if b2 then l1(current_featureid \<mapsto> rows_with_date latest df) else l1)"
    by (simp add: run w2_def w3_def w4_def w5_def st Let_def)
qed


lemma example_pages_ok: "pages_raise_only_Exception example_pages"
  by (simp add: pages_raise_only_Exception_def raises_only_Exception_def example_pages_def
      is_Exception_def)

lemma example_scraped:
  "scraped_records example_pages
     = [imperial_county_record example_pages 4, san_bernardino_county_record example_pages 9,
        riverside_county_record example_pages (Some 14, Some 6, None)]"
  by (simp add: scraped_records_def succeeded_def example_pages_def)

lemma example_esri: "load_esri_time_series (example_services extra ow) = Inr (example_prev extra)"
  by (simp add: load_esri_time_series_def example_services_def example_layer_def bnd_def
      drop_columns_def drop_duplicates_def getattr_col_def getitem_def cell_of_def
      dt_tz_localize_utc_def set_column_def example_prev_def example_row_def)

lemma integrify_ok:
  "isna x \<or> (\<exists>n. x = PyInt n \<and> \<bar>n\<bar> \<le> 2 ^ 53) \<or> (\<exists>m e. x = PyFloat (Finite m e)) \<Longrightarrow>
   \<exists>v. integrify fs x = Inr v"
  using integrify_int[of _ fs] by (auto simp: integrify_def bnd_def)

lemma set_column_rows_other:
  "r \<in> set (rws (set_column c vs df)) \<Longrightarrow> c' \<noteq> c \<Longrightarrow> \<exists>r1\<in>set (rws df). r c' = r1 c'"
  by (auto simp: set_column_def in_set_enumerate_eq)

lemma assign_scalar_rows_other:
  "r \<in> set (rws (assign_scalar c v df)) \<Longrightarrow> c' \<noteq> c \<Longrightarrow> \<exists>r1\<in>set (rws df). r c' = r1 c'"
  by (auto simp: assign_scalar_def)

lemma date_max_aware: "list_all is_aware s \<Longrightarrow> \<exists>m. date_max s = Inr m"
  by (auto simp: date_max_def Let_def list_all_iff)

lemma list_all2_coerced_date:
  assumes "list_all2 (coerced fs) ks rs" "r \<in> set rs"
  shows "\<exists>k\<in>set ks. r ''date'' = k ''date''"
proof -
  from assms(2) obtain i where i: "i < length rs" "rs ! i = r"
    by (auto simp: in_set_conv_nth)
  with assms(1) have "coerced fs (ks ! i) r" "i < length ks"
    by (auto simp: list_all2_conv_all_nth)
  then have "r ''date'' = (ks ! i) ''date''" "ks ! i \<in> set ks"
    by (simp_all add: coerced_def coerce_cols_def)
  then show ?thesis by blast
qed


lemma example_rows:
  assumes "r \<in> set (rws (example_prev extra) @ scraped_records example_pages)"
  shows "\<exists>t. r ''date'' = Some (PyTimestamp t)"
    and "c \<in> set coerce_cols \<Longrightarrow>
         isna (cell_of r c) \<or> (\<exists>n. cell_of r c = PyInt n \<and> \<bar>n\<bar> \<le> 2 ^ 53)
         \<or> (\<exists>m e. cell_of r c = PyFloat (Finite m e))"
proof -
  from assms consider "r = hd (rws (example_prev extra))" | "r = imperial_county_record example_pages 4"
    | "r = san_bernardino_county_record example_pages 9"
    | "r = riverside_county_record example_pages (Some 14, Some 6, None)"
    unfolding example_scraped by (auto simp: example_prev_def)
  then have "(\<exists>t. r ''date'' = Some (PyTimestamp t))
     \<and> (c \<in> set coerce_cols \<longrightarrow>
         isna (cell_of r c) \<or> (\<exists>n. cell_of r c = PyInt n \<and> \<bar>n\<bar> \<le> 2 ^ 53)
         \<or> (\<exists>m e. cell_of r c = PyFloat (Finite m e)))"
  proof cases
    case 1
    then show ?thesis
      by (auto simp: example_prev_def example_row_def coerce_cols_def cell_of_def)
  next
    case 2
    then show ?thesis
      by (auto simp: imperial_county_record_def county_record_def coerce_cols_def cell_of_def)
  next
    case 3
    then show ?thesis
      by (auto simp: san_bernardino_county_record_def county_record_def coerce_cols_def cell_of_def)
  next
    case 4
    then show ?thesis
      by (auto simp: riverside_county_record_def county_record_def coerce_cols_def cell_of_def
          opt_int_def)
  qed
  then show "\<exists>t. r ''date'' = Some (PyTimestamp t)"
    and "c \<in> set coerce_cols \<Longrightarrow>
         isna (cell_of r c) \<or> (\<exists>n. cell_of r c = PyInt n \<and> \<bar>n\<bar> \<le> 2 ^ 53)
         \<or> (\<exists>m e. cell_of r c = PyFloat (Finite m e))"
    by blast+
qed



lemma try_county_fetch:
  assumes "raises_only_Exception response"
  shows "try_county info (seq (http_get url response) (\<lambda>v. ret (rec v))) warning county_dfs w =
     (Inr (county_dfs @ succeeded response rec),
      w\<lparr>requests := requests w @ [url], log := log w @ attempt_log response info warning\<rparr>)"
  using assms
  by (cases response)
     (simp_all add: try_county_def try_except_def seq_def logging_def http_get_def ret_def
        succeeded_def attempt_log_def raises_only_Exception_def)


lemma scrape_county_run:
  assumes "pages_raise_only_Exception p"
  shows "scrape_county_public_health_data p w =
     (if scraped_records p = [] then Inl IndexError
      else Inr \<lparr>cols = columns, rws = scraped_records p\<rparr>,
      w\<lparr>requests := requests w @ county_urls, log := log w @ scrape_log p\<rparr>)"
proof -
  have h: "raises_only_Exception (la_county p)" "raises_only_Exception (imperial_county p)"
    "raises_only_Exception (orange_county p)" "raises_only_Exception (san_bernardino_county p)"
    "raises_only_Exception (riverside_county p)" "raises_only_Exception (ventura_county p)"
    using assms by (simp_all add: pages_raise_only_Exception_def)
  show ?thesis
    unfolding scrape_county_public_health_data_def
      scrape_la_county_public_health_data_def scrape_imperial_county_public_health_data_def
      scrape_orange_county_public_health_data_def scrape_san_bernardino_county_public_health_data_def
      scrape_riverside_county_public_health_data_def scrape_ventura_county_public_health_data_def
    by (simp add: seq_Inr[OF try_county_fetch] h lift_def append_records_def scraped_records_def
        county_urls_def scrape_log_def)
qed



lemma example_scrape:
  "scrape_county_public_health_data example_pages w =
     (Inr \<lparr>cols = columns, rws = scraped_records example_pages\<rparr>,
      w\<lparr>requests := requests w @ county_urls, log := log w @ scrape_log example_pages\<rparr>)"
  using scrape_county_run[OF example_pages_ok, of w] by (simp add: example_scraped)

lemma example_merge:
  "\<exists>df0. merge_county (float_of_str (example_services extra ow)) (example_prev extra)
            \<lparr>cols = columns, rws = scraped_records example_pages\<rparr> = Inr df0
     \<and> set (cols (example_prev extra)) \<subseteq> set (cols df0) 
     \<and> (\<forall>r\<in>set (rws df0). \<exists>t. r ''date'' = Some (PyTimestamp t))"
proof -
  define fs where "fs = float_of_str (example_services extra ow)"
  define county where "county = \<lparr>cols = columns, rws = scraped_records example_pages\<rparr>"
  define R where "R = rws (example_prev extra) @ scraped_records example_pages"
  define K where "K = keep_last date_county R"
  define C where "C = cols (example_prev extra) @ filter (\<lambda>c. c \<notin> set (cols (example_prev extra))) columns"
  have cp: "set [''date'', ''county''] \<subseteq> set (cols (example_prev extra))"
       "set coerce_cols \<subseteq> set (cols (example_prev extra))"
    by (simp_all add: example_prev_def coerce_cols_def)
  have KR: "set K \<subseteq> set R" unfolding K_def by (rule keep_last_subset)
  have "set [''date'', ''county''] \<subseteq> set C" using cp(1) unfolding C_def by auto
  then have dd: "drop_duplicates [''date'', ''county''] (append_frame (example_prev extra) county)
      = Inr \<lparr>cols = C, rws = K\<rparr>"
    by (simp add: drop_duplicates_def append_frame_def county_def K_def R_def date_county_def C_def)
  have "\<exists>df0. coerce_integer fs \<lparr>cols = C, rws = K\<rparr> = Inr df0"
  proof (rule coerce_integer_total)
    show "set coerce_cols \<subseteq> set (cols \<lparr>cols = C, rws = K\<rparr>)"
      using cp(2) unfolding C_def by auto
    show "\<forall>r\<in>set (rws \<lparr>cols = C, rws = K\<rparr>). \<forall>c\<in>set coerce_cols. \<exists>v. integrify fs (cell_of r c) = Inr v"
    proof (intro ballI)
      fix r c assume "r \<in> set (rws \<lparr>cols = C, rws = K\<rparr>)" and c: "c \<in> set coerce_cols"
      then have "r \<in> set R" using KR by auto
      then show "\<exists>v. integrify fs (cell_of r c) = Inr v"
        unfolding R_def by (intro integrify_ok example_rows(2) c)
    qed
  qed
  then obtain df0 where co: "coerce_integer fs \<lparr>cols = C, rws = K\<rparr> = Inr df0" ..
  have m: "merge_county fs (example_prev extra) county = Inr df0"
    by (simp add: merge_county_def dd bnd_def reset_index_def co)
  have c0: "cols df0 = C"
    using merge_county_Inr(2)[OF m] by (simp add: county_def C_def)
  have la: "list_all2 (coerced fs) K (rws df0)"
    using merge_county_Inr(1)[OF m] by (simp add: county_def K_def R_def)
  have aware: "\<exists>t. r ''date'' = Some (PyTimestamp t)" if "r \<in> set (rws df0)" for r
  proof -
    from list_all2_coerced_date[OF la that] obtain k where k: "k \<in> set K" "r ''date'' = k ''date''"
      by blast
    then have "k \<in> set (rws (example_prev extra) @ scraped_records example_pages)"
      using KR by (auto simp: R_def)
    from example_rows(1)[OF this] k show ?thesis by simp
  qed
  have "set (cols (example_prev extra)) \<subseteq> set (cols df0)" unfolding c0 C_def by auto
  with m aware show ?thesis unfolding fs_def county_def by blast
qed

lemma example_county_facts:
  "\<exists>df0 cases latest.
     merge_county (float_of_str (example_services [''number_of_cases''] ow))
        (example_prev [''number_of_cases''])
        \<lparr>cols = columns, rws = scraped_records example_pages\<rparr> = Inr df0
   \<and> bnd (getitem (assign_scalar ''non_scag_total'' (PyInt 0) (assign_scalar ''ca_total'' (PyInt 0) df0))
             ''number_of_cases'') (to_numeric (example_services [''number_of_cases''] ow)) = Inr cases
   \<and> bnd (getattr_col (set_column ''number_of_cases'' cases
             (assign_scalar ''non_scag_total'' (PyInt 0) (assign_scalar ''ca_total'' (PyInt 0) df0))) ''date'')
          date_max = Inr latest"
proof -
  from example_merge[of "[''number_of_cases'']" ow] obtain df0 where
    m: "merge_county (float_of_str (example_services [''number_of_cases''] ow))
        (example_prev [''number_of_cases''])
        \<lparr>cols = columns, rws = scraped_records example_pages\<rparr> = Inr df0"
    and c0: "set (cols (example_prev [''number_of_cases''])) \<subseteq> set (cols df0)"
    and aw: "\<forall>r\<in>set (rws df0). \<exists>t. r ''date'' = Some (PyTimestamp t)"
    by blast
  define df1 where "df1 = assign_scalar ''non_scag_total'' (PyInt 0) (assign_scalar ''ca_total'' (PyInt 0) df0)"
  have "''number_of_cases'' \<in> set (cols (example_prev [''number_of_cases'']))"
       "''date'' \<in> set (cols (example_prev [''number_of_cases'']))"
    by (simp_all add: example_prev_def)
  then have "''number_of_cases'' \<in> set (cols df0)" "''date'' \<in> set (cols df0)"
    using c0 by blast+
  then have in1: "''number_of_cases'' \<in> set (cols df1)" "''date'' \<in> set (cols df1)"
    by (simp_all add: df1_def assign_scalar_cols)
  define cases where "cases = map (\<lambda>r. cell_of r ''number_of_cases'') (rws df1)"
  have num: "bnd (getitem df1 ''number_of_cases'') (to_numeric (example_services [''number_of_cases''] ow)) = Inr cases"
    using in1(1) by (simp add: getitem_def bnd_def cases_def example_services_def)
  define df where "df = set_column ''number_of_cases'' cases df1"
  have ind: "''date'' \<in> set (cols df)"
    using in1 by (simp add: df_def set_column_def)
  have aware: "\<exists>t. r ''date'' = Some (PyTimestamp t)" if "r \<in> set (rws df)" for r
  proof -
    from set_column_rows_other[of r "''number_of_cases''" cases df1 "''date''"] that
    obtain r1 where r1: "r1 \<in> set (rws df1)" "r ''date'' = r1 ''date''"
      by (auto simp: df_def)
    from assign_scalar_rows_other[of r1 "''non_scag_total''" "PyInt 0" _ "''date''"] r1(1)
    obtain r2 where r2: "r2 \<in> set (rws (assign_scalar ''ca_total'' (PyInt 0) df0))" "r1 ''date'' = r2 ''date''"
      by (auto simp: df1_def)
    from assign_scalar_rows_other[of r2 "''ca_total''" "PyInt 0" df0 "''date''"] r2(1)
    obtain r3 where r3: "r3 \<in> set (rws df0)" "r2 ''date'' = r3 ''date''"
      by auto
    from aw r3(1) r1 r2 r3 show ?thesis by simp
  qed
  have "list_all is_aware (map (\<lambda>r. cell_of r ''date'') (rws df))"
    using aware by (fastforce simp: list_all_iff cell_of_def)
  then obtain latest where "date_max (map (\<lambda>r. cell_of r ''date'') (rws df)) = Inr latest"
    using date_max_aware by blast
  then have mx: "bnd (getattr_col df ''date'') date_max = Inr latest"
    using ind by (simp add: getattr_col_Inr bnd_def)
  from m num mx show ?thesis
    unfolding df1_def df_def by blast
qed


lemma seq_lift_Inr_fun: "seq (lift (Inr x)) f = f x"
  by (rule ext) (simp add: seq_def lift_def)

lemma overwrites_raise:
  assumes "files w f1 = Some d1" "files w f2 = Some d2"
      and "overwrite_result sv i1 = Inl e
           \<or> (\<exists>b. overwrite_result sv i1 = Inr b) \<and> overwrite_result sv i2 = Inl e"
  shows "\<exists>w'. files w' = files w
           \<and> (\<forall>k :: unit \<Rightarrow> unit action.
                 seq (manager_overwrite sv i1 f1) (\<lambda>_. seq (manager_overwrite sv i2 f2) k) w = (Inl e, w'))"
  using assms by (auto simp: seq_def manager_overwrite_def)

lemma state_job_overwrite_raises:
  assumes "arcgis_connection sv = Inr c" "gis_login sv = Inr ()"
      and "load_jhu_state_time_series sv = Inr df"
      and "bnd (getattr_col df ''date'') (to_datetime sv) = Inr dates"
      and "date_max dates = Inr latest"
      and "content_item sv jhu_time_series_featureid = Inr ()"
      and "content_item sv jhu_current_featureid = Inr ()"
      and ow: "overwrite_result sv jhu_time_series_featureid = Inl e
           \<or> (\<exists>b. overwrite_result sv jhu_time_series_featureid = Inr b)
              \<and> overwrite_result sv jhu_current_featureid = Inl e"
  shows "fst (load_state_covid_data sv w) = Inl e"
    and "files (snd (load_state_covid_data sv w))
         = (files w)(''/tmp/jhu_covid19_time_series.csv'' \<mapsto> df,
              ''/tmp/jhu_covid19_current.csv'' \<mapsto> rows_with_date latest (set_column ''date'' dates df))"
proof -
  define w1 where "w1 = w\<lparr>files := (files w)(''/tmp/jhu_covid19_time_series.csv'' \<mapsto> df,
      ''/tmp/jhu_covid19_current.csv'' \<mapsto> rows_with_date latest (set_column ''date'' dates df))\<rparr>"
  have "files w1 ''/tmp/jhu_covid19_time_series.csv'' = Some df"
    "files w1 ''/tmp/jhu_covid19_current.csv'' = Some (rows_with_date latest (set_column ''date'' dates df))"
    by (simp_all add: w1_def)
  from overwrites_raise[OF this ow] obtain w' where w': "files w' = files w1"
    and eq: "\<And>k :: unit \<Rightarrow> unit action. seq (manager_overwrite sv jhu_time_series_featureid ''/tmp/jhu_covid19_time_series.csv'')
           (\<lambda>_. seq (manager_overwrite sv jhu_current_featureid ''/tmp/jhu_covid19_current.csv'') k) w1
         = (Inl e, w')"
    by blast
  have run: "load_state_covid_data sv w = (Inl e, w')"
    unfolding load_state_covid_data_def
    by (simp add: assms(1-7) seq_lift_Inr seq_lift_Inr_fun seq_to_csv flip: w1_def) (rule eq)
  show "fst (load_state_covid_data sv w) = Inl e"
    by (simp add: run)
  show "files (snd (load_state_covid_data sv w))
         = (files w)(''/tmp/jhu_covid19_time_series.csv'' \<mapsto> df,
              ''/tmp/jhu_covid19_current.csv'' \<mapsto> rows_with_date latest (set_column ''date'' dates df))"
    by (simp add: run w' w1_def)
qed

lemma county_job_overwrite_raises:
  assumes "arcgis_connection sv = Inr c" "gis_login sv = Inr ()"
      and "load_esri_time_series sv = Inr prev"
      and sc: "scrape_county_public_health_data p w = (Inr county_data, w1)"
      and "merge_county (float_of_str sv) prev county_data = Inr df0"
      and df1: "df1 = assign_scalar ''non_scag_total'' (PyInt 0) (assign_scalar ''ca_total'' (PyInt 0) df0)"
      and "bnd (getitem df1 ''number_of_cases'') (to_numeric sv) = Inr cases"
      and df: "df = set_column ''number_of_cases'' cases df1"
      and "bnd (getattr_col df ''date'') date_max = Inr latest"
      and "content_item sv time_series_featureid = Inr ()"
      and "content_item sv current_featureid = Inr ()"
      and ow: "overwrite_result sv time_series_featureid = Inl e
           \<or> (\<exists>b. overwrite_result sv time_series_featureid = Inr b)
              \<and> overwrite_result sv current_featureid = Inl e"
  shows "fst (load_county_covid_data p sv w) = Inl e"
    and "files (snd (load_county_covid_data p sv w))
         = (files w)(''/tmp/covid19_time_series.csv'' \<mapsto> df,
              ''/tmp/covid19_current.csv'' \<mapsto> rows_with_date latest df)"
proof -
  have "files (snd (scrape_county_public_health_data p w)) = files w"
    using keeps_store_scrape[of p] by (simp add: keeps_store_def)
  then have st: "files w1 = files w"
    by (simp add: sc)
  define w2 where "w2 = w1\<lparr>files := (files w1)(''/tmp/covid19_time_series.csv'' \<mapsto> df,
      ''/tmp/covid19_current.csv'' \<mapsto> rows_with_date latest df)\<rparr>"
  have "files w2 ''/tmp/covid19_time_series.csv'' = Some df"
    "files w2 ''/tmp/covid19_current.csv'' = Some (rows_with_date latest df)"
    by (simp_all add: w2_def)
  from overwrites_raise[OF this ow] obtain w' where w': "files w' = files w2"
    and eq: "\<And>k :: unit \<Rightarrow> unit action. seq (manager_overwrite sv time_series_featureid ''/tmp/covid19_time_series.csv'')
           (\<lambda>_. seq (manager_overwrite sv current_featureid ''/tmp/covid19_current.csv'') k) w2
         = (Inl e, w')"
    by blast
  have s: "seq (scrape_county_public_health_data p) f w = f county_data w1" for f :: "frame \<Rightarrow> unit action"
    using sc by (simp add: seq_def)
  have run: "load_county_covid_data p sv w = (Inl e, w')"
    unfolding load_county_covid_data_def
    by (simp add: assms(1-3,5,7,9-11) s seq_lift_Inr seq_lift_Inr_fun seq_ret seq_to_csv flip: df1 df w2_def) (rule eq)
  show "fst (load_county_covid_data p sv w) = Inl e"
    by (simp add: run)
  show "files (snd (load_county_covid_data p sv w))
         = (files w)(''/tmp/covid19_time_series.csv'' \<mapsto> df,
              ''/tmp/covid19_current.csv'' \<mapsto> rows_with_date latest df)"
    by (simp add: run w' w2_def st)
qed

lemma date_max_naive: "list_all is_naive s \<Longrightarrow> \<exists>m. date_max s = Inr m"
  by (auto simp: date_max_def Let_def list_all_iff)

lemma example_jhu_series:
  "\<exists>df. load_jhu_state_time_series (example_services extra ow) = Inr df \<and> ''date'' \<in> set (cols df)"
  by (simp add: load_jhu_state_time_series_def example_services_def example_jhu_def
      load_jhu_time_series_def bnd_def parse_columns_def endswith_def melt_def
      getattr_col_def getitem_def set_column_def cell_of_def str_accessor_def rename_columns_def
      reset_index_def)

lemma example_state_facts:
  "\<exists>df dates latest.
     load_jhu_state_time_series (example_services extra ow) = Inr df
   \<and> bnd (getattr_col df ''date'') (to_datetime (example_services extra ow)) = Inr dates
   \<and> date_max dates = Inr latest"
proof -
  from example_jhu_series[of extra ow] obtain df where
    df: "load_jhu_state_time_series (example_services extra ow) = Inr df" "''date'' \<in> set (cols df)"
    by blast
  define dates where "dates = map (\<lambda>x. PyDatetime 1579651200) (map (\<lambda>r. cell_of r ''date'') (rws df))"
  have d: "bnd (getattr_col df ''date'') (to_datetime (example_services extra ow)) = Inr dates"
    using df(2) by (simp add: getattr_col_Inr bnd_def example_services_def dates_def)
  have "list_all is_naive dates"
    by (simp add: dates_def list_all_iff)
  from date_max_naive[OF this] obtain latest where "date_max dates = Inr latest" ..
  with df(1) d show ?thesis by blast
qed


section \<open>The county job stops at the column number_of_cases\<close>

text \<open>
  Claim C2. No step of the county job makes a column \<open>number_of_cases\<close>: the county schema
  names the column \<open>cases\<close>, and the merged table has the columns of the published layer
  and of the schema. So when the published layer has no column \<open>number_of_cases\<close>, every
  run of \<open>load_county_covid_data\<close> raises, whatever the fetchers and the layer return, and
  it leaves the files and the feature layers as they were: no CSV file is written and no
  layer is overwritten. The exception is the \<open>KeyError\<close> of \<open>df["number_of_cases"]\<close>
  when the steps before it succeed (the credentials, the login, the load of the layer,
  the scrape and the merge); otherwise it is the exception of the first step that fails.
\<close>

theorem county_job_raises_before_writing:
  assumes "case esri_layer sv of Inl e \<Rightarrow> True | Inr layer \<Rightarrow> ''number_of_cases'' \<notin> set (cols layer)"
  shows "''number_of_cases'' \<notin> set columns \<and> ''cases'' \<in> set columns
     \<and> (\<exists>e. fst (load_county_covid_data p sv w) = Inl e)
     \<and> files (snd (load_county_covid_data p sv w)) = files w
     \<and> layers (snd (load_county_covid_data p sv w)) = layers w
     \<and> (arcgis_connection sv = Inr c \<and> gis_login sv = Inr () \<and> load_esri_time_series sv = Inr prev
          \<and> scrape_county_public_health_data p w = (Inr county_data, w1)
          \<and> merge_county (float_of_str sv) prev county_data = Inr df
        \<longrightarrow> load_county_covid_data p sv w = (Inl KeyError, w1))"
proof -
  have a: "''number_of_cases'' \<notin> set (cols layer)" if "esri_layer sv = Inr layer" for layer
    using assms that by simp
  have "''number_of_cases'' \<notin> set columns" "''cases'' \<in> set columns"
    by (simp_all add: columns_def)
  moreover note county_job_before_writing(1)[of sv p w, OF a]
    county_job_before_writing(2)[of sv p w, OF a]
    county_job_before_writing(3)[of sv p w, OF a]
  moreover have "load_county_covid_data p sv w = (Inl KeyError, w1)"
    if "arcgis_connection sv = Inr c" "gis_login sv = Inr ()" "load_esri_time_series sv = Inr prev"
       "scrape_county_public_health_data p w = (Inr county_data, w1)"
       "merge_county (float_of_str sv) prev county_data = Inr df"
    using county_job_before_writing(4)[of sv c prev p w county_data w1 df, OF a that] .
  ultimately show ?thesis by blast
qed

text \<open>
  The example run with a layer that has the columns of the script: the county job raises
  \<open>KeyError\<close> after the six requests, and nothing is written.
\<close>

theorem county_job_raises_before_writing_witness:
  "(case esri_layer (example_services [] (\<lambda>item. Inr True)) of Inl e \<Rightarrow> True
      | Inr layer \<Rightarrow> ''number_of_cases'' \<notin> set (cols layer))
   \<and> load_county_covid_data example_pages (example_services [] (\<lambda>item. Inr True)) empty_world
       = (Inl KeyError, empty_world\<lparr>requests := county_urls, log := scrape_log example_pages\<rparr>)
   \<and> files (snd (load_county_covid_data example_pages (example_services [] (\<lambda>item. Inr True)) empty_world))
       = Map.empty
   \<and> layers (snd (load_county_covid_data example_pages (example_services [] (\<lambda>item. Inr True)) empty_world))
       = Map.empty"
proof -
  define sv where "sv = example_services [] (\<lambda>item. Inr True)"
  have h: "case esri_layer sv of Inl e \<Rightarrow> True | Inr layer \<Rightarrow> ''number_of_cases'' \<notin> set (cols layer)"
    by (simp add: sv_def example_services_def example_layer_def)
  from example_merge[of "[]" "\<lambda>item. Inr True"] obtain df0 where
    m: "merge_county (float_of_str sv) (example_prev [])
          \<lparr>cols = columns, rws = scraped_records example_pages\<rparr> = Inr df0"
    unfolding sv_def by blast
  have pre: "arcgis_connection sv = Inr (''user'', ''secret'')" "gis_login sv = Inr ()"
    by (simp_all add: sv_def example_services_def)
  have e: "load_esri_time_series sv = Inr (example_prev [])"
    unfolding sv_def by (rule example_esri)
  have s: "scrape_county_public_health_data example_pages empty_world
     = (Inr \<lparr>cols = columns, rws = scraped_records example_pages\<rparr>,
        empty_world\<lparr>requests := county_urls, log := scrape_log example_pages\<rparr>)"
    using example_scrape[of empty_world] by (simp add: empty_world_def)
  note t = county_job_raises_before_writing[where sv = sv and p = example_pages and w = empty_world, OF h]
  from t[of "(''user'', ''secret'')" "example_prev []"
        "\<lparr>cols = columns, rws = scraped_records example_pages\<rparr>"
        "empty_world\<lparr>requests := county_urls, log := scrape_log example_pages\<rparr>" df0]
    pre e s m
  have "load_county_covid_data example_pages sv empty_world
       = (Inl KeyError, empty_world\<lparr>requests := county_urls, log := scrape_log example_pages\<rparr>)"
    by blast
  moreover from t have "files (snd (load_county_covid_data example_pages sv empty_world)) = Map.empty"
    "layers (snd (load_county_covid_data example_pages sv empty_world)) = Map.empty"
    by (simp_all add: empty_world_def)
  ultimately show ?thesis using h unfolding sv_def by blast
qed

text \<open>
  A published layer that has a column \<open>number_of_cases\<close>: the lookup succeeds, the county
  job returns and overwrites the county layers.
\<close>

theorem county_job_publishes_a_layer_with_number_of_cases:
  "esri_layer (example_services [''number_of_cases''] (\<lambda>item. Inr True))
     = Inr (example_layer [''number_of_cases''])
   \<and> ''number_of_cases'' \<in> set (cols (example_layer [''number_of_cases'']))
   \<and> fst (load_county_covid_data example_pages (example_services [''number_of_cases''] (\<lambda>item. Inr True))
            empty_world) = Inr ()
   \<and> layers (snd (load_county_covid_data example_pages
                     (example_services [''number_of_cases''] (\<lambda>item. Inr True)) empty_world))
        time_series_featureid \<noteq> None
   \<and> layers empty_world time_series_featureid = None"
proof -
  define sv where "sv = example_services [''number_of_cases''] (\<lambda>item. Inr True)"
  from example_county_facts[of "\<lambda>item. Inr True"] obtain df0 cases latest where
    m: "merge_county (float_of_str sv) (example_prev [''number_of_cases''])
          \<lparr>cols = columns, rws = scraped_records example_pages\<rparr> = Inr df0"
    and n: "bnd (getitem (assign_scalar ''non_scag_total'' (PyInt 0) (assign_scalar ''ca_total'' (PyInt 0) df0))
             ''number_of_cases'') (to_numeric sv) = Inr cases"
    and x: "bnd (getattr_col (set_column ''number_of_cases'' cases
             (assign_scalar ''non_scag_total'' (PyInt 0) (assign_scalar ''ca_total'' (PyInt 0) df0))) ''date'')
          date_max = Inr latest"
    unfolding sv_def by blast
  have pre: "arcgis_connection sv = Inr (''user'', ''secret'')" "gis_login sv = Inr ()"
    "content_item sv time_series_featureid = Inr ()" "content_item sv current_featureid = Inr ()"
    "overwrite_result sv time_series_featureid = Inr True"
    "overwrite_result sv current_featureid = Inr True"
    by (simp_all add: sv_def example_services_def)
  have e: "load_esri_time_series sv = Inr (example_prev [''number_of_cases''])"
    unfolding sv_def by (rule example_esri)
  note c = county_job_completes[OF pre(1,2) e example_scrape m refl n refl x pre(3-6), of empty_world]
  have "fst (load_county_covid_data example_pages sv empty_world) = Inr ()"
    by (rule c(1))
  moreover have "layers (snd (load_county_covid_data example_pages sv empty_world))
        time_series_featureid \<noteq> None"
    unfolding c(3) by (simp add: Let_def)
  moreover have "esri_layer sv = Inr (example_layer [''number_of_cases''])"
    "''number_of_cases'' \<in> set (cols (example_layer [''number_of_cases'']))"
    "layers empty_world time_series_featureid = None"
    by (simp_all add: sv_def example_services_def example_layer_def empty_world_def)
  ultimately show ?thesis unfolding sv_def by blast
qed

section \<open>The temporary files\<close>

text \<open>
  Claim C6. A publish job (\<open>load_state_covid_data\<close>, \<open>load_county_covid_data\<close>) that has
  written its two temporary files and found the two items deletes the two files whenever
  both overwrite calls return, whether or not they report success: the job returns and
  the two files are gone. The deletion is not unconditional: the calls to \<open>os.remove\<close>
  follow the overwrite calls with no \<open>finally\<close>, so when an overwrite call raises, the job
  raises that exception and both temporary files stay.
\<close>

theorem temporary_files_deleted_when_overwrites_return:
  "(arcgis_connection sv = Inr c \<and> gis_login sv = Inr () \<and> load_jhu_state_time_series sv = Inr sdf
      \<and> bnd (getattr_col sdf ''date'') (to_datetime sv) = Inr dates \<and> date_max dates = Inr slatest
      \<and> content_item sv jhu_time_series_featureid = Inr ()
      \<and> content_item sv jhu_current_featureid = Inr ()
    \<longrightarrow> (overwrite_result sv jhu_time_series_featureid = Inr b1
           \<and> overwrite_result sv jhu_current_featureid = Inr b2
         \<longrightarrow> fst (load_state_covid_data sv w) = Inr ()
           \<and> files (snd (load_state_covid_data sv w))
              = (files w)(''/tmp/jhu_covid19_time_series.csv'' := None,
                          ''/tmp/jhu_covid19_current.csv'' := None))
      \<and> (overwrite_result sv jhu_time_series_featureid = Inl e
           \<or> (\<exists>b. overwrite_result sv jhu_time_series_featureid = Inr b)
              \<and> overwrite_result sv jhu_current_featureid = Inl e
         \<longrightarrow> fst (load_state_covid_data sv w) = Inl e
           \<and> files (snd (load_state_covid_data sv w))
              = (files w)(''/tmp/jhu_covid19_time_series.csv'' \<mapsto> sdf,
                   ''/tmp/jhu_covid19_current.csv'' \<mapsto>
                     rows_with_date slatest (set_column ''date'' dates sdf))))
   \<and> (arcgis_connection sv = Inr c \<and> gis_login sv = Inr () \<and> load_esri_time_series sv = Inr prev
      \<and> scrape_county_public_health_data p w = (Inr county_data, w1)
      \<and> merge_county (float_of_str sv) prev county_data = Inr df0
      \<and> df1 = assign_scalar ''non_scag_total'' (PyInt 0) (assign_scalar ''ca_total'' (PyInt 0) df0)
      \<and> bnd (getitem df1 ''number_of_cases'') (to_numeric sv) = Inr cases
      \<and> df = set_column ''number_of_cases'' cases df1
      \<and> bnd (getattr_col df ''date'') date_max = Inr latest
      \<and> content_item sv time_series_featureid = Inr ()
      \<and> content_item sv current_featureid = Inr ()
    \<longrightarrow> (overwrite_result sv time_series_featureid = Inr b1
           \<and> overwrite_result sv current_featureid = Inr b2
         \<longrightarrow> fst (load_county_covid_data p sv w) = Inr ()
           \<and> files (snd (load_county_covid_data p sv w))
              = (files w)(''/tmp/covid19_time_series.csv'' := None, ''/tmp/covid19_current.csv'' := None))
      \<and> (overwrite_result sv time_series_featureid = Inl e
           \<or> (\<exists>b. overwrite_result sv time_series_featureid = Inr b)
              \<and> overwrite_result sv current_featureid = Inl e
         \<longrightarrow> fst (load_county_covid_data p sv w) = Inl e
           \<and> files (snd (load_county_covid_data p sv w))
              = (files w)(''/tmp/covid19_time_series.csv'' \<mapsto> df,
                   ''/tmp/covid19_current.csv'' \<mapsto> rows_with_date latest df)))"
proof (intro conjI impI; (elim conjE)?)
  assume a: "arcgis_connection sv = Inr c" "gis_login sv = Inr ()" "load_jhu_state_time_series sv = Inr sdf"
    "bnd (getattr_col sdf ''date'') (to_datetime sv) = Inr dates" "date_max dates = Inr slatest"
    "content_item sv jhu_time_series_featureid = Inr ()" "content_item sv jhu_current_featureid = Inr ()"
  {
    assume o: "overwrite_result sv jhu_time_series_featureid = Inr b1"
      "overwrite_result sv jhu_current_featureid = Inr b2"
    show "fst (load_state_covid_data sv w) = Inr ()"
      by (rule state_job_completes(1)[OF a o])
    show "files (snd (load_state_covid_data sv w))
              = (files w)(''/tmp/jhu_covid19_time_series.csv'' := None,
                          ''/tmp/jhu_covid19_current.csv'' := None)"
      by (rule state_job_completes(2)[OF a o])
  }
  {
    assume o: "overwrite_result sv jhu_time_series_featureid = Inl e
           \<or> (\<exists>b. overwrite_result sv jhu_time_series_featureid = Inr b)
              \<and> overwrite_result sv jhu_current_featureid = Inl e"
    show "fst (load_state_covid_data sv w) = Inl e"
      by (rule state_job_overwrite_raises(1)[OF a o])
    show "files (snd (load_state_covid_data sv w))
              = (files w)(''/tmp/jhu_covid19_time_series.csv'' \<mapsto> sdf,
                   ''/tmp/jhu_covid19_current.csv'' \<mapsto>
                     rows_with_date slatest (set_column ''date'' dates sdf))"
      by (rule state_job_overwrite_raises(2)[OF a o])
  }
next
  assume a: "arcgis_connection sv = Inr c" "gis_login sv = Inr ()" "load_esri_time_series sv = Inr prev"
    "scrape_county_public_health_data p w = (Inr county_data, w1)"
    "merge_county (float_of_str sv) prev county_data = Inr df0"
    "df1 = assign_scalar ''non_scag_total'' (PyInt 0) (assign_scalar ''ca_total'' (PyInt 0) df0)"
    "bnd (getitem df1 ''number_of_cases'') (to_numeric sv) = Inr cases"
    "df = set_column ''number_of_cases'' cases df1"
    "bnd (getattr_col df ''date'') date_max = Inr latest"
    "content_item sv time_series_featureid = Inr ()" "content_item sv current_featureid = Inr ()"
  {
    assume o: "overwrite_result sv time_series_featureid = Inr b1"
      "overwrite_result sv current_featureid = Inr b2"
    show "fst (load_county_covid_data p sv w) = Inr ()"
      by (rule county_job_completes(1)[OF a o])
    show "files (snd (load_county_covid_data p sv w))
              = (files w)(''/tmp/covid19_time_series.csv'' := None, ''/tmp/covid19_current.csv'' := None)"
      by (rule county_job_completes(2)[OF a o])
  }
  {
    assume o: "overwrite_result sv time_series_featureid = Inl e
           \<or> (\<exists>b. overwrite_result sv time_series_featureid = Inr b)
              \<and> overwrite_result sv current_featureid = Inl e"
    show "fst (load_county_covid_data p sv w) = Inl e"
      by (rule county_job_overwrite_raises(1)[OF a o])
    show "files (snd (load_county_covid_data p sv w))
              = (files w)(''/tmp/covid19_time_series.csv'' \<mapsto> df,
                   ''/tmp/covid19_current.csv'' \<mapsto> rows_with_date latest df)"
      by (rule county_job_overwrite_raises(2)[OF a o])
  }
qed


text \<open>
  The example run of both jobs. When the first overwrite succeeds and the second reports
  a failure, both jobs return and no temporary file is left; when the first overwrite
  succeeds and the second raises, both jobs raise and leave their two files.
\<close>

theorem temporary_files_deleted_when_overwrites_return_witness:
  "overwrite_result (example_services [''number_of_cases''] (example_overwrite (Inr True) (Inr False)))
      current_featureid = Inr False
   \<and> fst (load_state_covid_data
        (example_services [''number_of_cases''] (example_overwrite (Inr True) (Inr False))) empty_world)
       = Inr ()
   \<and> files (snd (load_state_covid_data
        (example_services [''number_of_cases''] (example_overwrite (Inr True) (Inr False))) empty_world))
       = Map.empty
   \<and> fst (load_county_covid_data example_pages
        (example_services [''number_of_cases''] (example_overwrite (Inr True) (Inr False))) empty_world)
       = Inr ()
   \<and> files (snd (load_county_covid_data example_pages
        (example_services [''number_of_cases''] (example_overwrite (Inr True) (Inr False))) empty_world))
       = Map.empty
   \<and> fst (load_state_covid_data
        (example_services [''number_of_cases''] (example_overwrite (Inr True) (Inl ConnectionError)))
        empty_world) = Inl ConnectionError
   \<and> dom (files (snd (load_state_covid_data
        (example_services [''number_of_cases''] (example_overwrite (Inr True) (Inl ConnectionError)))
        empty_world)))
       = {''/tmp/jhu_covid19_time_series.csv'', ''/tmp/jhu_covid19_current.csv''}
   \<and> fst (load_county_covid_data example_pages
        (example_services [''number_of_cases''] (example_overwrite (Inr True) (Inl ConnectionError)))
        empty_world) = Inl ConnectionError
   \<and> dom (files (snd (load_county_covid_data example_pages
        (example_services [''number_of_cases''] (example_overwrite (Inr True) (Inl ConnectionError)))
        empty_world)))
       = {''/tmp/covid19_time_series.csv'', ''/tmp/covid19_current.csv''}"
proof -
  have ids: "current_featureid \<noteq> time_series_featureid" "current_featureid \<noteq> jhu_time_series_featureid"
    "jhu_current_featureid \<noteq> time_series_featureid" "jhu_current_featureid \<noteq> jhu_time_series_featureid"
    by (simp_all add: current_featureid_def time_series_featureid_def jhu_current_featureid_def
        jhu_time_series_featureid_def)
  have run:
    "(second = Inr b2 \<longrightarrow>
        fst (load_state_covid_data (example_services [''number_of_cases'']
               (example_overwrite (Inr True) second)) empty_world) = Inr ()
      \<and> files (snd (load_state_covid_data (example_services [''number_of_cases'']
               (example_overwrite (Inr True) second)) empty_world)) = Map.empty
      \<and> fst (load_county_covid_data example_pages (example_services [''number_of_cases'']
               (example_overwrite (Inr True) second)) empty_world) = Inr ()
      \<and> files (snd (load_county_covid_data example_pages (example_services [''number_of_cases'']
               (example_overwrite (Inr True) second)) empty_world)) = Map.empty)
     \<and> (second = Inl e \<longrightarrow>
        fst (load_state_covid_data (example_services [''number_of_cases'']
               (example_overwrite (Inr True) second)) empty_world) = Inl e
      \<and> dom (files (snd (load_state_covid_data (example_services [''number_of_cases'']
               (example_overwrite (Inr True) second)) empty_world)))
         = {''/tmp/jhu_covid19_time_series.csv'', ''/tmp/jhu_covid19_current.csv''}
      \<and> fst (load_county_covid_data example_pages (example_services [''number_of_cases'']
               (example_overwrite (Inr True) second)) empty_world) = Inl e
      \<and> dom (files (snd (load_county_covid_data example_pages (example_services [''number_of_cases'']
               (example_overwrite (Inr True) second)) empty_world)))
         = {''/tmp/covid19_time_series.csv'', ''/tmp/covid19_current.csv''})"
    for second b2 e
  proof -
    define sv where "sv = example_services [''number_of_cases''] (example_overwrite (Inr True) second)"
    define w1 where "w1 = empty_world\<lparr>requests := requests empty_world @ county_urls,
                                  log := log empty_world @ scrape_log example_pages\<rparr>"
    from example_state_facts[of "[''number_of_cases'']" "example_overwrite (Inr True) second"]
    obtain sdf dates slatest where
      st: "load_jhu_state_time_series sv = Inr sdf"
        "bnd (getattr_col sdf ''date'') (to_datetime sv) = Inr dates" "date_max dates = Inr slatest"
      unfolding sv_def by blast
    from example_county_facts[of "example_overwrite (Inr True) second"] obtain df0 cases latest where
      co: "merge_county (float_of_str sv) (example_prev [''number_of_cases''])
            \<lparr>cols = columns, rws = scraped_records example_pages\<rparr> = Inr df0"
        "bnd (getitem (assign_scalar ''non_scag_total'' (PyInt 0) (assign_scalar ''ca_total'' (PyInt 0) df0))
               ''number_of_cases'') (to_numeric sv) = Inr cases"
        "bnd (getattr_col (set_column ''number_of_cases'' cases
               (assign_scalar ''non_scag_total'' (PyInt 0) (assign_scalar ''ca_total'' (PyInt 0) df0))) ''date'')
            date_max = Inr latest"
      unfolding sv_def by blast
    define df1 where "df1 = assign_scalar ''non_scag_total'' (PyInt 0) (assign_scalar ''ca_total'' (PyInt 0) df0)"
    define df where "df = set_column ''number_of_cases'' cases df1"
    have pre: "arcgis_connection sv = Inr (''user'', ''secret'')" "gis_login sv = Inr ()"
      "content_item sv jhu_time_series_featureid = Inr ()" "content_item sv jhu_current_featureid = Inr ()"
      "content_item sv time_series_featureid = Inr ()" "content_item sv current_featureid = Inr ()"
      by (simp_all add: sv_def example_services_def)
    have ow: "overwrite_result sv jhu_time_series_featureid = Inr True"
      "overwrite_result sv time_series_featureid = Inr True"
      "overwrite_result sv jhu_current_featureid = second"
      "overwrite_result sv current_featureid = second"
      by (simp_all add: sv_def example_services_def example_overwrite_def ids)
    have es: "load_esri_time_series sv = Inr (example_prev [''number_of_cases''])"
      unfolding sv_def by (rule example_esri)
    have sc: "scrape_county_public_health_data example_pages empty_world
       = (Inr \<lparr>cols = columns, rws = scraped_records example_pages\<rparr>, w1)"
      unfolding w1_def by (rule example_scrape)
    note t = temporary_files_deleted_when_overwrites_return[where sv = sv and w = empty_world
        and p = example_pages and c = "(''user'', ''secret'')" and sdf = sdf and dates = dates
        and slatest = slatest and prev = "example_prev [''number_of_cases'']"
        and county_data = "\<lparr>cols = columns, rws = scraped_records example_pages\<rparr>"
        and ?w1.0 = w1 and ?df0.0 = df0 and cases = cases and latest = latest
        and ?df1.0 = df1 and df = df and ?b1.0 = True and ?b2.0 = b2 and e = e]
    have S: "arcgis_connection sv = Inr (''user'', ''secret'') \<and> gis_login sv = Inr ()
      \<and> load_jhu_state_time_series sv = Inr sdf
      \<and> bnd (getattr_col sdf ''date'') (to_datetime sv) = Inr dates \<and> date_max dates = Inr slatest
      \<and> content_item sv jhu_time_series_featureid = Inr ()
      \<and> content_item sv jhu_current_featureid = Inr ()"
      by (intro conjI pre st)
    have C: "arcgis_connection sv = Inr (''user'', ''secret'') \<and> gis_login sv = Inr ()
      \<and> load_esri_time_series sv = Inr (example_prev [''number_of_cases''])
      \<and> scrape_county_public_health_data example_pages empty_world
          = (Inr \<lparr>cols = columns, rws = scraped_records example_pages\<rparr>, w1)
      \<and> merge_county (float_of_str sv) (example_prev [''number_of_cases''])
            \<lparr>cols = columns, rws = scraped_records example_pages\<rparr> = Inr df0
      \<and> df1 = assign_scalar ''non_scag_total'' (PyInt 0) (assign_scalar ''ca_total'' (PyInt 0) df0)
      \<and> bnd (getitem df1 ''number_of_cases'') (to_numeric sv) = Inr cases
      \<and> df = set_column ''number_of_cases'' cases df1
      \<and> bnd (getattr_col df ''date'') date_max = Inr latest
      \<and> content_item sv time_series_featureid = Inr ()
      \<and> content_item sv current_featureid = Inr ()"
      unfolding df_def df1_def by (intro conjI pre es sc co refl)
    note ts = t[THEN conjunct1, THEN mp, OF S]
    note tc = t[THEN conjunct2, THEN mp, OF C]
    have e0: "files empty_world = Map.empty"
      by (simp add: empty_world_def)
    show ?thesis
      unfolding sv_def[symmetric]
    proof (intro conjI impI)
      assume s: "second = Inr b2"
      have o: "overwrite_result sv jhu_time_series_featureid = Inr True
           \<and> overwrite_result sv jhu_current_featureid = Inr b2"
        "overwrite_result sv time_series_featureid = Inr True
           \<and> overwrite_result sv current_featureid = Inr b2"
        by (simp_all add: ow s)
      note r1 = ts[THEN conjunct1, THEN mp, OF o(1)]
      note r2 = tc[THEN conjunct1, THEN mp, OF o(2)]
      show "fst (load_state_covid_data sv empty_world) = Inr ()"
        by (rule r1[THEN conjunct1])
      show "files (snd (load_state_covid_data sv empty_world)) = Map.empty"
        unfolding r1[THEN conjunct2] e0 by simp
      show "fst (load_county_covid_data example_pages sv empty_world) = Inr ()"
        by (rule r2[THEN conjunct1])
      show "files (snd (load_county_covid_data example_pages sv empty_world)) = Map.empty"
        unfolding r2[THEN conjunct2] e0 by simp
    next
      assume s: "second = Inl e"
      have o: "overwrite_result sv jhu_time_series_featureid = Inl e
           \<or> (\<exists>b. overwrite_result sv jhu_time_series_featureid = Inr b)
              \<and> overwrite_result sv jhu_current_featureid = Inl e"
        "overwrite_result sv time_series_featureid = Inl e
           \<or> (\<exists>b. overwrite_result sv time_series_featureid = Inr b)
              \<and> overwrite_result sv current_featureid = Inl e"
        by (auto simp: ow s)
      note r1 = ts[THEN conjunct2, THEN mp, OF o(1)]
      note r2 = tc[THEN conjunct2, THEN mp, OF o(2)]
      show "fst (load_state_covid_data sv empty_world) = Inl e"
        by (rule r1[THEN conjunct1])
      show "dom (files (snd (load_state_covid_data sv empty_world)))
         = {''/tmp/jhu_covid19_time_series.csv'', ''/tmp/jhu_covid19_current.csv''}"
        unfolding r1[THEN conjunct2] e0 by (simp add: insert_commute)
      show "fst (load_county_covid_data example_pages sv empty_world) = Inl e"
        by (rule r2[THEN conjunct1])
      show "dom (files (snd (load_county_covid_data example_pages sv empty_world)))
         = {''/tmp/covid19_time_series.csv'', ''/tmp/covid19_current.csv''}"
        unfolding r2[THEN conjunct2] e0 by (simp add: insert_commute)
    qed
  qed
  have "overwrite_result (example_services [''number_of_cases''] (example_overwrite (Inr True) (Inr False)))
      current_featureid = Inr False"
    by (simp add: example_services_def example_overwrite_def ids)
  moreover note run[of "Inr False" False ConnectionError, THEN conjunct1, THEN mp, OF refl]
    run[of "Inl ConnectionError" False ConnectionError, THEN conjunct2, THEN mp, OF refl]
  ultimately show ?thesis
    by simp
qed
text \<open>
  The example run when the first overwrite raises: the job raises, and the temporary
  files that it wrote are still there.
\<close>

theorem temporary_files_stay_when_overwrite_raises:
  "files empty_world = Map.empty
   \<and> fst (load_state_covid_data (example_services [''number_of_cases''] (\<lambda>item. Inl ConnectionError))
            empty_world) = Inl ConnectionError
   \<and> dom (files (snd (load_state_covid_data (example_services [''number_of_cases'']
            (\<lambda>item. Inl ConnectionError)) empty_world)))
       = {''/tmp/jhu_covid19_time_series.csv'', ''/tmp/jhu_covid19_current.csv''}
   \<and> fst (load_county_covid_data example_pages (example_services [''number_of_cases'']
            (\<lambda>item. Inl ConnectionError)) empty_world) = Inl ConnectionError
   \<and> dom (files (snd (load_county_covid_data example_pages (example_services [''number_of_cases'']
            (\<lambda>item. Inl ConnectionError)) empty_world)))
       = {''/tmp/covid19_time_series.csv'', ''/tmp/covid19_current.csv''}"
proof -
  define sv where "sv = example_services [''number_of_cases''] (\<lambda>item. Inl ConnectionError)"
  from example_state_facts[of "[''number_of_cases'']" "\<lambda>item. Inl ConnectionError"]
  obtain sdf dates slatest where
    st: "load_jhu_state_time_series sv = Inr sdf"
      "bnd (getattr_col sdf ''date'') (to_datetime sv) = Inr dates" "date_max dates = Inr slatest"
    unfolding sv_def by blast
  from example_county_facts[of "\<lambda>item. Inl ConnectionError"] obtain df0 cases latest where
    co: "merge_county (float_of_str sv) (example_prev [''number_of_cases''])
          \<lparr>cols = columns, rws = scraped_records example_pages\<rparr> = Inr df0"
      "bnd (getitem (assign_scalar ''non_scag_total'' (PyInt 0) (assign_scalar ''ca_total'' (PyInt 0) df0))
             ''number_of_cases'') (to_numeric sv) = Inr cases"
      "bnd (getattr_col (set_column ''number_of_cases'' cases
             (assign_scalar ''non_scag_total'' (PyInt 0) (assign_scalar ''ca_total'' (PyInt 0) df0))) ''date'')
          date_max = Inr latest"
    unfolding sv_def by blast
  have pre: "arcgis_connection sv = Inr (''user'', ''secret'')" "gis_login sv = Inr ()"
    by (simp_all add: sv_def example_services_def)
  have ci: "content_item sv jhu_time_series_featureid = Inr ()" "content_item sv jhu_current_featureid = Inr ()"
    "content_item sv time_series_featureid = Inr ()" "content_item sv current_featureid = Inr ()"
    by (simp_all add: sv_def example_services_def)
  have o: "overwrite_result sv jhu_time_series_featureid = Inl ConnectionError
           \<or> (\<exists>b. overwrite_result sv jhu_time_series_featureid = Inr b)
              \<and> overwrite_result sv jhu_current_featureid = Inl ConnectionError"
    "overwrite_result sv time_series_featureid = Inl ConnectionError
           \<or> (\<exists>b. overwrite_result sv time_series_featureid = Inr b)
              \<and> overwrite_result sv current_featureid = Inl ConnectionError"
    by (simp_all add: sv_def example_services_def)
  have e: "load_esri_time_series sv = Inr (example_prev [''number_of_cases''])"
    unfolding sv_def by (rule example_esri)
  note s = state_job_overwrite_raises[OF pre st ci(1,2) o(1), of empty_world]
  note c = county_job_overwrite_raises[OF pre e example_scrape co(1) refl co(2) refl co(3) ci(3,4) o(2),
      of empty_world]
  have "files empty_world = Map.empty"
    by (simp add: empty_world_def)
  then show ?thesis
    unfolding sv_def[symmetric] s c by (simp add: insert_commute)
qed

section \<open>Failures do not abort\<close>




section \<open>The scooter job never queries\<close>




end
